(* ===== verification/Pool_Errors.thy ===== *)
theory Pool_Errors
  imports Main
begin

text \<open>
  The typed contract errors of \<^verbatim>\<open>contracts/protection-pool/src/error.rs\<close>: the enum
  \<^verbatim>\<open>PoolError\<close> with its public numeric codes, the decoding of a code, and the order
  that the derived \<^verbatim>\<open>Ord\<close> instance gives the variants.
\<close>

section \<open>The error enum and its codes\<close>

datatype (plugins only: code) pool_error =
    NoStake
  | AlreadyWithdrawn | PoolCapNotPositive | AlreadyInitialized | OracleEqualsCoSigner
  | CoSignerEqualsAdmin | NewAdminEqualsCoSigner | PoolCapBelowTotalStaked
  | CoSignerEqualsOracle | StakeNotPositive | StakeOutOfRange | AlreadyStaked | PoolCapExceeded
  | BeneficiaryIsStaker | BeneficiaryIsOracle | BeneficiaryIsAdmin | BeneficiaryIsCoSigner
  | StakeForfeited | ClaimActive | PenaltyLockActive | WrongBeneficiary | NoActiveStake
  | InvalidTier | CallerNotOracleOrAdmin | EntitlementNotPositive | StakeSuspended
  | ClaimAlreadyActiveForStake | EntitlementExceedsTierCap | HackTimestampInFuture
  | HackPredatesStake | ClaimWindowExpired | Insolvent | DailyStressCapExceeded
  | OracleDailyClaimLimitReached | ClaimAlreadyExists | NoSuchClaim | ClaimNotPending
  | TimeGateNotMet | ClaimNotAwaitingApproval | ApprovalWindowExpired
  | ApprovalWindowNotExpired | ClaimNotActive | ClaimFullyStreamed | ClaimNotStale
  | CooldownNotPassed | NothingVested | DailyOutflowCapReached | ClaimNotCancellable
  | CallerNotAdminOrCoSigner | OverrideParamsMismatch | ClaimAlreadyCompleted
  | WalletHasDifferentActiveClaim | NoStakeAmountForOverride | NoPendingOverride
  | CallerNotAdmin | SignatureExpired | OraclePubKeyNotSet | ApprovalRevoked
  | SignatureDeadlineTooFar | InsufficientLiquidity | VaultNotSet | DeployExceedsCeiling
  | DeployBreachesAllocation | VaultChangeWhileDeployed | RedeemExceedsDeployed
  | AmountNotPositive | DeployBpsTooHigh | TreasuryNotSet | NothingDeployed
  | ExceedsYieldBalance | MinSharesNotMet | MinAmountNotMet | Paused | ClaimAlreadyQueued
  | NoSuchQueuedClaim | QueueReleaseNotYetEligible | QueueNotYetExpired

fun error_code :: "pool_error \<Rightarrow> nat" where
  "error_code NoStake = 1"
| "error_code AlreadyWithdrawn = 2"
| "error_code PoolCapNotPositive = 3"
| "error_code AlreadyInitialized = 10"
| "error_code OracleEqualsCoSigner = 11"
| "error_code CoSignerEqualsAdmin = 12"
| "error_code NewAdminEqualsCoSigner = 13"
| "error_code PoolCapBelowTotalStaked = 14"
| "error_code CoSignerEqualsOracle = 15"
| "error_code StakeNotPositive = 20"
| "error_code StakeOutOfRange = 21"
| "error_code AlreadyStaked = 22"
| "error_code PoolCapExceeded = 23"
| "error_code BeneficiaryIsStaker = 24"
| "error_code BeneficiaryIsOracle = 25"
| "error_code BeneficiaryIsAdmin = 26"
| "error_code BeneficiaryIsCoSigner = 27"
| "error_code StakeForfeited = 28"
| "error_code ClaimActive = 29"
| "error_code PenaltyLockActive = 30"
| "error_code WrongBeneficiary = 31"
| "error_code NoActiveStake = 32"
| "error_code InvalidTier = 40"
| "error_code CallerNotOracleOrAdmin = 41"
| "error_code EntitlementNotPositive = 42"
| "error_code StakeSuspended = 43"
| "error_code ClaimAlreadyActiveForStake = 44"
| "error_code EntitlementExceedsTierCap = 45"
| "error_code HackTimestampInFuture = 46"
| "error_code HackPredatesStake = 47"
| "error_code ClaimWindowExpired = 48"
| "error_code Insolvent = 49"
| "error_code DailyStressCapExceeded = 50"
| "error_code OracleDailyClaimLimitReached = 51"
| "error_code ClaimAlreadyExists = 52"
| "error_code NoSuchClaim = 53"
| "error_code ClaimNotPending = 54"
| "error_code TimeGateNotMet = 55"
| "error_code ClaimNotAwaitingApproval = 56"
| "error_code ApprovalWindowExpired = 57"
| "error_code ApprovalWindowNotExpired = 58"
| "error_code ClaimNotActive = 59"
| "error_code ClaimFullyStreamed = 60"
| "error_code ClaimNotStale = 61"
| "error_code CooldownNotPassed = 62"
| "error_code NothingVested = 63"
| "error_code DailyOutflowCapReached = 64"
| "error_code ClaimNotCancellable = 65"
| "error_code CallerNotAdminOrCoSigner = 66"
| "error_code OverrideParamsMismatch = 67"
| "error_code ClaimAlreadyCompleted = 68"
| "error_code WalletHasDifferentActiveClaim = 69"
| "error_code NoStakeAmountForOverride = 70"
| "error_code NoPendingOverride = 71"
| "error_code CallerNotAdmin = 72"
| "error_code SignatureExpired = 73"
| "error_code OraclePubKeyNotSet = 74"
| "error_code ApprovalRevoked = 75"
| "error_code SignatureDeadlineTooFar = 76"
| "error_code InsufficientLiquidity = 80"
| "error_code VaultNotSet = 81"
| "error_code DeployExceedsCeiling = 82"
| "error_code DeployBreachesAllocation = 83"
| "error_code VaultChangeWhileDeployed = 84"
| "error_code RedeemExceedsDeployed = 85"
| "error_code AmountNotPositive = 86"
| "error_code DeployBpsTooHigh = 87"
| "error_code TreasuryNotSet = 88"
| "error_code NothingDeployed = 89"
| "error_code ExceedsYieldBalance = 90"
| "error_code MinSharesNotMet = 91"
| "error_code MinAmountNotMet = 92"
| "error_code Paused = 93"
| "error_code ClaimAlreadyQueued = 94"
| "error_code NoSuchQueuedClaim = 95"
| "error_code QueueReleaseNotYetEligible = 96"
| "error_code QueueNotYetExpired = 97"

definition all_errors :: "pool_error list" where
  "all_errors =
    [NoStake, AlreadyWithdrawn, PoolCapNotPositive, AlreadyInitialized, OracleEqualsCoSigner,
     CoSignerEqualsAdmin, NewAdminEqualsCoSigner, PoolCapBelowTotalStaked,
     CoSignerEqualsOracle, StakeNotPositive, StakeOutOfRange, AlreadyStaked, PoolCapExceeded,
     BeneficiaryIsStaker, BeneficiaryIsOracle, BeneficiaryIsAdmin, BeneficiaryIsCoSigner,
     StakeForfeited, ClaimActive, PenaltyLockActive, WrongBeneficiary, NoActiveStake,
     InvalidTier, CallerNotOracleOrAdmin, EntitlementNotPositive, StakeSuspended,
     ClaimAlreadyActiveForStake, EntitlementExceedsTierCap, HackTimestampInFuture,
     HackPredatesStake, ClaimWindowExpired, Insolvent, DailyStressCapExceeded,
     OracleDailyClaimLimitReached, ClaimAlreadyExists, NoSuchClaim, ClaimNotPending,
     TimeGateNotMet, ClaimNotAwaitingApproval, ApprovalWindowExpired, ApprovalWindowNotExpired,
     ClaimNotActive, ClaimFullyStreamed, ClaimNotStale, CooldownNotPassed, NothingVested,
     DailyOutflowCapReached, ClaimNotCancellable, CallerNotAdminOrCoSigner,
     OverrideParamsMismatch, ClaimAlreadyCompleted, WalletHasDifferentActiveClaim,
     NoStakeAmountForOverride, NoPendingOverride, CallerNotAdmin, SignatureExpired,
     OraclePubKeyNotSet, ApprovalRevoked, SignatureDeadlineTooFar, InsufficientLiquidity,
     VaultNotSet, DeployExceedsCeiling, DeployBreachesAllocation, VaultChangeWhileDeployed,
     RedeemExceedsDeployed, AmountNotPositive, DeployBpsTooHigh, TreasuryNotSet,
     NothingDeployed, ExceedsYieldBalance, MinSharesNotMet, MinAmountNotMet, Paused,
     ClaimAlreadyQueued, NoSuchQueuedClaim, QueueReleaseNotYetEligible, QueueNotYetExpired]"

text \<open>Decoding a code: the conversion that the contract error attribute gives the enum.\<close>

definition error_of_code :: "nat \<Rightarrow> pool_error option" where
  "error_of_code n = List.find (\<lambda>e. error_code e = n) all_errors"

lemma error_of_code_error_code: "error_of_code (error_code e) = Some e"
  by (cases e) (simp_all add: error_of_code_def all_errors_def)

lemma error_code_inject [simp]: "error_code a = error_code b \<longleftrightarrow> a = b"
  by (metis error_of_code_error_code option.inject)

section \<open>The derived order\<close>

text \<open>
  The enum derives \<^verbatim>\<open>PartialOrd\<close> and \<^verbatim>\<open>Ord\<close>, which compare variants in
  declaration order; the codes grow in declaration order, so the order is that of the codes.
\<close>

instantiation pool_error :: linorder
begin

definition less_eq_pool_error :: "pool_error \<Rightarrow> pool_error \<Rightarrow> bool" where
  "less_eq_pool_error a b \<longleftrightarrow> error_code a \<le> error_code b"

definition less_pool_error :: "pool_error \<Rightarrow> pool_error \<Rightarrow> bool" where
  "less_pool_error a b \<longleftrightarrow> error_code a < error_code b"

instance
  by standard (auto simp: less_eq_pool_error_def less_pool_error_def)

end

lemma all_errors_sorted: "sorted_wrt (<) all_errors"
  by (simp add: all_errors_def sorted_wrt2_simps less_pool_error_def del: sorted_wrt.simps)

lemma all_errors_complete: "e \<in> set all_errors"
  by (cases e) (simp_all add: all_errors_def)

end
