(* ===== verification/Pool_Prelude.thy ===== *)
theory Pool_Prelude
  imports Pool_Errors "HOL-Library.Word" "HOL-Library.Signed_Division"
begin

text \<open>
  What every component shares: the outcome of a contract call (a value, a typed error of
  \<^verbatim>\<open>error.rs\<close>, or a host trap), Rust's machine integers as they behave under
  \<^verbatim>\<open>overflow-checks = true\<close> (\<^verbatim>\<open>Cargo.toml\<close>), and sums over finite maps.
  The collection \<open>ok_simps\<close> turns "this call returned \<open>Ok\<close>" into the conditions its
  guards checked and the state it wrote; every component proof starts from it.
\<close>

named_theorems ok_simps \<open>what a successful outcome says about its parts\<close>
named_theorems storage_simps \<open>reads of the storage after a write\<close>
named_theorems op_defs \<open>definitions of the contract operations\<close>

section \<open>Outcomes\<close>

text \<open>
  \<open>Ok v\<close> is Rust's \<open>Ok(v)\<close>, \<open>Err e\<close> is \<open>Err(PoolError::e)\<close>. \<open>Trap t\<close> is an abort of the
  invocation that the contract cannot observe: an arithmetic overflow, an \<open>unwrap\<close> of a
  missing entry, a failed \<open>require_auth\<close>, a failed \<open>ed25519_verify\<close>, or a callee that trapped.
  Both an \<open>Err\<close> and a \<open>Trap\<close> roll the invocation back.
\<close>

datatype trap = ArithmeticOverflow | DivisionByZero | UnwrapNone | AuthFailed
  | SignatureMismatch | CalleeFailed

datatype 'a outcome = Ok 'a | Err pool_error | Trap trap

text \<open>The \<open>?\<close> operator: continue on \<open>Ok\<close>, return early otherwise.\<close>

fun and_then :: "'a outcome \<Rightarrow> ('a \<Rightarrow> 'b outcome) \<Rightarrow> 'b outcome" where
  "and_then (Ok x) f = f x"
| "and_then (Err e) f = Err e"
| "and_then (Trap t) f = Trap t"

text \<open>\<open>Option::ok_or\<close> and \<open>Option::unwrap\<close>.\<close>

fun ok_or :: "'a option \<Rightarrow> pool_error \<Rightarrow> 'a outcome" where
  "ok_or None e = Err e"
| "ok_or (Some x) e = Ok x"

fun unwrap :: "'a option \<Rightarrow> 'a outcome" where
  "unwrap None = Trap UnwrapNone"
| "unwrap (Some x) = Ok x"

fun unwrap_or :: "'a option \<Rightarrow> 'a \<Rightarrow> 'a" where
  "unwrap_or None d = d"
| "unwrap_or (Some x) d = x"

definition is_ok :: "'a outcome \<Rightarrow> bool" where
  "is_ok m \<longleftrightarrow> (case m of Ok _ \<Rightarrow> True | _ \<Rightarrow> False)"

lemma is_ok_simps [simp]: "is_ok (Ok x)" "\<not> is_ok (Err e)" "\<not> is_ok (Trap t)"
  by (simp_all add: is_ok_def)

lemma is_ok_iff: "is_ok m \<longleftrightarrow> (\<exists>x. m = Ok x)"
  by (cases m) simp_all

lemma and_then_eq_Ok [ok_simps]: "and_then m f = Ok y \<longleftrightarrow> (\<exists>x. m = Ok x \<and> f x = Ok y)"
  by (cases m) simp_all

lemma ok_or_eq_Ok [ok_simps]: "ok_or m e = Ok y \<longleftrightarrow> m = Some y"
  by (cases m) simp_all

lemma unwrap_eq_Ok [ok_simps]: "unwrap m = Ok y \<longleftrightarrow> m = Some y"
  by (cases m) simp_all

lemma if_Err_eq_Ok [ok_simps]: "(if b then Err e else m) = Ok y \<longleftrightarrow> \<not> b \<and> m = Ok y"
  by simp

lemma if_Trap_eq_Ok [ok_simps]: "(if b then Trap t else m) = Ok y \<longleftrightarrow> \<not> b \<and> m = Ok y"
  by simp

lemma and_then_Ok_right [simp]: "and_then m Ok = m"
  by (cases m) simp_all

lemma and_then_assoc: "and_then (and_then m f) g = and_then m (\<lambda>x. and_then (f x) g)"
  by (cases m) simp_all

section \<open>Machine integers\<close>

text \<open>
  A value of type \<open>i128\<close>, \<open>u32\<close> or \<open>u64\<close> is an \<open>int\<close> in the type's range. The release
  profile sets \<^verbatim>\<open>overflow-checks = true\<close>, so \<open>+\<close>, \<open>-\<close> and \<open>*\<close> trap when the exact
  result leaves the range; the \<open>saturating_sub\<close> method clamps instead, at the type's own
  minimum and maximum.
\<close>

definition i128_min :: int where "i128_min = - (2 ^ 127)"

definition i128_max :: int where "i128_max = 2 ^ 127 - 1"

definition u32_max :: int where "u32_max = 2 ^ 32 - 1"

definition u64_max :: int where "u64_max = 2 ^ 64 - 1"

definition in_i128 :: "int \<Rightarrow> bool" where
  "in_i128 x \<longleftrightarrow> i128_min \<le> x \<and> x \<le> i128_max"

definition checked :: "(int \<Rightarrow> bool) \<Rightarrow> int \<Rightarrow> int outcome" where
  "checked p x = (if p x then Ok x else Trap ArithmeticOverflow)"

definition add_i128 :: "int \<Rightarrow> int \<Rightarrow> int outcome" where
  "add_i128 a b = checked in_i128 (a + b)"

definition sub_i128 :: "int \<Rightarrow> int \<Rightarrow> int outcome" where
  "sub_i128 a b = checked in_i128 (a - b)"

definition mul_i128 :: "int \<Rightarrow> int \<Rightarrow> int outcome" where
  "mul_i128 a b = checked in_i128 (a * b)"

text \<open>Division truncates towards zero; it traps on a zero divisor and on \<open>MIN / -1\<close>.\<close>

definition div_i128 :: "int \<Rightarrow> int \<Rightarrow> int outcome" where
  "div_i128 a b = (if b = 0 then Trap DivisionByZero else checked in_i128 (a sdiv b))"

text \<open>\<open>a * b / c\<close>, multiplication first, as the source writes every proportion.\<close>

definition mul_div_i128 :: "int \<Rightarrow> int \<Rightarrow> int \<Rightarrow> int outcome" where
  "mul_div_i128 a b c = and_then (mul_i128 a b) (\<lambda>m. div_i128 m c)"

definition saturating_sub_i128 :: "int \<Rightarrow> int \<Rightarrow> int" where
  "saturating_sub_i128 a b = max i128_min (min i128_max (a - b))"

definition add_u32 :: "int \<Rightarrow> int \<Rightarrow> int outcome" where
  "add_u32 a b = checked (\<lambda>x. 0 \<le> x \<and> x \<le> u32_max) (a + b)"

definition saturating_sub_u32 :: "int \<Rightarrow> int \<Rightarrow> int" where
  "saturating_sub_u32 a b = max 0 (a - b)"

definition add_u64 :: "int \<Rightarrow> int \<Rightarrow> int outcome" where
  "add_u64 a b = checked (\<lambda>x. 0 \<le> x \<and> x \<le> u64_max) (a + b)"

lemma checked_eq_Ok [ok_simps]: "checked p x = Ok y \<longleftrightarrow> p x \<and> y = x"
  by (auto simp: checked_def)

lemma add_i128_eq_Ok [ok_simps]: "add_i128 a b = Ok c \<longleftrightarrow> in_i128 (a + b) \<and> c = a + b"
  by (auto simp: add_i128_def ok_simps)

lemma sub_i128_eq_Ok [ok_simps]: "sub_i128 a b = Ok c \<longleftrightarrow> in_i128 (a - b) \<and> c = a - b"
  by (auto simp: sub_i128_def ok_simps)

lemma mul_i128_eq_Ok [ok_simps]: "mul_i128 a b = Ok c \<longleftrightarrow> in_i128 (a * b) \<and> c = a * b"
  by (auto simp: mul_i128_def ok_simps)

lemma div_i128_eq_Ok [ok_simps]:
  "div_i128 a b = Ok c \<longleftrightarrow> b \<noteq> 0 \<and> in_i128 (a sdiv b) \<and> c = a sdiv b"
  by (auto simp: div_i128_def ok_simps)

lemma mul_div_i128_eq_Ok [ok_simps]:
  "mul_div_i128 a b c = Ok d \<longleftrightarrow>
     in_i128 (a * b) \<and> c \<noteq> 0 \<and> in_i128 ((a * b) sdiv c) \<and> d = (a * b) sdiv c"
  by (auto simp: mul_div_i128_def ok_simps)

lemma add_u32_eq_Ok [ok_simps]:
  "add_u32 a b = Ok c \<longleftrightarrow> 0 \<le> a + b \<and> a + b \<le> u32_max \<and> c = a + b"
  by (auto simp: add_u32_def ok_simps)

lemma add_u64_eq_Ok [ok_simps]:
  "add_u64 a b = Ok c \<longleftrightarrow> 0 \<le> a + b \<and> a + b \<le> u64_max \<and> c = a + b"
  by (auto simp: add_u64_def ok_simps)

lemma sdiv_nonneg_eq: "0 \<le> a \<Longrightarrow> 0 < b \<Longrightarrow> a sdiv b = a div (b::int)"
  by (simp add: signed_divide_int_def sgn_if)

lemma sdiv_neg_eq: "a < 0 \<Longrightarrow> 0 < b \<Longrightarrow> a sdiv b = - ((- a) div (b::int))"
  by (simp add: signed_divide_int_def sgn_if)

lemma sdiv_le_self: "0 \<le> a \<Longrightarrow> 0 < b \<Longrightarrow> a sdiv b \<le> (a::int)"
  using zdiv_mono2 [of a 1 b] by (simp add: sdiv_nonneg_eq)

lemma saturating_sub_i128_exact:
  "in_i128 (a - b) \<Longrightarrow> saturating_sub_i128 a b = a - b"
  by (simp add: saturating_sub_i128_def in_i128_def)

lemma saturating_sub_i128_between:
  assumes "in_i128 a" "0 \<le> b" "b \<le> a"
  shows "saturating_sub_i128 a b = a - b"
  using assms by (intro saturating_sub_i128_exact) (simp add: in_i128_def i128_min_def)

lemma in_i128_saturating_sub: "in_i128 (saturating_sub_i128 a b)"
  by (simp add: saturating_sub_i128_def in_i128_def i128_min_def i128_max_def)

lemma saturating_sub_u32_nonneg [simp]: "0 \<le> saturating_sub_u32 a b"
  by (simp add: saturating_sub_u32_def)

section \<open>Sums over finite maps\<close>

text \<open>The total weight of the entries of a map; the books of the contract are such totals.\<close>

definition sum_map :: "('v \<Rightarrow> int) \<Rightarrow> ('k \<rightharpoonup> 'v) \<Rightarrow> int" where
  "sum_map w m = (\<Sum>k\<in>dom m. w (the (m k)))"

definition weight_at :: "('v \<Rightarrow> int) \<Rightarrow> ('k \<rightharpoonup> 'v) \<Rightarrow> 'k \<Rightarrow> int" where
  "weight_at w m k = (case m k of None \<Rightarrow> 0 | Some v \<Rightarrow> w v)"

lemma sum_map_empty [simp]: "sum_map w Map.empty = 0"
  by (simp add: sum_map_def)

lemma sum_map_upd:
  assumes "finite (dom m)"
  shows "sum_map w (m(k \<mapsto> v)) = sum_map w m - weight_at w m k + w v"
proof -
  have rest: "(\<Sum>j\<in>dom m - {k}. w (the ((m(k \<mapsto> v)) j))) = (\<Sum>j\<in>dom m - {k}. w (the (m j)))"
    by (rule sum.cong) auto
  have new: "sum_map w (m(k \<mapsto> v)) = w v + (\<Sum>j\<in>dom m - {k}. w (the (m j)))"
    using assms rest by (simp add: sum_map_def sum.insert_remove)
  have old: "sum_map w m = weight_at w m k + (\<Sum>j\<in>dom m - {k}. w (the (m j)))"
  proof (cases "m k")
    case None
    then have "dom m - {k} = dom m" by auto
    with None show ?thesis by (simp add: sum_map_def weight_at_def)
  next
    case (Some x)
    then have "k \<in> dom m" by auto
    with assms Some show ?thesis
      by (simp add: sum_map_def weight_at_def sum.remove [of "dom m" k])
  qed
  from new old show ?thesis by simp
qed

lemma sum_map_nonneg: "(\<And>k v. m k = Some v \<Longrightarrow> 0 \<le> w v) \<Longrightarrow> 0 \<le> sum_map w m"
  by (auto simp: sum_map_def intro!: sum_nonneg)

lemma weight_at_Some [simp]: "m k = Some v \<Longrightarrow> weight_at w m k = w v"
  by (simp add: weight_at_def)

lemma weight_at_None [simp]: "m k = None \<Longrightarrow> weight_at w m k = 0"
  by (simp add: weight_at_def)

lemma weight_at_le_sum_map:
  assumes "finite (dom m)" "\<And>j v. m j = Some v \<Longrightarrow> 0 \<le> w v"
  shows "weight_at w m k \<le> sum_map w m"
proof (cases "m k")
  case None
  with sum_map_nonneg [of m w] assms(2) show ?thesis by simp
next
  case (Some v)
  have "w (the (m k)) \<le> (\<Sum>j\<in>dom m. w (the (m j)))"
    using assms Some by (intro member_le_sum) (auto simp: dom_def)
  with Some show ?thesis by (simp add: sum_map_def)
qed

end
