(* ===== verification/Pool_Types.thy ===== *)
theory Pool_Types
  imports Pool_Prelude
begin

text \<open>
  The data model and the tuning constants of
  \<^verbatim>\<open>contracts/protection-pool/src/types.rs\<close>. Field names carry a prefix for their struct
  (\<open>sr_\<close>, \<open>cl_\<close>, \<open>ov_\<close>), because the structs share names that HOL keeps in one name space.
  \<^verbatim>\<open>Address\<close> is opaque in the source (only compared and serialised), so it is a number
  here; \<^verbatim>\<open>Bytes\<close> and \<^verbatim>\<open>BytesN\<close> are lists of bytes.
\<close>

type_synonym address = nat
type_synonym bytes = "8 word list"

section \<open>Time\<close>

definition LEDGERS_PER_DAY :: int where "LEDGERS_PER_DAY = 17280"

definition SECONDS_PER_DAY :: int where "SECONDS_PER_DAY = 86400"

definition CLAIM_WINDOW_SECONDS :: int where "CLAIM_WINDOW_SECONDS = 30 * SECONDS_PER_DAY"

definition BPS_DENOMINATOR :: int where "BPS_DENOMINATOR = 10000"

definition TIME_GATE_LEDGERS :: int where "TIME_GATE_LEDGERS = 90 * LEDGERS_PER_DAY"

definition COOLDOWN_LEDGERS :: int where "COOLDOWN_LEDGERS = 7 * LEDGERS_PER_DAY"

definition VESTING_LEDGERS :: int where "VESTING_LEDGERS = 45 * LEDGERS_PER_DAY"

definition PENALTY_LOCK_LEDGERS :: int where "PENALTY_LOCK_LEDGERS = 365 * LEDGERS_PER_DAY"

definition MAX_APPROVAL_WINDOW_SECONDS :: int where "MAX_APPROVAL_WINDOW_SECONDS = 24 * 3600"

definition REVOCATION_TTL_LEDGERS :: int where "REVOCATION_TTL_LEDGERS = 7 * LEDGERS_PER_DAY"

definition APPROVE_WINDOW_LEDGERS :: int where "APPROVE_WINDOW_LEDGERS = 100 * LEDGERS_PER_DAY"

definition COLLECTION_INACTIVITY_LEDGERS :: int where
  "COLLECTION_INACTIVITY_LEDGERS = 100 * LEDGERS_PER_DAY"

lemmas time_defs =
  LEDGERS_PER_DAY_def SECONDS_PER_DAY_def CLAIM_WINDOW_SECONDS_def TIME_GATE_LEDGERS_def
  COOLDOWN_LEDGERS_def VESTING_LEDGERS_def PENALTY_LOCK_LEDGERS_def
  MAX_APPROVAL_WINDOW_SECONDS_def REVOCATION_TTL_LEDGERS_def APPROVE_WINDOW_LEDGERS_def
  COLLECTION_INACTIVITY_LEDGERS_def

text \<open>The compile-time assertion: a revocation outlives the longest legal approval deadline.\<close>

lemma revocation_ttl_const_assert: "MAX_APPROVAL_WINDOW_SECONDS \<le> REVOCATION_TTL_LEDGERS"
  by (simp add: time_defs)

section \<open>Yield layer, stake bounds, tiers\<close>

definition MAX_DEPLOY_BPS :: int where "MAX_DEPLOY_BPS = 8000"

definition DEPLOY_BPS_DENOMINATOR :: int where "DEPLOY_BPS_DENOMINATOR = 10000"

definition MAX_REBALANCE_SLIPPAGE_BPS :: int where "MAX_REBALANCE_SLIPPAGE_BPS = 500"

definition MIN_STAKE_BPS :: int where "MIN_STAKE_BPS = 2"

definition MAX_STAKE_BPS :: int where "MAX_STAKE_BPS = 125"

definition STAKE_BPS_DENOMINATOR :: int where "STAKE_BPS_DENOMINATOR = 10000"

definition TIER_A_RATIO :: int where "TIER_A_RATIO = 15"

definition TIER_B_RATIO :: int where "TIER_B_RATIO = 10"

definition TIER_C_RATIO :: int where "TIER_C_RATIO = 5"

definition TIER_COVERAGE_BPS :: int where "TIER_COVERAGE_BPS = 10000"

definition TIER_BPS_DENOMINATOR :: int where "TIER_BPS_DENOMINATOR = 10000"

lemmas bps_defs =
  BPS_DENOMINATOR_def MAX_DEPLOY_BPS_def DEPLOY_BPS_DENOMINATOR_def MAX_REBALANCE_SLIPPAGE_BPS_def
  MIN_STAKE_BPS_def MAX_STAKE_BPS_def STAKE_BPS_DENOMINATOR_def TIER_A_RATIO_def TIER_B_RATIO_def
  TIER_C_RATIO_def TIER_COVERAGE_BPS_def TIER_BPS_DENOMINATOR_def

section \<open>Claim state machine\<close>

datatype claim_status = Unused | Active | Completed | Cancelled | Reserved | PendingTime
  | AwaitingApproval | Expired

text \<open>The \<open>repr(u32)\<close> discriminants.\<close>

fun status_code :: "claim_status \<Rightarrow> nat" where
  "status_code Unused = 0"
| "status_code Active = 1"
| "status_code Completed = 2"
| "status_code Cancelled = 3"
| "status_code Reserved = 4"
| "status_code PendingTime = 5"
| "status_code AwaitingApproval = 6"
| "status_code Expired = 7"

section \<open>Records\<close>

record stake_record =
  sr_beneficiary_hash :: bytes
  sr_amount :: int
  sr_staked_at_ledger :: int
  sr_staked_at_timestamp :: int
  sr_penalty_locked_until_ledger :: int
  sr_withdrawn :: bool
  sr_suspended :: bool
  sr_active_claim_id :: "bytes option"
  sr_reserved_claim_id :: "bytes option"

record claim =
  cl_wallet :: address
  cl_tx_hash :: bytes
  cl_hack_timestamp :: int
  cl_entitlement :: int
  cl_streamed :: int
  cl_stake :: int
  cl_cooldown_ends_ledger :: int
  cl_vesting_ends_ledger :: int
  cl_total_staked_snapshot :: int
  cl_tier :: int
  cl_status :: claim_status
  cl_approve_deadline_ledger :: int
  cl_last_collected_ledger :: int

record override_request =
  ov_wallet :: address
  ov_tx_hash :: bytes
  ov_entitlement :: int
  ov_tier :: int
  ov_owner_approver :: "address option"
  ov_co_signer_approver :: "address option"

end
