(* ===== verification/Soroban_Host.thy ===== *)
theory Soroban_Host
  imports Pool_Types
begin

text \<open>
  What the contract gets from outside its own source. The record \<open>host\<close> is the parameter of
  the whole model: the crypto and serialisation functions of the Soroban host, the XLM token
  contract and the DeFindex vault the pool calls, each as a function on an abstract world
  \<open>'w\<close> (the storage of all other contracts). Nothing is assumed of them here; a theorem that
  needs a documented behaviour takes it as a named hypothesis.
\<close>

section \<open>Serialisable values and authorization entries\<close>

text \<open>The values the pool serialises with \<open>to_xdr\<close>, one constructor per \<open>ScVal\<close> kind it uses.\<close>

datatype scval = SvSymbol string | SvAddress address | SvBytes bytes | SvI128 int
  | SvU32 int | SvU64 int

text \<open>
  Arguments of a contract call and the trees that \<open>authorize_as_current_contract\<close> takes: a
  contract context (contract, function, arguments) with its sub-invocations.
\<close>

datatype call_val = CvAddress address | CvI128 int | CvVec "int list" | CvBool bool

datatype auth_entry = ContractAuth address string "call_val list" "auth_entry list"

section \<open>The host and one invocation\<close>

text \<open>
  The part of the vault the contract calls, its \<^verbatim>\<open>VaultInterface\<close>: each function takes the
  authorization entries the pool declared for the call (declared authority holds for the next
  call only; an authority the callee does not need stays unused), the world and the vault's address,
  then the arguments of the trait. \<open>None\<close> is a trap of the callee; the value that \<open>deposit\<close> and
  \<open>withdraw\<close> return is ignored by every caller and left out.
\<close>

record 'w vault_interface =
  h_vault_deposit ::
    "auth_entry list \<Rightarrow> 'w \<Rightarrow> address \<Rightarrow> int list \<Rightarrow> int list \<Rightarrow> address \<Rightarrow> bool \<Rightarrow> 'w option"
  h_vault_withdraw ::
    "auth_entry list \<Rightarrow> 'w \<Rightarrow> address \<Rightarrow> int \<Rightarrow> int list \<Rightarrow> address \<Rightarrow> 'w option"
  h_vault_balance :: "'w \<Rightarrow> address \<Rightarrow> address \<Rightarrow> int"

text \<open>The whole host; \<open>h_token_transfer w token from to amount\<close> is \<open>None\<close> when the token traps.\<close>

record 'w host = "'w vault_interface" +
  h_self :: address
  h_network_id :: bytes
  h_sha256 :: "bytes \<Rightarrow> bytes"
  h_to_xdr :: "scval \<Rightarrow> bytes"
  h_ed25519_verify :: "bytes \<Rightarrow> bytes \<Rightarrow> bytes \<Rightarrow> bool"
  h_min_persistent_ttl :: int
  h_min_temporary_ttl :: int
  h_token_balance :: "'w \<Rightarrow> address \<Rightarrow> address \<Rightarrow> int"
  h_token_transfer :: "'w \<Rightarrow> address \<Rightarrow> address \<Rightarrow> address \<Rightarrow> int \<Rightarrow> 'w option"

text \<open>
  One invocation sees a ledger sequence number (\<open>u32\<close>), a ledger timestamp in Unix seconds
  (\<open>u64\<close>), and the set of addresses whose \<open>require_auth\<close> the transaction satisfies.
\<close>

record env =
  e_seq :: int
  e_time :: int
  e_auth :: "address \<Rightarrow> bool"

definition env_ok :: "env \<Rightarrow> bool" where
  "env_ok e \<longleftrightarrow> 0 \<le> e_seq e \<and> e_seq e \<le> u32_max \<and> 0 \<le> e_time e \<and> e_time e \<le> u64_max"

definition require_auth :: "env \<Rightarrow> address \<Rightarrow> unit outcome" where
  "require_auth e a = (if e_auth e a then Ok () else Trap AuthFailed)"

lemma require_auth_eq_Ok [ok_simps]: "require_auth e a = Ok u \<longleftrightarrow> e_auth e a"
  by (simp add: require_auth_def)

section \<open>Documented behaviour of the token and the vault\<close>

text \<open>
  The Stellar asset contract: a successful transfer of a non-negative amount between two
  different holders debits one, credits the other and leaves every other holding alone; it
  leaves every vault's share ledger alone too.
\<close>

definition sac_law :: "'w host \<Rightarrow> bool" where
  "sac_law H \<longleftrightarrow>
     (\<forall>w tok from to amt w'. from \<noteq> to \<longrightarrow> h_token_transfer H w tok from to amt = Some w' \<longrightarrow>
        h_token_balance H w' tok from = h_token_balance H w tok from - amt \<and>
        h_token_balance H w' tok to = h_token_balance H w tok to + amt \<and>
        (\<forall>a. a \<noteq> from \<longrightarrow> a \<noteq> to \<longrightarrow> h_token_balance H w' tok a = h_token_balance H w tok a))"

text \<open>
  The vault pulls exactly the desired amount from the depositor: the pool passes the same
  vector as the minimum, so a partial deposit is refused by the vault. The law is about one token,
  the single asset of the vaults the pool deposits to; theorems assume it for the pool's own XLM
  token and for no other.
\<close>

definition vault_law :: "'w host \<Rightarrow> address \<Rightarrow> bool" where
  "vault_law H tok \<longleftrightarrow>
     (\<forall>au w v amt invest w'. v \<noteq> h_self H \<longrightarrow>
        h_vault_deposit H au w v [amt] [amt] (h_self H) invest = Some w' \<longrightarrow>
        h_token_balance H w' tok (h_self H) = h_token_balance H w tok (h_self H) - amt)"

text \<open>
  XDR is self-delimiting: a serialised value is never a proper prefix of another, so a sequence
  of serialised values can be split in one way only.
\<close>

definition xdr_law :: "'w host \<Rightarrow> bool" where
  "xdr_law H \<longleftrightarrow>
     (\<forall>v v' r r'. h_to_xdr H v @ r = h_to_xdr H v' @ r' \<longrightarrow> v = v' \<and> r = r')"

lemma xdr_lawD:
  "xdr_law H \<Longrightarrow> h_to_xdr H v @ r = h_to_xdr H v' @ r' \<longleftrightarrow> v = v' \<and> r = r'"
  unfolding xdr_law_def by blast

lemma xdr_law_inject: "xdr_law H \<Longrightarrow> h_to_xdr H v = h_to_xdr H v' \<longleftrightarrow> v = v'"
  using xdr_lawD [of H v "[]" v' "[]"] by simp

lemma sac_lawD:
  assumes "sac_law H" "from \<noteq> to" "h_token_transfer H w tok from to amt = Some w'"
  shows "h_token_balance H w' tok from = h_token_balance H w tok from - amt"
    and "h_token_balance H w' tok to = h_token_balance H w tok to + amt"
  using assms unfolding sac_law_def by blast+

lemma vault_lawD:
  assumes "vault_law H tok" "v \<noteq> h_self H"
    and "h_vault_deposit H au w v [amt] [amt] (h_self H) invest = Some w'"
  shows "h_token_balance H w' tok (h_self H) = h_token_balance H w tok (h_self H) - amt"
  using assms unfolding vault_law_def by blast

end
