(* ===== verification/Pool_Storage.thy ===== *)
theory Pool_Storage
  imports Soroban_Host
begin

text \<open>
  \<^verbatim>\<open>contracts/protection-pool/src/storage.rs\<close>: the storage layout, the getters and
  setters, and the TTL extension of every entry. The three storage kinds of Soroban become the
  fields of one record \<open>state\<close>: an instance key is an optional field (\<open>None\<close> while it was
  never set), a persistent or temporary family of keys is a map. The record also holds the
  published events and the world of the other contracts.
\<close>

section \<open>Keys, events and the state\<close>

datatype data_key = KeyAdmin | KeyOracle | KeyOraclePubKey | KeyCoSigner | KeyXlmToken
  | KeyPoolCap | KeyTotalStaked | KeyTotalAllocated | KeyTotalStakers | KeyPaused
  | KeyDailyOutflow | KeyLastOutflowDay | KeyDailyEntitlementTotal | KeyLastEntitlementDay
  | KeyDailyClaimCount | KeyVault | KeyTreasury | KeyDeployBps | KeyTotalDeployedShares
  | KeyTotalDeployedXlm | KeyTotalExtractedYield
  | KeyStake address | KeyClaimRec bytes | KeyOverride bytes | KeyPointsBalance address
  | KeyRevokedApproval bytes

text \<open>The instance storage has one TTL for all its keys; every other entry has its own.\<close>

datatype ttl_key = InstanceTtl | EntryTtl data_key

text \<open>The events of \<^verbatim>\<open>stake.rs\<close>, \<^verbatim>\<open>claim.rs\<close> and \<^verbatim>\<open>vault.rs\<close>.\<close>

datatype pool_event =
    EvStaked address int
  | EvWithdrawn address int
  | EvEmergencyExit address int
  | EvClaimSubmitted address bytes int
  | EvClaimQueued address bytes int
  | EvClaimQueueReleased address bytes
  | EvClaimQueueExpired address bytes
  | EvClaimUnlocked address bytes
  | EvClaimApproved address bytes int
  | EvClaimExpired address bytes int
  | EvClaimStreamed address int
  | EvClaimCancelled address bytes
  | EvOverrideExecuted address bytes int
  | EvOverrideCancelled bytes
  | EvApprovalRevoked address bytes
  | EvDeployed address int int
  | EvLiquidityProvided address int int
  | EvLiquidityAutoRebalanced address int int
  | EvLiquidityAutoDeployed address int int
  | EvYieldExtracted address int int int
  | EvYieldWithdrawn address int
  | EvDeploymentShortfall address int int

record 'w state =
  st_admin :: "address option"
  st_oracle :: "address option"
  st_oracle_pubkey :: "bytes option"
  st_co_signer :: "address option"
  st_xlm_token :: "address option"
  st_pool_cap :: "int option"
  st_total_staked :: "int option"
  st_total_allocated :: "int option"
  st_total_stakers :: "int option"
  st_paused :: "bool option"
  st_daily_outflow :: "int option"
  st_last_outflow_day :: "int option"
  st_daily_entitlement_total :: "int option"
  st_last_entitlement_day :: "int option"
  st_daily_claim_count :: "int option"
  st_vault :: "address option"
  st_treasury :: "address option"
  st_deploy_bps :: "int option"
  st_total_deployed_shares :: "int option"
  st_total_deployed_xlm :: "int option"
  st_total_extracted_yield :: "int option"
  st_stakes :: "address \<rightharpoonup> stake_record"
  st_claims :: "bytes \<rightharpoonup> claim"
  st_overrides :: "bytes \<rightharpoonup> override_request"
  st_points :: "address \<rightharpoonup> int"
  st_revoked :: "bytes \<rightharpoonup> bool"
  st_live_until :: "ttl_key \<rightharpoonup> int"
  st_events :: "pool_event list"
  st_world :: 'w

text \<open>The storage of a contract before its constructor has run.\<close>

definition empty_state :: "'w \<Rightarrow> 'w state" where
  "empty_state w =
    \<lparr>st_admin = None, st_oracle = None, st_oracle_pubkey = None, st_co_signer = None,
     st_xlm_token = None, st_pool_cap = None, st_total_staked = None, st_total_allocated = None,
     st_total_stakers = None, st_paused = None, st_daily_outflow = None,
     st_last_outflow_day = None, st_daily_entitlement_total = None,
     st_last_entitlement_day = None, st_daily_claim_count = None, st_vault = None,
     st_treasury = None, st_deploy_bps = None, st_total_deployed_shares = None,
     st_total_deployed_xlm = None, st_total_extracted_yield = None, st_stakes = Map.empty,
     st_claims = Map.empty, st_overrides = Map.empty, st_points = Map.empty,
     st_revoked = Map.empty, st_live_until = Map.empty, st_events = [], st_world = w\<rparr>"

definition publish :: "pool_event \<Rightarrow> 'w state \<Rightarrow> 'w state" where
  "publish ev s = s\<lparr>st_events := st_events s @ [ev]\<rparr>"

section \<open>TTL extension\<close>

definition BUMP_THRESHOLD :: int where "BUMP_THRESHOLD = 30 * LEDGERS_PER_DAY"

definition BUMP_TO :: int where "BUMP_TO = 120 * LEDGERS_PER_DAY"

text \<open>
  Writing an entry that is absent, or whose TTL has run out, creates it with the network's
  minimum TTL; writing a live entry keeps its TTL.
\<close>

definition created_until :: "env \<Rightarrow> int \<Rightarrow> int option \<Rightarrow> int" where
  "created_until e min_ttl lu =
     (case lu of None \<Rightarrow> e_seq e + min_ttl - 1
      | Some l \<Rightarrow> if l < e_seq e then e_seq e + min_ttl - 1 else l)"

text \<open>
  The SDK's \<open>extend_ttl(key, threshold, extend_to)\<close>: when fewer than \<open>threshold\<close> ledgers are
  left, the entry lives until \<open>extend_to\<close> ledgers from now.
\<close>

definition extend_until :: "env \<Rightarrow> int \<Rightarrow> int \<Rightarrow> int \<Rightarrow> int" where
  "extend_until e threshold extend_to lu =
     (if lu - e_seq e < threshold then e_seq e + extend_to else lu)"

definition touched ::
  "env \<Rightarrow> int \<Rightarrow> ttl_key \<Rightarrow> int \<Rightarrow> int \<Rightarrow> (ttl_key \<rightharpoonup> int) \<Rightarrow> (ttl_key \<rightharpoonup> int)" where
  "touched e min_ttl k threshold extend_to m =
     m(k \<mapsto> extend_until e threshold extend_to (created_until e min_ttl (m k)))"

definition touch :: "env \<Rightarrow> int \<Rightarrow> ttl_key \<Rightarrow> int \<Rightarrow> int \<Rightarrow> 'w state \<Rightarrow> 'w state" where
  "touch e min_ttl k threshold extend_to s =
     s\<lparr>st_live_until := touched e min_ttl k threshold extend_to (st_live_until s)\<rparr>"

definition bump_instance_ttl :: "'w host \<Rightarrow> env \<Rightarrow> 'w state \<Rightarrow> 'w state" where
  "bump_instance_ttl H e s = touch e (h_min_persistent_ttl H) InstanceTtl BUMP_THRESHOLD BUMP_TO s"

lemma extend_until_lower: "e_seq e + min threshold extend_to \<le> extend_until e threshold extend_to lu"
  by (auto simp: extend_until_def min_def)

section \<open>Instance globals\<close>

definition get_admin :: "'w state \<Rightarrow> address outcome" where
  "get_admin s = unwrap (st_admin s)"

definition set_admin :: "address \<Rightarrow> 'w state \<Rightarrow> 'w state" where
  "set_admin a s = s\<lparr>st_admin := Some a\<rparr>"

definition get_oracle :: "'w state \<Rightarrow> address outcome" where
  "get_oracle s = unwrap (st_oracle s)"

definition set_oracle_address :: "address \<Rightarrow> 'w state \<Rightarrow> 'w state" where
  "set_oracle_address a s = s\<lparr>st_oracle := Some a\<rparr>"

definition get_oracle_pubkey :: "'w state \<Rightarrow> bytes option" where
  "get_oracle_pubkey s = st_oracle_pubkey s"

definition set_oracle_key :: "bytes \<Rightarrow> 'w state \<Rightarrow> 'w state" where
  "set_oracle_key k s = s\<lparr>st_oracle_pubkey := Some k\<rparr>"

definition get_co_signer :: "'w state \<Rightarrow> address outcome" where
  "get_co_signer s = unwrap (st_co_signer s)"

definition set_co_signer_address :: "address \<Rightarrow> 'w state \<Rightarrow> 'w state" where
  "set_co_signer_address a s = s\<lparr>st_co_signer := Some a\<rparr>"

definition get_xlm_token :: "'w state \<Rightarrow> address outcome" where
  "get_xlm_token s = unwrap (st_xlm_token s)"

definition set_xlm_token :: "address \<Rightarrow> 'w state \<Rightarrow> 'w state" where
  "set_xlm_token a s = s\<lparr>st_xlm_token := Some a\<rparr>"

definition get_pool_cap :: "'w state \<Rightarrow> int outcome" where
  "get_pool_cap s = unwrap (st_pool_cap s)"

definition set_pool_cap_value :: "int \<Rightarrow> 'w state \<Rightarrow> 'w state" where
  "set_pool_cap_value v s = s\<lparr>st_pool_cap := Some v\<rparr>"

definition get_total_staked :: "'w state \<Rightarrow> int" where
  "get_total_staked s = unwrap_or (st_total_staked s) 0"

definition set_total_staked :: "int \<Rightarrow> 'w state \<Rightarrow> 'w state" where
  "set_total_staked v s = s\<lparr>st_total_staked := Some v\<rparr>"

definition get_total_allocated :: "'w state \<Rightarrow> int" where
  "get_total_allocated s = unwrap_or (st_total_allocated s) 0"

definition set_total_allocated :: "int \<Rightarrow> 'w state \<Rightarrow> 'w state" where
  "set_total_allocated v s = s\<lparr>st_total_allocated := Some v\<rparr>"

definition get_total_stakers :: "'w state \<Rightarrow> int" where
  "get_total_stakers s = unwrap_or (st_total_stakers s) 0"

definition set_total_stakers :: "int \<Rightarrow> 'w state \<Rightarrow> 'w state" where
  "set_total_stakers v s = s\<lparr>st_total_stakers := Some v\<rparr>"

definition is_paused :: "'w state \<Rightarrow> bool" where
  "is_paused s = unwrap_or (st_paused s) False"

definition set_paused :: "bool \<Rightarrow> 'w state \<Rightarrow> 'w state" where
  "set_paused b s = s\<lparr>st_paused := Some b\<rparr>"

definition require_not_paused :: "'w state \<Rightarrow> unit outcome" where
  "require_not_paused s = (if is_paused s then Err Paused else Ok ())"

lemma require_not_paused_eq_Ok [ok_simps]: "require_not_paused s = Ok u \<longleftrightarrow> \<not> is_paused s"
  by (simp add: require_not_paused_def)

text \<open>The daily counters roll over to zero when the stored day is not the current one.\<close>

definition get_daily_outflow :: "int \<Rightarrow> 'w state \<Rightarrow> int" where
  "get_daily_outflow day s =
     (if unwrap_or (st_last_outflow_day s) 0 \<noteq> day then 0 else unwrap_or (st_daily_outflow s) 0)"

definition set_daily_outflow :: "int \<Rightarrow> int \<Rightarrow> 'w state \<Rightarrow> 'w state" where
  "set_daily_outflow day v s = s\<lparr>st_last_outflow_day := Some day, st_daily_outflow := Some v\<rparr>"

definition get_daily_entitlement :: "int \<Rightarrow> 'w state \<Rightarrow> int \<times> int" where
  "get_daily_entitlement day s =
     (if unwrap_or (st_last_entitlement_day s) 0 \<noteq> day then (0, 0)
      else (unwrap_or (st_daily_entitlement_total s) 0, unwrap_or (st_daily_claim_count s) 0))"

definition set_daily_entitlement :: "int \<Rightarrow> int \<Rightarrow> int \<Rightarrow> 'w state \<Rightarrow> 'w state" where
  "set_daily_entitlement day tot count s =
     s\<lparr>st_last_entitlement_day := Some day, st_daily_entitlement_total := Some tot,
       st_daily_claim_count := Some count\<rparr>"

section \<open>Yield deployment globals\<close>

definition get_vault :: "'w state \<Rightarrow> address option" where
  "get_vault s = st_vault s"

definition set_vault_address :: "address \<Rightarrow> 'w state \<Rightarrow> 'w state" where
  "set_vault_address a s = s\<lparr>st_vault := Some a\<rparr>"

definition get_treasury :: "'w state \<Rightarrow> address option" where
  "get_treasury s = st_treasury s"

definition set_treasury_address :: "address \<Rightarrow> 'w state \<Rightarrow> 'w state" where
  "set_treasury_address a s = s\<lparr>st_treasury := Some a\<rparr>"

definition get_deploy_bps :: "'w state \<Rightarrow> int" where
  "get_deploy_bps s = unwrap_or (st_deploy_bps s) 0"

definition set_deploy_bps_value :: "int \<Rightarrow> 'w state \<Rightarrow> 'w state" where
  "set_deploy_bps_value v s = s\<lparr>st_deploy_bps := Some v\<rparr>"

definition get_total_deployed_shares :: "'w state \<Rightarrow> int" where
  "get_total_deployed_shares s = unwrap_or (st_total_deployed_shares s) 0"

definition set_total_deployed_shares :: "int \<Rightarrow> 'w state \<Rightarrow> 'w state" where
  "set_total_deployed_shares v s = s\<lparr>st_total_deployed_shares := Some v\<rparr>"

definition get_total_deployed_xlm :: "'w state \<Rightarrow> int" where
  "get_total_deployed_xlm s = unwrap_or (st_total_deployed_xlm s) 0"

definition set_total_deployed_xlm :: "int \<Rightarrow> 'w state \<Rightarrow> 'w state" where
  "set_total_deployed_xlm v s = s\<lparr>st_total_deployed_xlm := Some v\<rparr>"

definition get_total_extracted_yield :: "'w state \<Rightarrow> int" where
  "get_total_extracted_yield s = unwrap_or (st_total_extracted_yield s) 0"

definition set_total_extracted_yield :: "int \<Rightarrow> 'w state \<Rightarrow> 'w state" where
  "set_total_extracted_yield v s = s\<lparr>st_total_extracted_yield := Some v\<rparr>"

section \<open>Per-entity records\<close>

definition get_stake :: "'w state \<Rightarrow> address \<Rightarrow> stake_record option" where
  "get_stake s staker = st_stakes s staker"

definition set_stake :: "'w host \<Rightarrow> env \<Rightarrow> address \<Rightarrow> stake_record \<Rightarrow> 'w state \<Rightarrow> 'w state" where
  "set_stake H e staker record s =
     touch e (h_min_persistent_ttl H) (EntryTtl (KeyStake staker)) BUMP_THRESHOLD BUMP_TO
       (s\<lparr>st_stakes := (st_stakes s)(staker \<mapsto> record)\<rparr>)"

definition get_claim :: "'w state \<Rightarrow> bytes \<Rightarrow> claim option" where
  "get_claim s claim_id = st_claims s claim_id"

definition set_claim :: "'w host \<Rightarrow> env \<Rightarrow> bytes \<Rightarrow> claim \<Rightarrow> 'w state \<Rightarrow> 'w state" where
  "set_claim H e claim_id claim s =
     touch e (h_min_persistent_ttl H) (EntryTtl (KeyClaimRec claim_id)) BUMP_THRESHOLD BUMP_TO
       (s\<lparr>st_claims := (st_claims s)(claim_id \<mapsto> claim)\<rparr>)"

definition get_override :: "'w state \<Rightarrow> bytes \<Rightarrow> override_request option" where
  "get_override s claim_id = st_overrides s claim_id"

definition set_override ::
  "'w host \<Rightarrow> env \<Rightarrow> bytes \<Rightarrow> override_request \<Rightarrow> 'w state \<Rightarrow> 'w state" where
  "set_override H e claim_id req s =
     touch e (h_min_persistent_ttl H) (EntryTtl (KeyOverride claim_id)) BUMP_THRESHOLD BUMP_TO
       (s\<lparr>st_overrides := (st_overrides s)(claim_id \<mapsto> req)\<rparr>)"

definition remove_override :: "bytes \<Rightarrow> 'w state \<Rightarrow> 'w state" where
  "remove_override claim_id s =
     s\<lparr>st_overrides := (st_overrides s)(claim_id := None),
       st_live_until := (st_live_until s)(EntryTtl (KeyOverride claim_id) := None)\<rparr>"

definition get_points_balance :: "'w state \<Rightarrow> address \<Rightarrow> int" where
  "get_points_balance s wallet = unwrap_or (st_points s wallet) 0"

definition set_points_balance :: "'w host \<Rightarrow> env \<Rightarrow> address \<Rightarrow> int \<Rightarrow> 'w state \<Rightarrow> 'w state" where
  "set_points_balance H e wallet v s =
     touch e (h_min_persistent_ttl H) (EntryTtl (KeyPointsBalance wallet)) BUMP_THRESHOLD BUMP_TO
       (s\<lparr>st_points := (st_points s)(wallet \<mapsto> v)\<rparr>)"

text \<open>
  A revocation lives in temporary storage: once its TTL has passed, \<open>has\<close> no longer sees it.
\<close>

definition is_approval_revoked :: "env \<Rightarrow> bytes \<Rightarrow> 'w state \<Rightarrow> bool" where
  "is_approval_revoked e h s \<longleftrightarrow>
     st_revoked s h \<noteq> None \<and>
     (case st_live_until s (EntryTtl (KeyRevokedApproval h)) of None \<Rightarrow> False
      | Some l \<Rightarrow> e_seq e \<le> l)"

definition set_approval_revoked :: "'w host \<Rightarrow> env \<Rightarrow> bytes \<Rightarrow> 'w state \<Rightarrow> 'w state" where
  "set_approval_revoked H e h s =
     touch e (h_min_temporary_ttl H) (EntryTtl (KeyRevokedApproval h))
       REVOCATION_TTL_LEDGERS REVOCATION_TTL_LEDGERS
       (s\<lparr>st_revoked := (st_revoked s)(h \<mapsto> True)\<rparr>)"

lemmas write_defs =
  publish_def touch_def bump_instance_ttl_def set_admin_def set_oracle_address_def
  set_oracle_key_def set_co_signer_address_def set_xlm_token_def set_pool_cap_value_def
  set_total_staked_def set_total_allocated_def set_total_stakers_def set_paused_def
  set_daily_outflow_def set_daily_entitlement_def set_vault_address_def set_treasury_address_def
  set_deploy_bps_value_def set_total_deployed_shares_def set_total_deployed_xlm_def
  set_total_extracted_yield_def set_stake_def set_claim_def set_override_def remove_override_def
  set_points_balance_def set_approval_revoked_def

lemmas read_defs =
  get_admin_def get_oracle_def get_oracle_pubkey_def get_co_signer_def get_xlm_token_def
  get_pool_cap_def get_total_staked_def get_total_allocated_def get_total_stakers_def
  is_paused_def get_daily_outflow_def get_daily_entitlement_def get_vault_def get_treasury_def
  get_deploy_bps_def get_total_deployed_shares_def get_total_deployed_xlm_def
  get_total_extracted_yield_def get_stake_def get_claim_def get_override_def
  get_points_balance_def

section \<open>The interface of a keyed store\<close>

text \<open>
  What the components rely on when they keep records by key: a read after a write of the same
  key gives the written record, a write leaves every other key alone. A store that can also
  delete extends the contract.
\<close>

locale keyed_store =
  fixes get :: "'s \<Rightarrow> 'k \<Rightarrow> 'v option"
    and put :: "'k \<Rightarrow> 'v \<Rightarrow> 's \<Rightarrow> 's"
  assumes get_put: "get (put k v s) k = Some v"
    and get_put_other: "j \<noteq> k \<Longrightarrow> get (put k v s) j = get s j"
begin

lemma get_put_if: "get (put k v s) j = (if j = k then Some v else get s j)"
  by (simp add: get_put get_put_other)

lemma last_put_wins: "get (put k v (put k u s)) j = get (put k v s) j"
  by (simp add: get_put_if)

lemma puts_commute: "k \<noteq> l \<Longrightarrow> get (put k v (put l u s)) j = get (put l u (put k v s)) j"
  by (simp add: get_put_if)

lemma get_puts:
  "get (fold (\<lambda>(k, v). put k v) kvs s) j =
     (case map_of (rev kvs) j of Some v \<Rightarrow> Some v | None \<Rightarrow> get s j)"
proof (induction kvs arbitrary: s)
  case Nil
  then show ?case by simp
next
  case (Cons kv kvs)
  then show ?case
    by (cases kv) (auto simp: get_put_if map_add_def split: option.splits)
qed

end

locale deletable_store = keyed_store +
  fixes del :: "'b \<Rightarrow> 'a \<Rightarrow> 'a"
  assumes get_del: "get (del k s) k = None"
    and get_del_other: "j \<noteq> k \<Longrightarrow> get (del k s) j = get s j"
begin

lemma get_del_put: "get (del k (put k v s)) j = get (del k s) j"
  by (cases "j = k") (simp_all add: get_del get_del_other get_put_other)

lemma get_put_del: "get (put k v (del k s)) j = get (put k v s) j"
  by (cases "j = k") (simp_all add: get_del_other get_put get_put_other)

end

interpretation stake_store: keyed_store get_stake "set_stake H e"
  by unfold_locales (simp_all add: read_defs write_defs)

interpretation claim_store: keyed_store get_claim "set_claim H e"
  by unfold_locales (simp_all add: read_defs write_defs)

interpretation override_store: deletable_store get_override "set_override H e" remove_override
  by unfold_locales (simp_all add: read_defs write_defs)

end
