(* ===== verification/Liquidity.thy ===== *)
theory Liquidity
  imports Pool_Storage
begin

text \<open>
  The liquidity helpers of \<^verbatim>\<open>contracts/protection-pool/src/vault.rs\<close> that
  \<^verbatim>\<open>stake.rs\<close> and \<^verbatim>\<open>claim.rs\<close> call before every outbound transfer, the transfer
  itself, and the two views over liquid and deployed XLM.
\<close>

text \<open>The XLM the contract really holds, read from the token contract.\<close>

definition liquid_balance :: "'w host \<Rightarrow> 'w state \<Rightarrow> int outcome" where
  "liquid_balance H s =
     and_then (get_xlm_token s) (\<lambda>token. Ok (h_token_balance H (st_world s) token (h_self H)))"

definition require_liquidity :: "'w host \<Rightarrow> int \<Rightarrow> 'w state \<Rightarrow> unit outcome" where
  "require_liquidity H amount s =
     and_then (liquid_balance H s) (\<lambda>liquid.
       if liquid < amount then Err InsufficientLiquidity else Ok ())"

text \<open>\<open>TokenClient::transfer\<close>: a trapping callee traps the invocation.\<close>

definition token_transfer ::
  "'w host \<Rightarrow> address \<Rightarrow> address \<Rightarrow> address \<Rightarrow> int \<Rightarrow> 'w state \<Rightarrow> 'w state outcome" where
  "token_transfer H token from to amount s =
     (case h_token_transfer H (st_world s) token from to amount of
        None \<Rightarrow> Trap CalleeFailed
      | Some w \<Rightarrow> Ok (s\<lparr>st_world := w\<rparr>))"

lemma liquid_balance_eq_Ok [ok_simps]:
  "liquid_balance H s = Ok l \<longleftrightarrow>
     (\<exists>token. st_xlm_token s = Some token \<and>
        l = h_token_balance H (st_world s) token (h_self H))"
  by (auto simp: liquid_balance_def get_xlm_token_def ok_simps)

lemma require_liquidity_eq_Ok [ok_simps]:
  "require_liquidity H amount s = Ok u \<longleftrightarrow>
     (\<exists>token. st_xlm_token s = Some token \<and>
        amount \<le> h_token_balance H (st_world s) token (h_self H))"
  by (auto simp: require_liquidity_def ok_simps)

lemma token_transfer_eq_Ok [ok_simps]:
  "token_transfer H token from to amount s = Ok s' \<longleftrightarrow>
     (\<exists>w. h_token_transfer H (st_world s) token from to amount = Some w \<and> s' = s\<lparr>st_world := w\<rparr>)"
  by (auto simp: token_transfer_def split: option.splits)

section \<open>Views\<close>

text \<open>Everything the pool controls minus what it owes stakers and admitted claims, at least 0.\<close>

definition yield_balance :: "'w host \<Rightarrow> 'w state \<Rightarrow> int outcome" where
  "yield_balance H s =
     and_then (liquid_balance H s) (\<lambda>liquid.
     and_then (add_i128 liquid (get_total_deployed_xlm s)) (\<lambda>tot.
     and_then (add_i128 (get_total_staked s) (get_total_allocated s)) (\<lambda>reserved.
       if tot > reserved then sub_i128 tot reserved else Ok 0)))"

definition deployment_ratio_bps :: "'w state \<Rightarrow> int outcome" where
  "deployment_ratio_bps s =
     (let total_staked = get_total_staked s in
      if total_staked \<le> 0 then Ok 0
      else mul_div_i128 (get_total_deployed_xlm s) DEPLOY_BPS_DENOMINATOR total_staked)"

text \<open>The pool's liquid XLM as a plain number, for statements about it.\<close>

definition liquid_of :: "'w host \<Rightarrow> 'w state \<Rightarrow> int" where
  "liquid_of H s =
     (case st_xlm_token s of None \<Rightarrow> 0
      | Some token \<Rightarrow> h_token_balance H (st_world s) token (h_self H))"

lemma liquid_of_Some:
  "st_xlm_token s = Some token \<Longrightarrow> liquid_of H s = h_token_balance H (st_world s) token (h_self H)"
  by (simp add: liquid_of_def)

text \<open>
  What anybody holds of the pool's token, and one transfer of it: the sender is debited, the receiver
  credited, and nobody else's holding changes.
\<close>

definition xlm_held :: "'w host \<Rightarrow> 'w state \<Rightarrow> address \<Rightarrow> int" where
  "xlm_held H s a =
     (case st_xlm_token s of None \<Rightarrow> 0 | Some token \<Rightarrow> h_token_balance H (st_world s) token a)"

definition transferred :: "'w host \<Rightarrow> address \<Rightarrow> address \<Rightarrow> int \<Rightarrow> 'w state \<Rightarrow> 'w state \<Rightarrow> bool" where
  "transferred H from to amount s s' \<longleftrightarrow>
     (let debited = (xlm_held H s)(from := xlm_held H s from - amount)
      in xlm_held H s' = debited(to := debited to + amount))"

lemma liquid_of_held: "liquid_of H s = xlm_held H s (h_self H)"
  by (simp add: liquid_of_def xlm_held_def)

text \<open>A successful call of the token is such a transfer, for a token that keeps \<open>sac_law\<close>.\<close>

lemma transfer_moves:
  assumes "sac_law H" "from \<noteq> to" "h_token_transfer H (st_world s) token from to amount = Some w"
    and "st_xlm_token s = Some token" "st_world s' = w" "st_xlm_token s' = st_xlm_token s"
  shows "transferred H from to amount s s'"
proof -
  from assms(1-3) have "h_token_balance H w token a
      = (if a = from then h_token_balance H (st_world s) token from - amount
         else if a = to then h_token_balance H (st_world s) token to + amount
         else h_token_balance H (st_world s) token a)" for a
    unfolding sac_law_def by auto
  with assms(2,4-6) show ?thesis
    by (auto simp: transferred_def xlm_held_def Let_def fun_eq_iff)
qed

lemma transferred_liquid:
  assumes "transferred H from to amount s s'" "from \<noteq> to"
  shows "from = h_self H \<Longrightarrow> liquid_of H s' = liquid_of H s - amount"
    and "to = h_self H \<Longrightarrow> liquid_of H s' = liquid_of H s + amount"
  using assms by (simp_all add: transferred_def liquid_of_held Let_def)

text \<open>Two transfers of one amount through a third party are one transfer.\<close>

lemma transferred_trans:
  assumes "transferred H from via amount s s1" "transferred H via to amount s1 s2"
    and "from \<noteq> via" "via \<noteq> to"
  shows "transferred H from to amount s s2"
  using assms by (auto simp: transferred_def Let_def fun_eq_iff)

lemma yield_balance_eq_Ok:
  "yield_balance H s = Ok y \<longleftrightarrow>
     st_xlm_token s \<noteq> None \<and>
     in_i128 (liquid_of H s + get_total_deployed_xlm s) \<and>
     in_i128 (get_total_staked s + get_total_allocated s) \<and>
     (if liquid_of H s + get_total_deployed_xlm s > get_total_staked s + get_total_allocated s
      then in_i128 (liquid_of H s + get_total_deployed_xlm s
             - (get_total_staked s + get_total_allocated s)) \<and>
           y = liquid_of H s + get_total_deployed_xlm s
             - (get_total_staked s + get_total_allocated s)
      else y = 0)"
  by (cases "st_xlm_token s") (auto simp: yield_balance_def ok_simps liquid_of_def)

end
