(* ===== verification/Staking.thy ===== *)
theory Staking
  imports Liquidity
begin

text \<open>
  \<^verbatim>\<open>contracts/protection-pool/src/stake.rs\<close>: points, the stake bounds, and the
  operations \<open>stake\<close>, \<open>set_beneficiary\<close>, \<open>withdraw\<close> and \<open>emergency_exit\<close>. Each operation takes
  the host, the invocation's environment, its arguments and the state, and returns its value
  with the new state, or the error it stopped at.
\<close>

section \<open>Bounds and points\<close>

definition min_stake :: "'w state \<Rightarrow> int outcome" where
  "min_stake s =
     and_then (get_pool_cap s) (\<lambda>cap. mul_div_i128 cap MIN_STAKE_BPS STAKE_BPS_DENOMINATOR)"

definition max_stake :: "'w state \<Rightarrow> int outcome" where
  "max_stake s =
     and_then (get_pool_cap s) (\<lambda>cap. mul_div_i128 cap MAX_STAKE_BPS STAKE_BPS_DENOMINATOR)"

text \<open>
  Points of \<open>d\<close> staked days: 100 a day up to day 90, then 120 up to 180, 150 up to 365, and 200
  beyond. The day count comes from a \<open>u32\<close>, so none of these products can leave \<open>i128\<close>
  (lemma \<open>points_base_in_range\<close>).
\<close>

definition points_base :: "int \<Rightarrow> int" where
  "points_base d =
     (let d1 = min d 90;
          d2 = (if d > 90 then min d 180 - 90 else 0);
          d3 = (if d > 180 then min d 365 - 180 else 0);
          d4 = (if d > 365 then d - 365 else 0)
      in d1 * 100 + d2 * 120 + d3 * 150 + d4 * 200)"

definition staked_days :: "env \<Rightarrow> stake_record \<Rightarrow> int" where
  "staked_days e record =
     saturating_sub_u32 (e_seq e) (sr_staked_at_ledger record) div LEDGERS_PER_DAY"

definition compute_points_for_record :: "env \<Rightarrow> stake_record \<Rightarrow> 'w state \<Rightarrow> int outcome" where
  "compute_points_for_record e record s =
     (if sr_amount record \<le> 0 \<or> sr_withdrawn record then Ok 0
      else let base = points_base (staked_days e record) in
        and_then (max_stake s) (\<lambda>denom.
          if denom \<le> 0 then Ok 0 else mul_div_i128 base (sr_amount record) denom))"

definition compute_points :: "env \<Rightarrow> address \<Rightarrow> 'w state \<Rightarrow> int outcome" where
  "compute_points e wallet s =
     (case get_stake s wallet of
        Some r \<Rightarrow> compute_points_for_record e r s
      | None \<Rightarrow> Ok 0)"

text \<open>\<open>sha256(address.to_xdr())\<close>, the commitment to a beneficiary.\<close>

definition address_hash :: "'w host \<Rightarrow> address \<Rightarrow> bytes" where
  "address_hash H a = h_sha256 H (h_to_xdr H (SvAddress a))"

section \<open>Operations\<close>

definition active_stake :: "stake_record \<Rightarrow> bool" where
  "active_stake r \<longleftrightarrow> sr_amount r > 0 \<and> \<not> sr_withdrawn r"

definition fresh_stake_record :: "'w host \<Rightarrow> env \<Rightarrow> int \<Rightarrow> address \<Rightarrow> stake_record" where
  "fresh_stake_record H e amount beneficiary =
     \<lparr>sr_beneficiary_hash = address_hash H beneficiary, sr_amount = amount,
      sr_staked_at_ledger = e_seq e, sr_staked_at_timestamp = e_time e,
      sr_penalty_locked_until_ledger = 0, sr_withdrawn = False, sr_suspended = False,
      sr_active_claim_id = None, sr_reserved_claim_id = None\<rparr>"

definition stake ::
  "'w host \<Rightarrow> env \<Rightarrow> address \<Rightarrow> int \<Rightarrow> address \<Rightarrow> 'w state \<Rightarrow> (unit \<times> 'w state) outcome" where
  "stake H e staker amount beneficiary s =
     and_then (require_not_paused s) (\<lambda>_.
     and_then (require_auth e staker) (\<lambda>_.
     if amount \<le> 0 then Err StakeNotPositive
     else and_then (min_stake s) (\<lambda>mn.
     if amount < mn then Err StakeOutOfRange
     else and_then (max_stake s) (\<lambda>mx.
     if amount > mx then Err StakeOutOfRange
     else if (case get_stake s staker of Some existing \<Rightarrow> active_stake existing | None \<Rightarrow> False)
     then Err AlreadyStaked
     else
       let total_staked = get_total_staked s in
       and_then (get_pool_cap s) (\<lambda>pool_cap.
       and_then (add_i128 total_staked amount) (\<lambda>new_total.
       if new_total > pool_cap then Err PoolCapExceeded
       else if beneficiary = staker then Err BeneficiaryIsStaker
       else and_then (get_oracle s) (\<lambda>oracle.
       if beneficiary = oracle then Err BeneficiaryIsOracle
       else and_then (get_admin s) (\<lambda>admin.
       if beneficiary = admin then Err BeneficiaryIsAdmin
       else and_then (get_co_signer s) (\<lambda>co_signer.
       if beneficiary = co_signer then Err BeneficiaryIsCoSigner
       else
         let s1 = set_stake H e staker (fresh_stake_record H e amount beneficiary) s;
             s2 = set_total_staked new_total s1 in
         and_then (add_u32 (get_total_stakers s2) 1) (\<lambda>stakers.
         let s3 = bump_instance_ttl H e (set_total_stakers stakers s2);
             s4 = publish (EvStaked staker amount) s3 in
         and_then (get_xlm_token s4) (\<lambda>token.
         and_then (token_transfer H token staker (h_self H) amount s4) (\<lambda>s5.
         Ok ((), s5)))))))))))))"

definition set_beneficiary ::
  "'w host \<Rightarrow> env \<Rightarrow> address \<Rightarrow> address \<Rightarrow> 'w state \<Rightarrow> (unit \<times> 'w state) outcome" where
  "set_beneficiary H e staker new_beneficiary s =
     and_then (require_not_paused s) (\<lambda>_.
     and_then (require_auth e staker) (\<lambda>_.
     if new_beneficiary = staker then Err BeneficiaryIsStaker
     else and_then (get_oracle s) (\<lambda>oracle.
     if new_beneficiary = oracle then Err BeneficiaryIsOracle
     else and_then (get_admin s) (\<lambda>admin.
     if new_beneficiary = admin then Err BeneficiaryIsAdmin
     else and_then (get_co_signer s) (\<lambda>co_signer.
     if new_beneficiary = co_signer then Err BeneficiaryIsCoSigner
     else and_then (ok_or (get_stake s staker) NoStake) (\<lambda>record.
     if sr_amount record \<le> 0 then Err NoStake
     else if sr_withdrawn record then Err StakeForfeited
     else Ok ((), set_stake H e staker
            (record\<lparr>sr_beneficiary_hash := address_hash H new_beneficiary\<rparr>) s)))))))"

text \<open>The points of a finished stake go to the wallet's banked balance.\<close>

definition bank_points ::
  "'w host \<Rightarrow> env \<Rightarrow> address \<Rightarrow> int \<Rightarrow> 'w state \<Rightarrow> 'w state outcome" where
  "bank_points H e staker final_points s =
     (if final_points > 0
      then and_then (add_i128 (get_points_balance s staker) final_points) (\<lambda>banked.
             Ok (set_points_balance H e staker banked s))
      else Ok s)"

definition withdraw ::
  "'w host \<Rightarrow> env \<Rightarrow> address \<Rightarrow> address \<Rightarrow> 'w state \<Rightarrow> (unit \<times> 'w state) outcome" where
  "withdraw H e staker beneficiary s =
     and_then (require_not_paused s) (\<lambda>_.
     and_then (require_auth e staker) (\<lambda>_.
     and_then (ok_or (get_stake s staker) NoStake) (\<lambda>record.
     if sr_amount record \<le> 0 then Err NoStake
     else if sr_withdrawn record then Err AlreadyWithdrawn
     else if sr_active_claim_id record \<noteq> None then Err ClaimActive
     else if e_seq e < sr_penalty_locked_until_ledger record then Err PenaltyLockActive
     else if address_hash H beneficiary \<noteq> sr_beneficiary_hash record then Err WrongBeneficiary
     else and_then (compute_points e staker s) (\<lambda>final_points.
       let amount = sr_amount record in
       and_then (require_liquidity H amount s) (\<lambda>_.
       let s1 = set_stake H e staker (record\<lparr>sr_withdrawn := True, sr_amount := 0\<rparr>) s in
       and_then (bank_points H e staker final_points s1) (\<lambda>s2.
       and_then (sub_i128 (get_total_staked s2) amount) (\<lambda>new_total.
       let s3 = set_total_staked new_total s2;
           s4 = set_total_stakers (saturating_sub_u32 (get_total_stakers s3) 1) s3;
           s5 = publish (EvWithdrawn staker amount) (bump_instance_ttl H e s4) in
       and_then (get_xlm_token s5) (\<lambda>token.
       and_then (token_transfer H token (h_self H) beneficiary amount s5) (\<lambda>s6.
       Ok ((), s6)))))))))) "

definition emergency_exit ::
  "'w host \<Rightarrow> env \<Rightarrow> address \<Rightarrow> 'w state \<Rightarrow> (unit \<times> 'w state) outcome" where
  "emergency_exit H e staker s =
     and_then (require_auth e staker) (\<lambda>_.
     and_then (ok_or (get_stake s staker) NoStake) (\<lambda>record.
     if sr_amount record \<le> 0 \<or> sr_withdrawn record then Err NoActiveStake
     else if sr_active_claim_id record \<noteq> None then Err ClaimActive
     else
       let amount = sr_amount record in
       and_then (require_liquidity H amount s) (\<lambda>_.
       let s1 = set_stake H e staker (record\<lparr>sr_withdrawn := True, sr_amount := 0\<rparr>) s in
       and_then (sub_i128 (get_total_staked s1) amount) (\<lambda>new_total.
       let s2 = set_total_staked new_total s1;
           s3 = set_total_stakers (saturating_sub_u32 (get_total_stakers s2) 1) s2;
           s4 = publish (EvEmergencyExit staker amount) (bump_instance_ttl H e s3) in
       and_then (get_xlm_token s4) (\<lambda>token.
       and_then (token_transfer H token (h_self H) staker amount s4) (\<lambda>s5.
       Ok ((), s5)))))))"

section \<open>What a successful call did\<close>

lemma stake_Ok:
  assumes "stake H e staker amount b s = Ok (u, s')"
  shows "\<exists>token cap w lu ev.
     \<not> is_paused s \<and> e_auth e staker \<and> 0 < amount \<and>
     st_pool_cap s = Some cap \<and> (cap * 2) sdiv 10000 \<le> amount \<and> amount \<le> (cap * 125) sdiv 10000 \<and>
     \<not> (\<exists>r. st_stakes s staker = Some r \<and> active_stake r) \<and>
     in_i128 (get_total_staked s + amount) \<and> get_total_staked s + amount \<le> cap \<and>
     b \<noteq> staker \<and> st_oracle s \<noteq> Some b \<and> st_admin s \<noteq> Some b \<and> st_co_signer s \<noteq> Some b \<and>
     st_xlm_token s = Some token \<and>
     h_token_transfer H (st_world s) token staker (h_self H) amount = Some w \<and>
     s' = s\<lparr>st_stakes := (st_stakes s)(staker \<mapsto> fresh_stake_record H e amount b),
            st_total_staked := Some (get_total_staked s + amount),
            st_total_stakers := Some (get_total_stakers s + 1),
            st_live_until := lu, st_events := ev, st_world := w\<rparr>"
  using assms
  by (auto simp: stake_def ok_simps Let_def min_stake_def max_stake_def read_defs write_defs
      MIN_STAKE_BPS_def MAX_STAKE_BPS_def STAKE_BPS_DENOMINATOR_def split: option.splits)
    (intro exI, rule refl)+

lemma set_beneficiary_Ok:
  assumes "set_beneficiary H e staker b s = Ok (u, s')"
  shows "\<exists>record lu.
     \<not> is_paused s \<and> e_auth e staker \<and> b \<noteq> staker \<and>
     st_oracle s \<noteq> Some b \<and> st_admin s \<noteq> Some b \<and> st_co_signer s \<noteq> Some b \<and>
     st_stakes s staker = Some record \<and> active_stake record \<and>
     s' = s\<lparr>st_stakes := (st_stakes s)
              (staker \<mapsto> record\<lparr>sr_beneficiary_hash := address_hash H b\<rparr>),
            st_live_until := lu\<rparr>"
  using assms
  by (auto simp: set_beneficiary_def ok_simps read_defs write_defs active_stake_def)

definition banked :: "address \<Rightarrow> int \<Rightarrow> (address \<rightharpoonup> int) \<Rightarrow> address \<rightharpoonup> int" where
  "banked staker points m =
     (if points > 0 then m(staker \<mapsto> unwrap_or (m staker) 0 + points) else m)"

definition banked_ttl ::
  "'w host \<Rightarrow> env \<Rightarrow> address \<Rightarrow> int \<Rightarrow> (ttl_key \<rightharpoonup> int) \<Rightarrow> (ttl_key \<rightharpoonup> int)" where
  "banked_ttl H e staker points m =
     (if points > 0
      then touched e (h_min_persistent_ttl H) (EntryTtl (KeyPointsBalance staker))
             BUMP_THRESHOLD BUMP_TO m
      else m)"

lemma bank_points_Ok:
  "bank_points H e staker points s = Ok s' \<longleftrightarrow>
     (points > 0 \<longrightarrow> in_i128 (get_points_balance s staker + points)) \<and>
     s' = s\<lparr>st_points := banked staker points (st_points s),
            st_live_until := banked_ttl H e staker points (st_live_until s)\<rparr>"
  by (auto simp: bank_points_def ok_simps banked_def banked_ttl_def read_defs write_defs)

text \<open>The state after a principal exit, shared by \<open>withdraw\<close> and \<open>emergency_exit\<close>.\<close>

definition exited :: "address \<Rightarrow> stake_record \<Rightarrow> 'w state \<Rightarrow> 'w state" where
  "exited staker record s =
     s\<lparr>st_stakes := (st_stakes s)(staker \<mapsto> record\<lparr>sr_withdrawn := True, sr_amount := 0\<rparr>),
       st_total_staked := Some (get_total_staked s - sr_amount record),
       st_total_stakers := Some (saturating_sub_u32 (get_total_stakers s) 1)\<rparr>"

lemma withdraw_Ok:
  assumes "withdraw H e staker b s = Ok (u, s')"
  shows "\<exists>record token w points lu ev.
     \<not> is_paused s \<and> e_auth e staker \<and>
     st_stakes s staker = Some record \<and> active_stake record \<and>
     sr_active_claim_id record = None \<and> sr_penalty_locked_until_ledger record \<le> e_seq e \<and>
     address_hash H b = sr_beneficiary_hash record \<and>
     compute_points_for_record e record s = Ok points \<and>
     st_xlm_token s = Some token \<and>
     sr_amount record \<le> h_token_balance H (st_world s) token (h_self H) \<and>
     h_token_transfer H (st_world s) token (h_self H) b (sr_amount record) = Some w \<and>
     s' = (exited staker record s)
            \<lparr>st_points := banked staker points (st_points s), st_live_until := lu, st_events := ev, st_world := w\<rparr>"
  using assms
  by (auto simp: withdraw_def ok_simps Let_def compute_points_def bank_points_Ok exited_def
      active_stake_def read_defs write_defs)
    (intro exI, rule state.equality, simp_all)+

lemma emergency_exit_Ok:
  assumes "emergency_exit H e staker s = Ok (u, s')"
  shows "\<exists>record token w lu ev.
     e_auth e staker \<and> st_stakes s staker = Some record \<and> active_stake record \<and>
     sr_active_claim_id record = None \<and> st_xlm_token s = Some token \<and>
     sr_amount record \<le> h_token_balance H (st_world s) token (h_self H) \<and>
     h_token_transfer H (st_world s) token (h_self H) staker (sr_amount record) = Some w \<and>
     s' = (exited staker record s)\<lparr>st_live_until := lu, st_events := ev, st_world := w\<rparr>"
  using assms
  by (auto simp: emergency_exit_def ok_simps Let_def read_defs write_defs exited_def
      active_stake_def)
    (intro exI, rule refl)+

end
