(* ===== verification/Administration.thy ===== *)
theory Administration
  imports Pool_Storage
begin

text \<open>
  \<^verbatim>\<open>contracts/protection-pool/src/admin.rs\<close>: the constructor's \<open>initialize\<close>, the
  rotation of the roles, the pause switch, suspension of a stake, and the pool cap.
\<close>

section \<open>Operations\<close>

definition initialize ::
  "'w host \<Rightarrow> env \<Rightarrow> address \<Rightarrow> address \<Rightarrow> bytes \<Rightarrow> address \<Rightarrow> address \<Rightarrow> int \<Rightarrow> 'w state \<Rightarrow>
    (unit \<times> 'w state) outcome" where
  "initialize H e admin oracle oracle_pubkey co_signer xlm_token pool_cap s =
     (if st_admin s \<noteq> None then Err AlreadyInitialized
      else if oracle = co_signer then Err OracleEqualsCoSigner
      else if co_signer = admin then Err CoSignerEqualsAdmin
      else if pool_cap \<le> 0 then Err PoolCapNotPositive
      else and_then (require_auth e admin) (\<lambda>_.
        let s1 = set_admin admin s;
            s2 = set_oracle_address oracle s1;
            s3 = set_oracle_key oracle_pubkey s2;
            s4 = set_co_signer_address co_signer s3;
            s5 = set_xlm_token xlm_token s4;
            s6 = set_pool_cap_value pool_cap s5;
            s7 = set_total_staked 0 s6;
            s8 = set_total_allocated 0 s7;
            s9 = set_total_stakers 0 s8;
            s10 = set_paused False s9
        in Ok ((), bump_instance_ttl H e s10)))"

definition transfer_admin :: "'w host \<Rightarrow> env \<Rightarrow> address \<Rightarrow> 'w state \<Rightarrow> (unit \<times> 'w state) outcome" where
  "transfer_admin H e new_admin s =
     and_then (get_admin s) (\<lambda>admin.
     and_then (require_auth e admin) (\<lambda>_.
     and_then (get_co_signer s) (\<lambda>co_signer.
     if new_admin = co_signer then Err NewAdminEqualsCoSigner
     else Ok ((), bump_instance_ttl H e (set_admin new_admin s)))))"

definition pause :: "env \<Rightarrow> 'w state \<Rightarrow> (unit \<times> 'w state) outcome" where
  "pause e s =
     and_then (get_admin s) (\<lambda>admin.
     and_then (require_auth e admin) (\<lambda>_. Ok ((), set_paused True s)))"

definition unpause :: "env \<Rightarrow> 'w state \<Rightarrow> (unit \<times> 'w state) outcome" where
  "unpause e s =
     and_then (get_admin s) (\<lambda>admin.
     and_then (require_auth e admin) (\<lambda>_. Ok ((), set_paused False s)))"

definition suspend_stake :: "'w host \<Rightarrow> env \<Rightarrow> address \<Rightarrow> 'w state \<Rightarrow> (unit \<times> 'w state) outcome" where
  "suspend_stake H e wallet s =
     and_then (get_admin s) (\<lambda>admin.
     and_then (require_auth e admin) (\<lambda>_.
     and_then (ok_or (get_stake s wallet) NoStake) (\<lambda>record.
     if sr_amount record \<le> 0 then Err NoStake
     else if sr_withdrawn record \<and> sr_active_claim_id record = None then Err AlreadyWithdrawn
     else Ok ((), set_stake H e wallet (record\<lparr>sr_suspended := True\<rparr>) s))))"

definition unsuspend_stake ::
  "'w host \<Rightarrow> env \<Rightarrow> address \<Rightarrow> bytes option \<Rightarrow> 'w state \<Rightarrow> (unit \<times> 'w state) outcome" where
  "unsuspend_stake H e wallet claim_id s =
     and_then (get_admin s) (\<lambda>admin.
     and_then (require_auth e admin) (\<lambda>_.
     and_then (ok_or (get_stake s wallet) NoStake) (\<lambda>record.
     if sr_amount record \<le> 0 then Err NoStake
     else
       let s1 = set_stake H e wallet (record\<lparr>sr_suspended := False\<rparr>) s in
       case claim_id of None \<Rightarrow> Ok ((), s1)
       | Some cid \<Rightarrow>
           (case get_claim s1 cid of None \<Rightarrow> Ok ((), s1)
            | Some claim \<Rightarrow>
                if cl_wallet claim \<noteq> wallet then Ok ((), s1)
                else if cl_status claim = AwaitingApproval then
                  and_then (add_u32 (e_seq e) APPROVE_WINDOW_LEDGERS) (\<lambda>deadline.
                    Ok ((), set_claim H e cid (claim\<lparr>cl_approve_deadline_ledger := deadline\<rparr>) s1))
                else if cl_status claim = Active then
                  Ok ((), set_claim H e cid (claim\<lparr>cl_last_collected_ledger := e_seq e\<rparr>) s1)
                else Ok ((), s1)))))"

definition set_pool_cap :: "'w host \<Rightarrow> env \<Rightarrow> int \<Rightarrow> 'w state \<Rightarrow> (unit \<times> 'w state) outcome" where
  "set_pool_cap H e new_cap s =
     and_then (get_admin s) (\<lambda>admin.
     and_then (require_auth e admin) (\<lambda>_.
     if new_cap \<le> 0 then Err PoolCapNotPositive
     else if new_cap < get_total_staked s then Err PoolCapBelowTotalStaked
     else Ok ((), bump_instance_ttl H e (set_pool_cap_value new_cap s))))"

definition set_oracle :: "'w host \<Rightarrow> env \<Rightarrow> address \<Rightarrow> 'w state \<Rightarrow> (unit \<times> 'w state) outcome" where
  "set_oracle H e new_oracle s =
     and_then (get_admin s) (\<lambda>admin.
     and_then (require_auth e admin) (\<lambda>_.
     and_then (get_co_signer s) (\<lambda>co_signer.
     if new_oracle = co_signer then Err OracleEqualsCoSigner
     else Ok ((), bump_instance_ttl H e (set_oracle_address new_oracle s)))))"

definition set_oracle_pubkey :: "'w host \<Rightarrow> env \<Rightarrow> bytes \<Rightarrow> 'w state \<Rightarrow> (unit \<times> 'w state) outcome" where
  "set_oracle_pubkey H e new_pubkey s =
     and_then (get_admin s) (\<lambda>admin.
     and_then (require_auth e admin) (\<lambda>_.
     Ok ((), bump_instance_ttl H e (set_oracle_key new_pubkey s))))"

definition set_oracle_identity ::
  "'w host \<Rightarrow> env \<Rightarrow> address \<Rightarrow> bytes \<Rightarrow> 'w state \<Rightarrow> (unit \<times> 'w state) outcome" where
  "set_oracle_identity H e new_oracle new_pubkey s =
     and_then (get_admin s) (\<lambda>admin.
     and_then (require_auth e admin) (\<lambda>_.
     and_then (get_co_signer s) (\<lambda>co_signer.
     if new_oracle = co_signer then Err OracleEqualsCoSigner
     else Ok ((), bump_instance_ttl H e (set_oracle_key new_pubkey (set_oracle_address new_oracle s))))))"

definition set_co_signer :: "'w host \<Rightarrow> env \<Rightarrow> address \<Rightarrow> 'w state \<Rightarrow> (unit \<times> 'w state) outcome" where
  "set_co_signer H e new_co_signer s =
     and_then (get_admin s) (\<lambda>admin.
     and_then (require_auth e admin) (\<lambda>_.
     and_then (get_oracle s) (\<lambda>oracle.
     if new_co_signer = oracle then Err CoSignerEqualsOracle
     else if new_co_signer = admin then Err CoSignerEqualsAdmin
     else Ok ((), bump_instance_ttl H e (set_co_signer_address new_co_signer s)))))"

section \<open>What a successful call did\<close>

lemma initialize_Ok:
  assumes "initialize H e admin oracle pk co_signer token cap s = Ok (u, s')"
  shows "\<exists>lu. st_admin s = None \<and> oracle \<noteq> co_signer \<and> co_signer \<noteq> admin \<and> 0 < cap \<and> e_auth e admin \<and>
     s' = s\<lparr>st_admin := Some admin, st_oracle := Some oracle, st_oracle_pubkey := Some pk,
            st_co_signer := Some co_signer, st_xlm_token := Some token, st_pool_cap := Some cap,
            st_total_staked := Some 0, st_total_allocated := Some 0, st_total_stakers := Some 0,
            st_paused := Some False, st_live_until := lu\<rparr>"
  using assms
  by (auto simp: initialize_def ok_simps Let_def write_defs)

lemma transfer_admin_Ok:
  assumes "transfer_admin H e a s = Ok (u, s')"
  shows "\<exists>admin lu. st_admin s = Some admin \<and> e_auth e admin \<and>
     st_co_signer s \<noteq> None \<and> st_co_signer s \<noteq> Some a \<and>
     s' = s\<lparr>st_admin := Some a, st_live_until := lu\<rparr>"
  using assms by (auto simp: transfer_admin_def ok_simps read_defs write_defs)

lemma pause_Ok:
  assumes "pause e s = Ok (u, s')"
  shows "\<exists>admin. st_admin s = Some admin \<and> e_auth e admin \<and> s' = s\<lparr>st_paused := Some True\<rparr>"
  using assms by (auto simp: pause_def ok_simps read_defs write_defs)

lemma unpause_Ok:
  assumes "unpause e s = Ok (u, s')"
  shows "\<exists>admin. st_admin s = Some admin \<and> e_auth e admin \<and> s' = s\<lparr>st_paused := Some False\<rparr>"
  using assms by (auto simp: unpause_def ok_simps read_defs write_defs)

lemma suspend_stake_Ok:
  assumes "suspend_stake H e wallet s = Ok (u, s')"
  shows "\<exists>admin record lu. st_admin s = Some admin \<and> e_auth e admin \<and>
     st_stakes s wallet = Some record \<and> 0 < sr_amount record \<and>
     (sr_withdrawn record \<longrightarrow> sr_active_claim_id record \<noteq> None) \<and>
     s' = s\<lparr>st_stakes := (st_stakes s)(wallet \<mapsto> record\<lparr>sr_suspended := True\<rparr>),
            st_live_until := lu\<rparr>"
  using assms by (auto simp: suspend_stake_def ok_simps read_defs write_defs)

text \<open>The claim record that unsuspending writes: only the clock of the claim's phase moves.\<close>

definition clock_reset :: "env \<Rightarrow> claim \<Rightarrow> claim" where
  "clock_reset e claim =
     (if cl_status claim = AwaitingApproval
      then claim\<lparr>cl_approve_deadline_ledger := e_seq e + APPROVE_WINDOW_LEDGERS\<rparr>
      else if cl_status claim = Active then claim\<lparr>cl_last_collected_ledger := e_seq e\<rparr>
      else claim)"

lemma clock_reset_simps [simp]:
  "cl_wallet (clock_reset e c) = cl_wallet c" "cl_tx_hash (clock_reset e c) = cl_tx_hash c"
  "cl_entitlement (clock_reset e c) = cl_entitlement c"
  "cl_streamed (clock_reset e c) = cl_streamed c"
  "cl_stake (clock_reset e c) = cl_stake c" "cl_status (clock_reset e c) = cl_status c"
  "cl_tier (clock_reset e c) = cl_tier c" "cl_hack_timestamp (clock_reset e c) = cl_hack_timestamp c"
  "cl_cooldown_ends_ledger (clock_reset e c) = cl_cooldown_ends_ledger c"
  "cl_vesting_ends_ledger (clock_reset e c) = cl_vesting_ends_ledger c"
  "cl_total_staked_snapshot (clock_reset e c) = cl_total_staked_snapshot c"
  by (simp_all add: clock_reset_def)

lemma unsuspend_stake_Ok:
  assumes "unsuspend_stake H e wallet cid s = Ok (u, s')"
  shows "\<exists>admin record lu. st_admin s = Some admin \<and> e_auth e admin \<and>
     st_stakes s wallet = Some record \<and> 0 < sr_amount record \<and>
     (s' = s\<lparr>st_stakes := (st_stakes s)(wallet \<mapsto> record\<lparr>sr_suspended := False\<rparr>),
             st_live_until := lu\<rparr> \<or>
      (\<exists>k claim. cid = Some k \<and> st_claims s k = Some claim \<and> cl_wallet claim = wallet \<and>
         s' = s\<lparr>st_stakes := (st_stakes s)(wallet \<mapsto> record\<lparr>sr_suspended := False\<rparr>),
                st_claims := (st_claims s)(k \<mapsto> clock_reset e claim),
                st_live_until := lu\<rparr>))"
proof (cases cid)
  case None
  with assms show ?thesis
    by (auto simp: unsuspend_stake_def ok_simps read_defs write_defs)
next
  case k: (Some k)
  show ?thesis
  proof (cases "st_claims s k")
    case None
    with assms k show ?thesis
      by (auto simp: unsuspend_stake_def ok_simps read_defs write_defs)
  next
    case (Some claim)
    with assms k show ?thesis
      by (cases "cl_wallet claim = wallet"; cases "cl_status claim")
        (auto simp: unsuspend_stake_def ok_simps read_defs write_defs clock_reset_def)
  qed
qed

lemma set_pool_cap_Ok:
  assumes "set_pool_cap H e cap s = Ok (u, s')"
  shows "\<exists>admin lu. st_admin s = Some admin \<and> e_auth e admin \<and> 0 < cap \<and> get_total_staked s \<le> cap \<and>
     s' = s\<lparr>st_pool_cap := Some cap, st_live_until := lu\<rparr>"
  using assms by (auto simp: set_pool_cap_def ok_simps read_defs write_defs)

lemma set_oracle_Ok:
  assumes "set_oracle H e a s = Ok (u, s')"
  shows "\<exists>admin lu. st_admin s = Some admin \<and> e_auth e admin \<and>
     st_co_signer s \<noteq> None \<and> st_co_signer s \<noteq> Some a \<and>
     s' = s\<lparr>st_oracle := Some a, st_live_until := lu\<rparr>"
  using assms by (auto simp: set_oracle_def ok_simps read_defs write_defs)

lemma set_oracle_pubkey_Ok:
  assumes "set_oracle_pubkey H e k s = Ok (u, s')"
  shows "\<exists>admin lu. st_admin s = Some admin \<and> e_auth e admin \<and>
     s' = s\<lparr>st_oracle_pubkey := Some k, st_live_until := lu\<rparr>"
  using assms by (auto simp: set_oracle_pubkey_def ok_simps read_defs write_defs)

lemma set_oracle_identity_Ok:
  assumes "set_oracle_identity H e a k s = Ok (u, s')"
  shows "\<exists>admin lu. st_admin s = Some admin \<and> e_auth e admin \<and>
     st_co_signer s \<noteq> None \<and> st_co_signer s \<noteq> Some a \<and>
     s' = s\<lparr>st_oracle := Some a, st_oracle_pubkey := Some k, st_live_until := lu\<rparr>"
  using assms by (auto simp: set_oracle_identity_def ok_simps read_defs write_defs)

lemma set_co_signer_Ok:
  assumes "set_co_signer H e a s = Ok (u, s')"
  shows "\<exists>admin lu. st_admin s = Some admin \<and> e_auth e admin \<and>
     st_oracle s \<noteq> None \<and> st_oracle s \<noteq> Some a \<and> a \<noteq> admin \<and>
     s' = s\<lparr>st_co_signer := Some a, st_live_until := lu\<rparr>"
  using assms by (auto simp: set_co_signer_def ok_simps read_defs write_defs)

end
