(* ===== verification/Yield_Vault.thy ===== *)
theory Yield_Vault
  imports Liquidity
begin

text \<open>
  \<^verbatim>\<open>contracts/protection-pool/src/vault.rs\<close>: configuration of the yield layer, the
  authorization trees for the vault calls, deployment into the DeFindex vault, redemption from
  it, the two permissionless rebalancing calls, and yield extraction. The vault contract itself
  is a parameter (\<open>h_vault_deposit\<close>, \<open>h_vault_withdraw\<close>, \<open>h_vault_balance\<close>).
\<close>

section \<open>Configuration\<close>

definition set_vault :: "'w host \<Rightarrow> env \<Rightarrow> address \<Rightarrow> 'w state \<Rightarrow> (unit \<times> 'w state) outcome" where
  "set_vault H e vault s =
     and_then (get_admin s) (\<lambda>admin.
     and_then (require_auth e admin) (\<lambda>_.
     if get_total_deployed_shares s > 0 then Err VaultChangeWhileDeployed
     else Ok ((), bump_instance_ttl H e (set_vault_address vault s))))"

definition set_treasury :: "'w host \<Rightarrow> env \<Rightarrow> address \<Rightarrow> 'w state \<Rightarrow> (unit \<times> 'w state) outcome" where
  "set_treasury H e treasury s =
     and_then (get_admin s) (\<lambda>admin.
     and_then (require_auth e admin) (\<lambda>_.
     Ok ((), bump_instance_ttl H e (set_treasury_address treasury s))))"

definition set_deploy_bps :: "'w host \<Rightarrow> env \<Rightarrow> int \<Rightarrow> 'w state \<Rightarrow> (unit \<times> 'w state) outcome" where
  "set_deploy_bps H e bps s =
     and_then (get_admin s) (\<lambda>admin.
     and_then (require_auth e admin) (\<lambda>_.
     if bps < 0 then Err AmountNotPositive
     else if bps > MAX_DEPLOY_BPS then Err DeployBpsTooHigh
     else Ok ((), bump_instance_ttl H e (set_deploy_bps_value bps s))))"

section \<open>Cross-contract authorization\<close>

definition authorize_deposit ::
  "'w host \<Rightarrow> address \<Rightarrow> int list \<Rightarrow> int list \<Rightarrow> int \<Rightarrow> 'w state \<Rightarrow> auth_entry list outcome" where
  "authorize_deposit H vault_addr desired mins amount s =
     (let pool = h_self H;
          transfer_args = [CvAddress pool, CvAddress vault_addr, CvI128 amount];
          deposit_args = [CvVec desired, CvVec mins, CvAddress pool, CvBool True]
      in and_then (get_xlm_token s) (\<lambda>token.
        Ok [ContractAuth vault_addr ''deposit'' deposit_args
              [ContractAuth token ''transfer'' transfer_args []],
            ContractAuth token ''transfer'' transfer_args []]))"

definition authorize_withdraw ::
  "'w host \<Rightarrow> address \<Rightarrow> int \<Rightarrow> int list \<Rightarrow> auth_entry list" where
  "authorize_withdraw H vault_addr shares mins =
     [ContractAuth vault_addr ''withdraw'' [CvI128 shares, CvVec mins, CvAddress (h_self H)] []]"

definition vault_deposit ::
  "'w host \<Rightarrow> auth_entry list \<Rightarrow> address \<Rightarrow> int list \<Rightarrow> int list \<Rightarrow> 'w state \<Rightarrow> 'w state outcome" where
  "vault_deposit H auth vault_addr desired mins s =
     (case h_vault_deposit H auth (st_world s) vault_addr desired mins (h_self H) True of
        None \<Rightarrow> Trap CalleeFailed
      | Some w \<Rightarrow> Ok (s\<lparr>st_world := w\<rparr>))"

definition vault_withdraw ::
  "'w host \<Rightarrow> auth_entry list \<Rightarrow> address \<Rightarrow> int \<Rightarrow> int list \<Rightarrow> 'w state \<Rightarrow> 'w state outcome" where
  "vault_withdraw H auth vault_addr shares mins s =
     (case h_vault_withdraw H auth (st_world s) vault_addr shares mins (h_self H) of
        None \<Rightarrow> Trap CalleeFailed
      | Some w \<Rightarrow> Ok (s\<lparr>st_world := w\<rparr>))"

definition vault_shares :: "'w host \<Rightarrow> address \<Rightarrow> 'w state \<Rightarrow> int" where
  "vault_shares H vault_addr s = h_vault_balance H (st_world s) vault_addr (h_self H)"

lemma vault_deposit_eq_Ok [ok_simps]:
  "vault_deposit H auth v desired mins s = Ok s' \<longleftrightarrow>
     (\<exists>w. h_vault_deposit H auth (st_world s) v desired mins (h_self H) True = Some w \<and>
        s' = s\<lparr>st_world := w\<rparr>)"
  by (auto simp: vault_deposit_def split: option.splits)

lemma vault_withdraw_eq_Ok [ok_simps]:
  "vault_withdraw H auth v shares mins s = Ok s' \<longleftrightarrow>
     (\<exists>w. h_vault_withdraw H auth (st_world s) v shares mins (h_self H) = Some w \<and>
        s' = s\<lparr>st_world := w\<rparr>)"
  by (auto simp: vault_withdraw_def split: option.splits)

section \<open>Deployment\<close>

definition deploy_ceiling :: "'w state \<Rightarrow> int outcome" where
  "deploy_ceiling s = mul_div_i128 (get_total_staked s) (get_deploy_bps s) DEPLOY_BPS_DENOMINATOR"

definition deploy_to_vault ::
  "'w host \<Rightarrow> env \<Rightarrow> int \<Rightarrow> int \<Rightarrow> 'w state \<Rightarrow> (int \<times> 'w state) outcome" where
  "deploy_to_vault H e amount min_shares_out s =
     and_then (require_not_paused s) (\<lambda>_.
     and_then (get_admin s) (\<lambda>admin.
     and_then (require_auth e admin) (\<lambda>_.
     if amount \<le> 0 then Err AmountNotPositive
     else and_then (ok_or (get_vault s) VaultNotSet) (\<lambda>vault_addr.
     and_then (liquid_balance H s) (\<lambda>liquid.
     if liquid < amount then Err InsufficientLiquidity
     else
       let deployed_xlm = get_total_deployed_xlm s in
       and_then (deploy_ceiling s) (\<lambda>ceiling.
       and_then (add_i128 deployed_xlm amount) (\<lambda>new_deployed.
       if new_deployed > ceiling then Err DeployExceedsCeiling
       else and_then (sub_i128 liquid amount) (\<lambda>left.
       if left < get_total_allocated s then Err DeployBreachesAllocation
       else
         let shares_before = vault_shares H vault_addr s;
             desired = [amount]; mins = [amount] in
         and_then (authorize_deposit H vault_addr desired mins amount s) (\<lambda>auth.
         and_then (vault_deposit H auth vault_addr desired mins s) (\<lambda>s1.
         and_then (sub_i128 (vault_shares H vault_addr s1) shares_before) (\<lambda>shares_gained.
         if shares_gained < min_shares_out then Err MinSharesNotMet
         else and_then (add_i128 (get_total_deployed_shares s1) shares_gained) (\<lambda>shares.
           let s2 = set_total_deployed_xlm new_deployed (set_total_deployed_shares shares s1);
               s3 = bump_instance_ttl H e s2
           in Ok (shares_gained, publish (EvDeployed vault_addr amount shares_gained) s3)))))))))))))"

definition auto_deploy_liquidity :: "'w host \<Rightarrow> env \<Rightarrow> 'w state \<Rightarrow> (int \<times> 'w state) outcome" where
  "auto_deploy_liquidity H e s =
     and_then (require_not_paused s) (\<lambda>_.
     let deployed_shares = get_total_deployed_shares s;
         deployed_xlm = get_total_deployed_xlm s in
     if deployed_shares \<le> 0 \<or> deployed_xlm \<le> 0 then Err NothingDeployed
     else and_then (liquid_balance H s) (\<lambda>liquid.
       let total_allocated = get_total_allocated s in
       and_then (sub_i128 liquid total_allocated) (\<lambda>surplus.
       let idle = max surplus 0 in
       if idle = 0 then Ok (0, s)
       else and_then (deploy_ceiling s) (\<lambda>ceiling.
       and_then (sub_i128 ceiling deployed_xlm) (\<lambda>headroom.
       let room = max headroom 0 in
       if room = 0 then Ok (0, s)
       else
         let amount = min idle room in
         and_then (ok_or (get_vault s) VaultNotSet) (\<lambda>vault_addr.
         and_then (sub_i128 liquid amount) (\<lambda>left.
         if left < total_allocated then Err DeployBreachesAllocation
         else and_then (mul_div_i128 amount deployed_shares deployed_xlm) (\<lambda>expected_shares.
         and_then (mul_div_i128 expected_shares
             (BPS_DENOMINATOR - MAX_REBALANCE_SLIPPAGE_BPS) BPS_DENOMINATOR) (\<lambda>min_shares_out.
         let shares_before = vault_shares H vault_addr s;
             desired = [amount]; mins = [amount] in
         and_then (authorize_deposit H vault_addr desired mins amount s) (\<lambda>auth.
         and_then (vault_deposit H auth vault_addr desired mins s) (\<lambda>s1.
         and_then (sub_i128 (vault_shares H vault_addr s1) shares_before) (\<lambda>shares_gained.
         if shares_gained < min_shares_out then Err MinSharesNotMet
         else and_then (add_i128 deployed_shares shares_gained) (\<lambda>shares.
           and_then (add_i128 deployed_xlm amount) (\<lambda>new_deployed.
           let s2 = set_total_deployed_xlm new_deployed (set_total_deployed_shares shares s1);
               s3 = bump_instance_ttl H e s2
           in Ok (shares_gained,
                publish (EvLiquidityAutoDeployed vault_addr amount shares_gained) s3)))))))))))))))"

section \<open>Redemption\<close>

text \<open>The shared core: redeem \<open>shares\<close>, return the XLM received and the principal they stood for.\<close>

definition redeem ::
  "'w host \<Rightarrow> address \<Rightarrow> int \<Rightarrow> int \<Rightarrow> 'w state \<Rightarrow> ((int \<times> int) \<times> 'w state) outcome" where
  "redeem H vault_addr shares min_xlm_out s =
     (if shares \<le> 0 then Err AmountNotPositive
      else
        let deployed_shares = get_total_deployed_shares s in
        if deployed_shares \<le> 0 then Err NothingDeployed
        else if shares > deployed_shares then Err RedeemExceedsDeployed
        else
          let deployed_xlm = get_total_deployed_xlm s in
          and_then (mul_div_i128 deployed_xlm shares deployed_shares) (\<lambda>principal_equiv.
          and_then (liquid_balance H s) (\<lambda>liquid_before.
          let mins = [min_xlm_out];
              auth = authorize_withdraw H vault_addr shares mins in
          and_then (vault_withdraw H auth vault_addr shares mins s) (\<lambda>s1.
          and_then (liquid_balance H s1) (\<lambda>liquid_after.
          and_then (sub_i128 liquid_after liquid_before) (\<lambda>xlm_received.
          if xlm_received < min_xlm_out then Err MinAmountNotMet
          else and_then (sub_i128 deployed_shares shares) (\<lambda>new_shares.
          and_then (sub_i128 deployed_xlm principal_equiv) (\<lambda>new_xlm.
          let s2 = set_total_deployed_xlm new_xlm (set_total_deployed_shares new_shares s1) in
          if xlm_received < principal_equiv then
            and_then (sub_i128 principal_equiv xlm_received) (\<lambda>shortfall.
            let s3 = set_total_staked (saturating_sub_i128 (get_total_staked s2) shortfall) s2
            in Ok ((xlm_received, principal_equiv),
                 publish (EvDeploymentShortfall vault_addr principal_equiv xlm_received) s3))
          else Ok ((xlm_received, principal_equiv), s2)))))))))"

definition provide_liquidity ::
  "'w host \<Rightarrow> env \<Rightarrow> int \<Rightarrow> int \<Rightarrow> 'w state \<Rightarrow> (int \<times> 'w state) outcome" where
  "provide_liquidity H e shares min_xlm_out s =
     and_then (get_admin s) (\<lambda>admin.
     and_then (require_auth e admin) (\<lambda>_.
     and_then (ok_or (get_vault s) VaultNotSet) (\<lambda>vault_addr.
     and_then (redeem H vault_addr shares min_xlm_out s) (\<lambda>((xlm_received, _), s1).
     Ok (xlm_received,
       publish (EvLiquidityProvided vault_addr shares xlm_received) (bump_instance_ttl H e s1))))))"

text \<open>The pool's liquidity shortfall: what admitted claims lack, or what exceeds the ceiling.\<close>

definition liquidity_shortfall :: "'w host \<Rightarrow> 'w state \<Rightarrow> int outcome" where
  "liquidity_shortfall H s =
     and_then (liquid_balance H s) (\<lambda>liquid.
     and_then (sub_i128 (get_total_allocated s) liquid) (\<lambda>short.
     let claims_shortfall = max short 0 in
     and_then (deploy_ceiling s) (\<lambda>ceiling.
     and_then (sub_i128 (get_total_deployed_xlm s) ceiling) (\<lambda>over.
     let over_ceiling = max over 0 in
     Ok (max claims_shortfall over_ceiling)))))"

definition ensure_liquidity :: "'w host \<Rightarrow> env \<Rightarrow> 'w state \<Rightarrow> (int \<times> 'w state) outcome" where
  "ensure_liquidity H e s =
     (let deployed_shares = get_total_deployed_shares s;
          deployed_xlm = get_total_deployed_xlm s in
     and_then (liquidity_shortfall H s) (\<lambda>shortfall.
     if shortfall = 0 then Ok (0, s)
     else if deployed_shares \<le> 0 \<or> deployed_xlm \<le> 0 then Err NothingDeployed
     else and_then (mul_div_i128 shortfall deployed_shares deployed_xlm) (\<lambda>wanted.
       let shares_needed = min wanted deployed_shares in
       and_then (mul_div_i128 deployed_xlm shares_needed deployed_shares) (\<lambda>expected_xlm.
       and_then (mul_div_i128 expected_xlm
           (BPS_DENOMINATOR - MAX_REBALANCE_SLIPPAGE_BPS) BPS_DENOMINATOR) (\<lambda>min_xlm_out.
       and_then (ok_or (get_vault s) VaultNotSet) (\<lambda>vault_addr.
       and_then (redeem H vault_addr shares_needed min_xlm_out s) (\<lambda>((xlm_received, _), s1).
       Ok (xlm_received,
         publish (EvLiquidityAutoRebalanced vault_addr shares_needed xlm_received)
           (bump_instance_ttl H e s1)))))))))"

definition extract_yield ::
  "'w host \<Rightarrow> env \<Rightarrow> int \<Rightarrow> int \<Rightarrow> 'w state \<Rightarrow> (int \<times> 'w state) outcome" where
  "extract_yield H e shares min_xlm_out s =
     and_then (get_admin s) (\<lambda>admin.
     and_then (require_auth e admin) (\<lambda>_.
     and_then (ok_or (get_vault s) VaultNotSet) (\<lambda>vault_addr.
     and_then (ok_or (get_treasury s) TreasuryNotSet) (\<lambda>treasury.
     and_then (redeem H vault_addr shares min_xlm_out s) (\<lambda>((xlm_received, principal_equiv), s1).
     and_then (if xlm_received > principal_equiv then sub_i128 xlm_received principal_equiv
               else Ok 0) (\<lambda>yield_amount.
     and_then (if yield_amount > 0
               then and_then (add_i128 (get_total_extracted_yield s1) yield_amount) (\<lambda>tot.
                      Ok (set_total_extracted_yield tot s1))
               else Ok s1) (\<lambda>s2.
     let s3 = publish (EvYieldExtracted treasury shares xlm_received yield_amount)
                (bump_instance_ttl H e s2) in
     and_then (if yield_amount > 0
               then and_then (get_xlm_token s3) (\<lambda>token.
                      token_transfer H token (h_self H) treasury yield_amount s3)
               else Ok s3) (\<lambda>s4.
     Ok (yield_amount, s4)))))))))"

definition withdraw_yield :: "'w host \<Rightarrow> env \<Rightarrow> int \<Rightarrow> 'w state \<Rightarrow> (unit \<times> 'w state) outcome" where
  "withdraw_yield H e amount s =
     and_then (get_admin s) (\<lambda>admin.
     and_then (require_auth e admin) (\<lambda>_.
     if amount \<le> 0 then Err AmountNotPositive
     else and_then (ok_or (get_treasury s) TreasuryNotSet) (\<lambda>treasury.
     and_then (yield_balance H s) (\<lambda>yb.
     if amount > yb then Err ExceedsYieldBalance
     else and_then (liquid_balance H s) (\<lambda>liquid.
     if amount > liquid then Err InsufficientLiquidity
     else and_then (add_i128 (get_total_extracted_yield s) amount) (\<lambda>tot.
     let s1 = publish (EvYieldWithdrawn treasury amount)
                (bump_instance_ttl H e (set_total_extracted_yield tot s)) in
     and_then (get_xlm_token s1) (\<lambda>token.
     and_then (token_transfer H token (h_self H) treasury amount s1) (\<lambda>s2.
     Ok ((), s2)))))))))"

section \<open>What a successful call did\<close>

lemma set_vault_Ok:
  assumes "set_vault H e v s = Ok (u, s')"
  shows "\<exists>admin lu. st_admin s = Some admin \<and> e_auth e admin \<and> get_total_deployed_shares s \<le> 0 \<and>
     s' = s\<lparr>st_vault := Some v, st_live_until := lu\<rparr>"
  using assms
  by (auto simp: set_vault_def ok_simps get_admin_def set_vault_address_def bump_instance_ttl_def
      touch_def)

lemma set_treasury_Ok:
  assumes "set_treasury H e a s = Ok (u, s')"
  shows "\<exists>admin lu. st_admin s = Some admin \<and> e_auth e admin \<and>
     s' = s\<lparr>st_treasury := Some a, st_live_until := lu\<rparr>"
  using assms by (auto simp: set_treasury_def ok_simps read_defs write_defs)

lemma set_deploy_bps_Ok:
  assumes "set_deploy_bps H e bps s = Ok (u, s')"
  shows "\<exists>admin lu. st_admin s = Some admin \<and> e_auth e admin \<and> 0 \<le> bps \<and> bps \<le> MAX_DEPLOY_BPS \<and>
     s' = s\<lparr>st_deploy_bps := Some bps, st_live_until := lu\<rparr>"
  using assms by (auto simp: set_deploy_bps_def ok_simps read_defs write_defs)

lemma authorize_deposit_eq_Ok:
  "authorize_deposit H v desired mins amount s = Ok auth \<longleftrightarrow>
     (\<exists>token. st_xlm_token s = Some token \<and>
        auth = [ContractAuth v ''deposit''
                  [CvVec desired, CvVec mins, CvAddress (h_self H), CvBool True]
                  [ContractAuth token ''transfer''
                     [CvAddress (h_self H), CvAddress v, CvI128 amount] []],
                ContractAuth token ''transfer''
                  [CvAddress (h_self H), CvAddress v, CvI128 amount] []])"
  by (auto simp: authorize_deposit_def ok_simps get_xlm_token_def Let_def)

text \<open>The effect of a deposit of \<open>amount\<close> into the vault, common to both deployment calls.\<close>

definition deposited :: "'w host \<Rightarrow> address \<Rightarrow> int \<Rightarrow> int \<Rightarrow> 'w \<Rightarrow> 'w state \<Rightarrow> bool" where
  "deposited H v amount gained w s \<longleftrightarrow>
     (\<exists>auth. authorize_deposit H v [amount] [amount] amount s = Ok auth \<and>
        h_vault_deposit H auth (st_world s) v [amount] [amount] (h_self H) True = Some w) \<and>
     gained = h_vault_balance H w v (h_self H) - h_vault_balance H (st_world s) v (h_self H)"

lemma depositedI:
  "authorize_deposit H v [amount] [amount] amount s = Ok auth \<Longrightarrow>
   h_vault_deposit H auth (st_world s) v [amount] [amount] (h_self H) True = Some w \<Longrightarrow>
   deposited H v amount (h_vault_balance H w v (h_self H) - h_vault_balance H (st_world s) v (h_self H)) w s"
  by (auto simp: deposited_def)

lemma deploy_to_vault_Ok:
  assumes "deploy_to_vault H e amount mn s = Ok (gained, s')"
  shows "\<exists>admin v liquid ceiling w lu ev.
     \<not> is_paused s \<and> st_admin s = Some admin \<and> e_auth e admin \<and> 0 < amount \<and>
     st_vault s = Some v \<and> liquid_balance H s = Ok liquid \<and> amount \<le> liquid \<and>
     deploy_ceiling s = Ok ceiling \<and> get_total_deployed_xlm s + amount \<le> ceiling \<and>
     get_total_allocated s \<le> liquid - amount \<and>
     deposited H v amount gained w s \<and> mn \<le> gained \<and>
     s' = s\<lparr>st_total_deployed_shares := Some (get_total_deployed_shares s + gained),
            st_total_deployed_xlm := Some (get_total_deployed_xlm s + amount),
            st_live_until := lu, st_events := ev, st_world := w\<rparr>"
  using assms
  by (auto simp: deploy_to_vault_def ok_simps Let_def deposited_def vault_shares_def
      get_admin_def get_vault_def get_total_deployed_shares_def set_total_deployed_xlm_def
      set_total_deployed_shares_def bump_instance_ttl_def touch_def publish_def)
    (intro exI, rule state.equality, simp_all)+

lemma auto_deploy_liquidity_Ok:
  assumes "auto_deploy_liquidity H e s = Ok (gained, s')"
  shows "\<not> is_paused s \<and> 0 < get_total_deployed_shares s \<and> 0 < get_total_deployed_xlm s \<and>
     (gained = 0 \<and> s' = s \<or>
      (\<exists>v liquid ceiling amount expected mn w lu ev.
         st_vault s = Some v \<and> liquid_balance H s = Ok liquid \<and> deploy_ceiling s = Ok ceiling \<and>
         amount = min (liquid - get_total_allocated s) (ceiling - get_total_deployed_xlm s) \<and>
         0 < amount \<and>
         mul_div_i128 amount (get_total_deployed_shares s) (get_total_deployed_xlm s) = Ok expected \<and>
         mul_div_i128 expected (BPS_DENOMINATOR - MAX_REBALANCE_SLIPPAGE_BPS) BPS_DENOMINATOR = Ok mn \<and>
         deposited H v amount gained w s \<and> mn \<le> gained \<and>
         s' = s\<lparr>st_total_deployed_shares := Some (get_total_deployed_shares s + gained),
                st_total_deployed_xlm := Some (get_total_deployed_xlm s + amount),
                st_live_until := lu, st_events := ev, st_world := w\<rparr>))"
proof -
  from assms have pre: "\<not> is_paused s" "0 < get_total_deployed_shares s" "0 < get_total_deployed_xlm s"
    by (auto simp: auto_deploy_liquidity_def ok_simps Let_def split: if_splits)
  from assms pre obtain liquid where l: "liquid_balance H s = Ok liquid"
    by (cases "liquid_balance H s") (auto simp: auto_deploy_liquidity_def require_not_paused_def)
  show ?thesis
  proof (cases "liquid - get_total_allocated s \<le> 0")
    case True
    with assms pre l show ?thesis
      by (auto simp: auto_deploy_liquidity_def and_then_eq_Ok sub_i128_eq_Ok Let_def
          require_not_paused_eq_Ok max_def)
  next
    case idle: False
    with assms pre l obtain ceiling where c: "deploy_ceiling s = Ok ceiling"
      by (cases "deploy_ceiling s")
        (auto simp: auto_deploy_liquidity_def and_then_eq_Ok sub_i128_eq_Ok Let_def
          require_not_paused_eq_Ok max_def)
    show ?thesis
    proof (cases "ceiling - get_total_deployed_xlm s \<le> 0")
      case True
      with assms pre l c idle show ?thesis
        by (auto simp: auto_deploy_liquidity_def and_then_eq_Ok sub_i128_eq_Ok Let_def
            require_not_paused_eq_Ok max_def)
    next
      case room: False
      define amount where
        "amount = min (liquid - get_total_allocated s) (ceiling - get_total_deployed_xlm s)"
      from idle room have pos: "0 < amount" by (simp add: amount_def)
      from assms pre l c idle room obtain v expected mn w where v: "st_vault s = Some v"
        and ex: "mul_div_i128 amount (get_total_deployed_shares s) (get_total_deployed_xlm s)
          = Ok expected"
        and mn: "mul_div_i128 expected (BPS_DENOMINATOR - MAX_REBALANCE_SLIPPAGE_BPS)
          BPS_DENOMINATOR = Ok mn" "mn \<le> gained"
        and s': "s' = publish (EvLiquidityAutoDeployed v amount gained) (bump_instance_ttl H e
          (set_total_deployed_xlm (get_total_deployed_xlm s + amount)
            (set_total_deployed_shares (get_total_deployed_shares s + gained) (s\<lparr>st_world := w\<rparr>))))"
        and dep: "deposited H v amount gained w s"
        by (clarsimp simp: auto_deploy_liquidity_def and_then_eq_Ok sub_i128_eq_Ok add_i128_eq_Ok
            Let_def require_not_paused_eq_Ok max_def if_Err_eq_Ok ok_or_eq_Ok get_vault_def
            vault_deposit_eq_Ok vault_shares_def amount_def [symmetric])
          (rule that, (assumption | rule refl | simp add: not_less | rule depositedI)+)
      from s' have "\<exists>lu ev. s' = s\<lparr>st_total_deployed_shares := Some (get_total_deployed_shares s + gained),
                st_total_deployed_xlm := Some (get_total_deployed_xlm s + amount),
                st_live_until := lu, st_events := ev, st_world := w\<rparr>"
        by (auto simp: set_total_deployed_xlm_def set_total_deployed_shares_def
            bump_instance_ttl_def touch_def publish_def)
          (intro exI, rule state.equality, simp_all)
      with pre v l c pos ex mn dep show ?thesis
        unfolding amount_def by blast
    qed
  qed
qed

text \<open>The effect of a redemption, common to the three calls that redeem.\<close>

definition redeemed ::
  "'w host \<Rightarrow> address \<Rightarrow> int \<Rightarrow> int \<Rightarrow> int \<Rightarrow> int \<Rightarrow> 'w \<Rightarrow> 'w state \<Rightarrow> bool" where
  "redeemed H v shares mn received princ w s \<longleftrightarrow>
     0 < shares \<and> shares \<le> get_total_deployed_shares s \<and>
     princ = (get_total_deployed_xlm s * shares) sdiv get_total_deployed_shares s \<and>
     h_vault_withdraw H (authorize_withdraw H v shares [mn]) (st_world s) v shares [mn] (h_self H) = Some w \<and>
     st_xlm_token s \<noteq> None \<and> received = liquid_of H (s\<lparr>st_world := w\<rparr>) - liquid_of H s \<and> mn \<le> received"

definition after_redeem :: "int \<Rightarrow> int \<Rightarrow> int \<Rightarrow> 'w state \<Rightarrow> 'w state" where
  "after_redeem shares received princ s =
     s\<lparr>st_total_deployed_shares := Some (get_total_deployed_shares s - shares),
       st_total_deployed_xlm := Some (get_total_deployed_xlm s - princ),
       st_total_staked :=
         (if received < princ
          then Some (saturating_sub_i128 (get_total_staked s) (princ - received))
          else st_total_staked s)\<rparr>"

lemma redeem_Ok:
  assumes "redeem H v shares mn s = Ok ((received, princ), s')"
  shows "\<exists>w ev. redeemed H v shares mn received princ w s \<and>
     s' = (after_redeem shares received princ s)\<lparr>st_events := ev, st_world := w\<rparr>"
proof -
  define s2 where "s2 w = set_total_deployed_xlm (get_total_deployed_xlm s - princ)
      (set_total_deployed_shares (get_total_deployed_shares s - shares) (s\<lparr>st_world := w\<rparr>))" for w
  have reads: "get_total_staked (s2 w) = get_total_staked s" "st_events (s2 w) = st_events s" for w
    by (simp_all add: s2_def get_total_staked_def set_total_deployed_xlm_def
        set_total_deployed_shares_def)
  from assms obtain w where r: "redeemed H v shares mn received princ w s"
    and s': "s' = (if received < princ
        then publish (EvDeploymentShortfall v princ received)
               (set_total_staked (saturating_sub_i128 (get_total_staked s) (princ - received)) (s2 w))
        else s2 w)"
    by (auto simp: redeem_def and_then_eq_Ok if_Err_eq_Ok sub_i128_eq_Ok mul_div_i128_eq_Ok
        vault_withdraw_eq_Ok liquid_balance_eq_Ok Let_def redeemed_def liquid_of_def s2_def
        get_total_staked_def set_total_deployed_xlm_def set_total_deployed_shares_def
        split: if_split_asm)
  have "s' = (after_redeem shares received princ s)\<lparr>st_events := st_events s', st_world := w\<rparr>"
    by (rule state.equality)
      (simp_all add: s' s2_def after_redeem_def publish_def set_total_staked_def
        set_total_deployed_xlm_def set_total_deployed_shares_def)
  with r show ?thesis by blast
qed

lemma provide_liquidity_Ok:
  assumes "provide_liquidity H e shares mn s = Ok (received, s')"
  shows "\<exists>admin v princ w lu ev. st_admin s = Some admin \<and> e_auth e admin \<and> st_vault s = Some v \<and>
     redeemed H v shares mn received princ w s \<and>
     s' = (after_redeem shares received princ s)
            \<lparr>st_live_until := lu, st_events := ev, st_world := w\<rparr>"
  using assms
  by (auto simp: provide_liquidity_def ok_simps get_admin_def get_vault_def bump_instance_ttl_def
      touch_def publish_def dest!: redeem_Ok)
    (intro exI conjI, assumption, rule state.equality, simp_all)+

lemma liquidity_shortfall_eq_Ok:
  "liquidity_shortfall H s = Ok short \<longleftrightarrow>
     (\<exists>ceiling. st_xlm_token s \<noteq> None \<and> deploy_ceiling s = Ok ceiling \<and>
        in_i128 (get_total_allocated s - liquid_of H s) \<and>
        in_i128 (get_total_deployed_xlm s - ceiling) \<and>
        short = max (max (get_total_allocated s - liquid_of H s) 0)
                  (max (get_total_deployed_xlm s - ceiling) 0))"
  by (auto simp: liquidity_shortfall_def and_then_eq_Ok liquid_balance_eq_Ok sub_i128_eq_Ok Let_def
      liquid_of_def)

lemma ensure_liquidity_Ok:
  assumes "ensure_liquidity H e s = Ok (received, s')"
  shows "\<exists>short. liquidity_shortfall H s = Ok short \<and>
     (short = 0 \<and> received = 0 \<and> s' = s \<or>
      (\<exists>v shares expected mn princ w lu ev.
         short \<noteq> 0 \<and> 0 < get_total_deployed_xlm s \<and> st_vault s = Some v \<and>
         shares = min ((short * get_total_deployed_shares s) sdiv get_total_deployed_xlm s)
                    (get_total_deployed_shares s) \<and>
         expected = (get_total_deployed_xlm s * shares) sdiv get_total_deployed_shares s \<and>
         mn = (expected * (BPS_DENOMINATOR - MAX_REBALANCE_SLIPPAGE_BPS)) sdiv BPS_DENOMINATOR \<and>
         redeemed H v shares mn received princ w s \<and>
         s' = (after_redeem shares received princ s)
                \<lparr>st_live_until := lu, st_events := ev, st_world := w\<rparr>))"
proof -
  from assms obtain short where short: "liquidity_shortfall H s = Ok short"
    by (auto simp: ensure_liquidity_def and_then_eq_Ok Let_def)
  show ?thesis
  proof (cases "short = 0")
    case True
    with assms short show ?thesis by (simp add: ensure_liquidity_def)
  next
    case False
    define shares where "shares = min ((short * get_total_deployed_shares s) sdiv
        get_total_deployed_xlm s) (get_total_deployed_shares s)"
    define mn where "mn = (((get_total_deployed_xlm s * shares) sdiv get_total_deployed_shares s) *
        (BPS_DENOMINATOR - MAX_REBALANCE_SLIPPAGE_BPS)) sdiv BPS_DENOMINATOR"
    from assms short False have
      "0 < get_total_deployed_xlm s \<and> (\<exists>v res. st_vault s = Some v \<and>
         redeem H v shares mn s = Ok res \<and>
         (case res of ((x, _), s1) \<Rightarrow> Ok (x, publish (EvLiquidityAutoRebalanced v shares x)
            (bump_instance_ttl H e s1))) = Ok (received, s'))"
      by (clarsimp simp: ensure_liquidity_def Let_def and_then_eq_Ok mul_div_i128_eq_Ok ok_or_eq_Ok
          get_vault_def if_Err_eq_Ok shares_def mn_def not_le)
    then obtain v princ s1 where d: "0 < get_total_deployed_xlm s"
      and v: "st_vault s = Some v" and r: "redeem H v shares mn s = Ok ((received, princ), s1)"
      and s': "s' = publish (EvLiquidityAutoRebalanced v shares received) (bump_instance_ttl H e s1)"
      by (auto split: prod.splits)
    from redeem_Ok [OF r] obtain w ev where w: "redeemed H v shares mn received princ w s"
      and s1: "s1 = (after_redeem shares received princ s)\<lparr>st_events := ev, st_world := w\<rparr>"
      by blast
    from s' s1 have "\<exists>lu ev. s' = (after_redeem shares received princ s)
        \<lparr>st_live_until := lu, st_events := ev, st_world := w\<rparr>"
      by (auto simp: publish_def bump_instance_ttl_def touch_def)
        (intro exI, rule state.equality, simp_all)
    with short False d v w show ?thesis
      unfolding shares_def mn_def by blast
  qed
qed

lemma withdraw_yield_Ok:
  assumes "withdraw_yield H e amount s = Ok (u, s')"
  shows "\<exists>admin a yb token w lu ev. st_admin s = Some admin \<and> e_auth e admin \<and> 0 < amount \<and>
     st_treasury s = Some a \<and> yield_balance H s = Ok yb \<and> amount \<le> yb \<and>
     st_xlm_token s = Some token \<and> amount \<le> liquid_of H s \<and>
     h_token_transfer H (st_world s) token (h_self H) a amount = Some w \<and>
     s' = s\<lparr>st_total_extracted_yield := Some (get_total_extracted_yield s + amount),
            st_live_until := lu, st_events := ev, st_world := w\<rparr>"
  using assms
  by (auto simp: withdraw_yield_def ok_simps Let_def get_admin_def get_treasury_def get_xlm_token_def
      set_total_extracted_yield_def bump_instance_ttl_def touch_def publish_def liquid_of_def)
    (intro exI, rule refl)+

lemma extract_yield_Ok:
  assumes "extract_yield H e shares mn s = Ok (y, s')"
  shows "\<exists>admin v a received princ w lu ev. st_admin s = Some admin \<and> e_auth e admin \<and>
     st_vault s = Some v \<and> st_treasury s = Some a \<and>
     redeemed H v shares mn received princ w s \<and>
     y = max 0 (received - princ) \<and>
     (received \<le> princ \<and> s' = (after_redeem shares received princ s)
            \<lparr>st_live_until := lu, st_events := ev, st_world := w\<rparr> \<or>
      princ < received \<and> (\<exists>token w'. st_xlm_token s = Some token \<and>
        h_token_transfer H w token (h_self H) a (received - princ) = Some w' \<and>
        s' = (after_redeem shares received princ s)
            \<lparr>st_total_extracted_yield := Some (get_total_extracted_yield s + (received - princ)),
             st_live_until := lu, st_events := ev, st_world := w'\<rparr>))"
proof -
  from assms obtain admin v a received princ s1 where
    pre: "st_admin s = Some admin" "e_auth e admin" "st_vault s = Some v" "st_treasury s = Some a"
    and r: "redeem H v shares mn s = Ok ((received, princ), s1)"
    by (auto simp: extract_yield_def and_then_eq_Ok get_admin_def get_vault_def get_treasury_def
        unwrap_eq_Ok ok_or_eq_Ok require_auth_eq_Ok)
  from redeem_Ok [OF r] obtain w ev where w: "redeemed H v shares mn received princ w s"
    and s1: "s1 = (after_redeem shares received princ s)\<lparr>st_events := ev, st_world := w\<rparr>"
    by blast
  have same: "st_total_extracted_yield s1 = st_total_extracted_yield s"
    "st_xlm_token s1 = st_xlm_token s"
    by (simp_all add: s1 after_redeem_def)
  show ?thesis
  proof (cases "princ < received")
    case True
    with assms pre r same obtain token w' where y: "y = received - princ"
      and t: "st_xlm_token s = Some token"
        "h_token_transfer H w token (h_self H) a (received - princ) = Some w'"
      and s': "s' = (publish (EvYieldExtracted a shares received y) (bump_instance_ttl H e
         (set_total_extracted_yield (get_total_extracted_yield s + (received - princ)) s1)))
         \<lparr>st_world := w'\<rparr>"
      by (auto simp: extract_yield_def and_then_eq_Ok get_admin_def get_vault_def get_treasury_def
          require_auth_def add_i128_eq_Ok sub_i128_eq_Ok token_transfer_eq_Ok Let_def
          get_xlm_token_def unwrap_eq_Ok get_total_extracted_yield_def publish_def
          bump_instance_ttl_def touch_def set_total_extracted_yield_def s1)
    from s' s1 have "\<exists>lu ev. s' = (after_redeem shares received princ s)
        \<lparr>st_total_extracted_yield := Some (get_total_extracted_yield s + (received - princ)),
         st_live_until := lu, st_events := ev, st_world := w'\<rparr>"
      by (auto simp: publish_def bump_instance_ttl_def touch_def set_total_extracted_yield_def)
    with pre w y t True show ?thesis by fastforce
  next
    case False
    with assms pre r have y: "y = 0" and
      s': "s' = publish (EvYieldExtracted a shares received y) (bump_instance_ttl H e s1)"
      by (auto simp: extract_yield_def and_then_eq_Ok get_admin_def get_vault_def get_treasury_def
          require_auth_def Let_def)
    from s' s1 have "\<exists>lu ev. s' = (after_redeem shares received princ s)
        \<lparr>st_live_until := lu, st_events := ev, st_world := w\<rparr>"
      by (auto simp: publish_def bump_instance_ttl_def touch_def)
        (intro exI, rule state.equality, simp_all)
    with pre w y False show ?thesis by fastforce
  qed
qed

end
