(* ===== verification/Claim_Core.thy ===== *)
theory Claim_Core
  imports Staking
begin

text \<open>
  The helpers of \<^verbatim>\<open>contracts/protection-pool/src/claim.rs\<close> that its handlers share:
  tiers and caps, the claim id, the approval payload the oracle signs and its verification,
  activation (forfeiture, points burn, cooldown and vesting clocks) and admission.
\<close>

section \<open>Tiers and caps\<close>

definition tier_ratio :: "int \<Rightarrow> int outcome" where
  "tier_ratio tier =
     (if tier = 1 then Ok TIER_A_RATIO
      else if tier = 2 then Ok TIER_B_RATIO
      else if tier = 3 then Ok TIER_C_RATIO
      else Err InvalidTier)"

definition tier_cap :: "int \<Rightarrow> int \<Rightarrow> int outcome" where
  "tier_cap stake_amount tier =
     and_then (tier_ratio tier) (\<lambda>ratio.
     and_then (mul_i128 stake_amount ratio) (\<lambda>x.
     and_then (mul_i128 x TIER_COVERAGE_BPS) (\<lambda>y. div_i128 y TIER_BPS_DENOMINATOR)))"

definition stress_cap :: "'w state \<Rightarrow> int outcome" where
  "stress_cap s =
     (let total_staked = get_total_staked s in
      if total_staked = 0 then Ok 0
      else
        let total_allocated = get_total_allocated s in
        and_then (mul_div_i128 total_allocated BPS_DENOMINATOR total_staked) (\<lambda>utilization_bps.
        let rate_bps = (if utilization_bps < 2000 then 2500
                        else if utilization_bps < 5000 then 1000 else 300) in
        mul_div_i128 total_staked rate_bps BPS_DENOMINATOR))"

definition dynamic_outflow_bps :: "int \<Rightarrow> 'w state \<Rightarrow> int outcome" where
  "dynamic_outflow_bps base s =
     (if base = 0 then Ok 100
      else
        let total_allocated = get_total_allocated s in
        and_then (mul_div_i128 total_allocated BPS_DENOMINATOR base) (\<lambda>utilization_bps.
        Ok (if utilization_bps < 2000 then 500
            else if utilization_bps < 5000 then 300 else 100)))"

text \<open>\<open>as u32\<close> truncates.\<close>

definition current_day :: "env \<Rightarrow> int" where
  "current_day e = (e_time e div SECONDS_PER_DAY) mod 2 ^ 32"

section \<open>Claim id, approval payload, signature\<close>

definition compute_claim_id :: "'w host \<Rightarrow> address \<Rightarrow> bytes \<Rightarrow> bytes" where
  "compute_claim_id H wallet tx_hash = h_sha256 H (h_to_xdr H (SvAddress wallet) @ tx_hash)"

definition APPROVAL_DOMAIN :: string where
  "APPROVAL_DOMAIN = ''SAFU_CLAIM_APPROVAL_SOROBAN''"

definition build_approval_payload ::
  "'w host \<Rightarrow> address \<Rightarrow> bytes \<Rightarrow> int \<Rightarrow> int \<Rightarrow> int \<Rightarrow> int \<Rightarrow> bytes" where
  "build_approval_payload H wallet tx_hash entitlement tier hack_timestamp deadline =
     h_to_xdr H (SvSymbol APPROVAL_DOMAIN)
     @ h_to_xdr H (SvAddress (h_self H))
     @ h_to_xdr H (SvBytes (h_network_id H))
     @ h_to_xdr H (SvAddress wallet)
     @ h_to_xdr H (SvBytes tx_hash)
     @ h_to_xdr H (SvI128 entitlement)
     @ h_to_xdr H (SvU32 tier)
     @ h_to_xdr H (SvU64 hack_timestamp)
     @ h_to_xdr H (SvU64 deadline)"

definition approval_hash :: "'w host \<Rightarrow> bytes \<Rightarrow> bytes" where
  "approval_hash H payload = h_sha256 H payload"

text \<open>\<open>ed25519_verify\<close> returns unit and traps on a mismatch.\<close>

definition ed25519_verify :: "'w host \<Rightarrow> bytes \<Rightarrow> bytes \<Rightarrow> bytes \<Rightarrow> unit outcome" where
  "ed25519_verify H pubkey payload signature =
     (if h_ed25519_verify H pubkey payload signature then Ok () else Trap SignatureMismatch)"

definition verify_oracle_signature ::
  "'w host \<Rightarrow> env \<Rightarrow> address \<Rightarrow> bytes \<Rightarrow> int \<Rightarrow> int \<Rightarrow> int \<Rightarrow> int \<Rightarrow> bytes \<Rightarrow> 'w state \<Rightarrow> unit outcome"
  where
  "verify_oracle_signature H e wallet tx_hash entitlement tier hack_timestamp deadline signature s =
     (let now_ts = e_time e in
      if now_ts > deadline then Err SignatureExpired
      else and_then (add_u64 now_ts MAX_APPROVAL_WINDOW_SECONDS) (\<lambda>latest.
      if deadline > latest then Err SignatureDeadlineTooFar
      else and_then (ok_or (get_oracle_pubkey s) OraclePubKeyNotSet) (\<lambda>pubkey.
      let payload = build_approval_payload H wallet tx_hash entitlement tier hack_timestamp deadline in
      if is_approval_revoked e (approval_hash H payload) s then Err ApprovalRevoked
      else ed25519_verify H pubkey payload signature)))"

section \<open>Activation\<close>

text \<open>
  The source mutates the stake record and the claim through \<open>&mut\<close> references; here they are
  returned with the burned points. \<open>sr_amount\<close> stays as it is.
\<close>

definition activate_claim ::
  "'w host \<Rightarrow> env \<Rightarrow> stake_record \<Rightarrow> claim \<Rightarrow> 'w state \<Rightarrow>
    ((int \<times> stake_record \<times> claim) \<times> 'w state) outcome" where
  "activate_claim H e stake_record claim s =
     and_then (compute_points_for_record e stake_record s) (\<lambda>points.
     let banked = get_points_balance s (cl_wallet claim) in
     and_then (add_i128 banked points) (\<lambda>lifetime_balance.
     let s1 = set_points_balance H e (cl_wallet claim) 0 s;
         stake_amount = sr_amount stake_record;
         stake_record1 = stake_record\<lparr>sr_withdrawn := True\<rparr>;
         total_staked = get_total_staked s1;
         claim1 = claim\<lparr>cl_total_staked_snapshot := total_staked\<rparr> in
     and_then (sub_i128 total_staked stake_amount) (\<lambda>new_total.
     let s2 = set_total_staked new_total s1;
         s3 = set_total_stakers (saturating_sub_u32 (get_total_stakers s2) 1) s2;
         now_ledger = e_seq e in
     and_then (add_u32 now_ledger COOLDOWN_LEDGERS) (\<lambda>cooldown_ends.
     and_then (add_u32 cooldown_ends VESTING_LEDGERS) (\<lambda>vesting_ends.
     let claim2 = claim1\<lparr>cl_stake := stake_amount, cl_cooldown_ends_ledger := cooldown_ends,
           cl_vesting_ends_ledger := vesting_ends, cl_last_collected_ledger := cooldown_ends,
           cl_status := Active\<rparr>
     in Ok ((lifetime_balance, stake_record1, claim2), s3))))))"

section \<open>Admission\<close>

text \<open>The record literal shared by a queued claim and a fresh admission.\<close>

definition new_claim ::
  "address \<Rightarrow> bytes \<Rightarrow> int \<Rightarrow> int \<Rightarrow> int \<Rightarrow> int \<Rightarrow> claim_status \<Rightarrow> claim" where
  "new_claim wallet tx_hash hack_timestamp entitlement stake_amount tier status =
     \<lparr>cl_wallet = wallet, cl_tx_hash = tx_hash, cl_hack_timestamp = hack_timestamp,
      cl_entitlement = entitlement, cl_streamed = 0, cl_stake = stake_amount,
      cl_cooldown_ends_ledger = 0, cl_vesting_ends_ledger = 0, cl_total_staked_snapshot = 0,
      cl_tier = tier, cl_status = status, cl_approve_deadline_ledger = 0,
      cl_last_collected_ledger = 0\<rparr>"

definition gate_met :: "env \<Rightarrow> stake_record \<Rightarrow> bool" where
  "gate_met e stake_record \<longleftrightarrow>
     saturating_sub_u32 (e_seq e) (sr_staked_at_ledger stake_record) \<ge> TIME_GATE_LEDGERS"

definition admit_claim ::
  "'w host \<Rightarrow> env \<Rightarrow> address \<Rightarrow> bytes \<Rightarrow> bytes \<Rightarrow> int \<Rightarrow> int \<Rightarrow> int \<Rightarrow> stake_record \<Rightarrow> bool \<Rightarrow>
    'w state \<Rightarrow> 'w state outcome" where
  "admit_claim H e wallet tx_hash claim_id entitlement tier hack_timestamp stake_record
     count_toward_oracle_limit s =
     (let day = current_day e;
          (day_entitlement, day_count) = get_daily_entitlement day s in
      and_then (add_i128 day_entitlement entitlement) (\<lambda>day_total.
      and_then (add_u32 day_count (if count_toward_oracle_limit then 1 else 0)) (\<lambda>count.
      let s1 = set_daily_entitlement day day_total count s in
      and_then (add_i128 (get_total_allocated s1) entitlement) (\<lambda>allocated.
      let s2 = set_total_allocated allocated s1;
          stake_record1 = stake_record\<lparr>sr_active_claim_id := Some claim_id,
            sr_reserved_claim_id := None\<rparr>;
          now_ledger = e_seq e;
          claim0 = new_claim wallet tx_hash hack_timestamp entitlement (sr_amount stake_record1)
            tier PendingTime in
      and_then (if gate_met e stake_record1
                then and_then (add_u32 now_ledger APPROVE_WINDOW_LEDGERS) (\<lambda>deadline.
                  Ok (claim0\<lparr>cl_status := AwaitingApproval, cl_approve_deadline_ledger := deadline\<rparr>))
                else Ok claim0) (\<lambda>claim.
      let s3 = set_stake H e wallet stake_record1 s2;
          s4 = set_claim H e claim_id claim s3
      in Ok (bump_instance_ttl H e s4))))))"

section \<open>What the helpers compute\<close>

lemma tier_ratio_eq_Ok [ok_simps]:
  "tier_ratio tier = Ok r \<longleftrightarrow>
     tier = 1 \<and> r = 15 \<or> tier = 2 \<and> r = 10 \<or> tier = 3 \<and> r = 5"
  by (auto simp: tier_ratio_def TIER_A_RATIO_def TIER_B_RATIO_def TIER_C_RATIO_def)

lemma tier_ratio_pos: "tier_ratio tier = Ok r \<Longrightarrow> 5 \<le> r \<and> r \<le> 15"
  by (auto simp: ok_simps)

lemma tier_cap_eq_Ok:
  "tier_cap a tier = Ok c \<longleftrightarrow>
     (\<exists>r. tier_ratio tier = Ok r \<and> in_i128 (a * r) \<and> in_i128 (a * r * 10000) \<and> c = a * r)"
proof -
  have div: "(a * r * 10000) sdiv 10000 = a * r" for r :: int
    by (cases "a * r < 0") (simp_all add: sdiv_neg_eq sdiv_nonneg_eq)
  show ?thesis
    by (auto simp: tier_cap_def and_then_eq_Ok mul_i128_eq_Ok div_i128_eq_Ok
        TIER_COVERAGE_BPS_def TIER_BPS_DENOMINATOR_def div)
qed

lemma verify_oracle_signature_eq_Ok:
  "verify_oracle_signature H e wallet tx ent tier hack deadline sig s = Ok u \<longleftrightarrow>
     e_time e \<le> deadline \<and> deadline \<le> e_time e + MAX_APPROVAL_WINDOW_SECONDS \<and>
     0 \<le> e_time e + MAX_APPROVAL_WINDOW_SECONDS \<and>
     e_time e + MAX_APPROVAL_WINDOW_SECONDS \<le> u64_max \<and>
     (\<exists>pubkey. st_oracle_pubkey s = Some pubkey \<and>
        \<not> is_approval_revoked e
            (approval_hash H (build_approval_payload H wallet tx ent tier hack deadline)) s \<and>
        h_ed25519_verify H pubkey (build_approval_payload H wallet tx ent tier hack deadline) sig)"
  by (auto simp: verify_oracle_signature_def ed25519_verify_def ok_simps Let_def
      get_oracle_pubkey_def split: if_splits)

text \<open>The claim that activation writes, and its clocks.\<close>

definition activated_claim :: "env \<Rightarrow> int \<Rightarrow> int \<Rightarrow> claim \<Rightarrow> claim" where
  "activated_claim e snapshot stake_amount claim =
     claim\<lparr>cl_total_staked_snapshot := snapshot, cl_stake := stake_amount,
       cl_cooldown_ends_ledger := e_seq e + COOLDOWN_LEDGERS,
       cl_vesting_ends_ledger := e_seq e + COOLDOWN_LEDGERS + VESTING_LEDGERS,
       cl_last_collected_ledger := e_seq e + COOLDOWN_LEDGERS, cl_status := Active\<rparr>"

lemma activated_claim_simps [simp]:
  "cl_wallet (activated_claim e t a c) = cl_wallet c"
  "cl_tx_hash (activated_claim e t a c) = cl_tx_hash c"
  "cl_entitlement (activated_claim e t a c) = cl_entitlement c"
  "cl_streamed (activated_claim e t a c) = cl_streamed c"
  "cl_tier (activated_claim e t a c) = cl_tier c"
  "cl_hack_timestamp (activated_claim e t a c) = cl_hack_timestamp c"
  "cl_stake (activated_claim e t a c) = a"
  "cl_status (activated_claim e t a c) = Active"
  "cl_total_staked_snapshot (activated_claim e t a c) = t"
  "cl_cooldown_ends_ledger (activated_claim e t a c) = e_seq e + COOLDOWN_LEDGERS"
  "cl_vesting_ends_ledger (activated_claim e t a c) = e_seq e + COOLDOWN_LEDGERS + VESTING_LEDGERS"
  "cl_last_collected_ledger (activated_claim e t a c) = e_seq e + COOLDOWN_LEDGERS"
  by (simp_all add: activated_claim_def)

text \<open>The part of the state that activation changes.\<close>

definition forfeited :: "address \<Rightarrow> int \<Rightarrow> 'w state \<Rightarrow> 'w state" where
  "forfeited wallet amount s =
     s\<lparr>st_points := (st_points s)(wallet \<mapsto> 0),
       st_total_staked := Some (get_total_staked s - amount),
       st_total_stakers := Some (saturating_sub_u32 (get_total_stakers s) 1)\<rparr>"

lemma activate_claim_Ok:
  assumes "activate_claim H e r c s = Ok ((burned, r', c'), s')"
  shows "\<exists>points lu. compute_points_for_record e r s = Ok points \<and>
     burned = get_points_balance s (cl_wallet c) + points \<and>
     r' = r\<lparr>sr_withdrawn := True\<rparr> \<and>
     c' = activated_claim e (get_total_staked s) (sr_amount r) c \<and>
     0 \<le> e_seq e + COOLDOWN_LEDGERS \<and> e_seq e + COOLDOWN_LEDGERS + VESTING_LEDGERS \<le> u32_max \<and>
     s' = (forfeited (cl_wallet c) (sr_amount r) s)\<lparr>st_live_until := lu\<rparr>"
  using assms
  by (auto simp: activate_claim_def ok_simps Let_def activated_claim_def forfeited_def
      get_total_staked_def get_total_stakers_def set_points_balance_def set_total_staked_def
      set_total_stakers_def touch_def)
    (intro exI, rule state.equality, simp_all)

definition admitted_claim ::
  "env \<Rightarrow> address \<Rightarrow> bytes \<Rightarrow> int \<Rightarrow> int \<Rightarrow> int \<Rightarrow> stake_record \<Rightarrow> claim" where
  "admitted_claim e wallet tx_hash entitlement tier hack_timestamp r =
     (if gate_met e r
      then (new_claim wallet tx_hash hack_timestamp entitlement (sr_amount r) tier AwaitingApproval)
             \<lparr>cl_approve_deadline_ledger := e_seq e + APPROVE_WINDOW_LEDGERS\<rparr>
      else new_claim wallet tx_hash hack_timestamp entitlement (sr_amount r) tier PendingTime)"

lemma new_claim_simps [simp]:
  "cl_wallet (new_claim w t h n a k st) = w" "cl_tx_hash (new_claim w t h n a k st) = t"
  "cl_hack_timestamp (new_claim w t h n a k st) = h" "cl_entitlement (new_claim w t h n a k st) = n"
  "cl_streamed (new_claim w t h n a k st) = 0" "cl_stake (new_claim w t h n a k st) = a"
  "cl_tier (new_claim w t h n a k st) = k" "cl_status (new_claim w t h n a k st) = st"
  "cl_total_staked_snapshot (new_claim w t h n a k st) = 0"
  by (simp_all add: new_claim_def)

lemma admitted_claim_simps [simp]:
  "cl_wallet (admitted_claim e w t n k h r) = w" "cl_tx_hash (admitted_claim e w t n k h r) = t"
  "cl_entitlement (admitted_claim e w t n k h r) = n" "cl_streamed (admitted_claim e w t n k h r) = 0"
  "cl_stake (admitted_claim e w t n k h r) = sr_amount r" "cl_tier (admitted_claim e w t n k h r) = k"
  "cl_status (admitted_claim e w t n k h r) = (if gate_met e r then AwaitingApproval else PendingTime)"
  "cl_hack_timestamp (admitted_claim e w t n k h r) = h"
  by (simp_all add: admitted_claim_def)

text \<open>The part of the state that admission changes, one day's counters included.\<close>

definition admitted ::
  "env \<Rightarrow> bytes \<Rightarrow> claim \<Rightarrow> stake_record \<Rightarrow> int \<Rightarrow> 'w state \<Rightarrow> 'w state" where
  "admitted e claim_id c r counted s =
     s\<lparr>st_last_entitlement_day := Some (current_day e),
       st_daily_entitlement_total :=
         Some (fst (get_daily_entitlement (current_day e) s) + cl_entitlement c),
       st_daily_claim_count := Some (snd (get_daily_entitlement (current_day e) s) + counted),
       st_total_allocated := Some (get_total_allocated s + cl_entitlement c),
       st_stakes := (st_stakes s)(cl_wallet c \<mapsto>
         r\<lparr>sr_active_claim_id := Some claim_id, sr_reserved_claim_id := None\<rparr>),
       st_claims := (st_claims s)(claim_id \<mapsto> c)\<rparr>"

lemma admit_claim_Ok:
  assumes "admit_claim H e wallet tx cid ent tier hack r cnt s = Ok s'"
  shows "\<exists>lu. (gate_met e r \<longrightarrow> e_seq e + APPROVE_WINDOW_LEDGERS \<le> u32_max) \<and>
     s' = (admitted e cid (admitted_claim e wallet tx ent tier hack r) r (if cnt then 1 else 0) s)
            \<lparr>st_live_until := lu\<rparr>"
proof (cases "get_daily_entitlement (current_day e) s")
  case (Pair de dc)
  with assms show ?thesis
    by (cases "gate_met e r"; cases cnt)
      (auto simp: admit_claim_def ok_simps Let_def admitted_def admitted_claim_def new_claim_def
        gate_met_def get_total_allocated_def set_daily_entitlement_def set_total_allocated_def
        set_stake_def set_claim_def bump_instance_ttl_def touch_def)
qed

end
