(* ===== verification/Claim_Admission.thy ===== *)
theory Claim_Admission
  imports Claim_Core
begin

text \<open>
  Submission, queueing, release and expiry of claims, and revocation of a signed approval
  (\<^verbatim>\<open>contracts/protection-pool/src/claim.rs\<close>). \<open>submit_claim\<close> is split as the source
  reads: the hard checks, the three conditions that queue rather than reject, the queue branch,
  and admission.
\<close>

section \<open>Operations\<close>

text \<open>Every check that rejects, in the order of the source; the stake record on success.\<close>

definition submit_checks ::
  "'w host \<Rightarrow> env \<Rightarrow> address \<Rightarrow> address \<Rightarrow> bytes \<Rightarrow> int \<Rightarrow> int \<Rightarrow> int \<Rightarrow> int \<Rightarrow> bytes \<Rightarrow> 'w state \<Rightarrow>
    stake_record outcome" where
  "submit_checks H e caller wallet tx_hash entitlement tier hack_timestamp deadline signature s =
     and_then (require_not_paused s) (\<lambda>_.
     and_then (get_admin s) (\<lambda>admin.
     and_then (get_oracle s) (\<lambda>oracle.
     if caller \<noteq> oracle \<and> caller \<noteq> admin then Err CallerNotOracleOrAdmin
     else and_then (require_auth e caller) (\<lambda>_.
     if entitlement \<le> 0 then Err EntitlementNotPositive
     else and_then (tier_ratio tier) (\<lambda>_.
     and_then (if caller = oracle
               then verify_oracle_signature H e wallet tx_hash entitlement tier hack_timestamp
                      deadline signature s
               else Ok ()) (\<lambda>_.
     and_then (ok_or (get_stake s wallet) NoStake) (\<lambda>stake_record.
     if sr_amount stake_record \<le> 0 then Err NoActiveStake
     else if sr_withdrawn stake_record then Err AlreadyWithdrawn
     else if sr_suspended stake_record then Err StakeSuspended
     else if sr_active_claim_id stake_record \<noteq> None then Err ClaimAlreadyActiveForStake
     else if sr_reserved_claim_id stake_record \<noteq> None then Err ClaimAlreadyQueued
     else and_then (tier_cap (sr_amount stake_record) tier) (\<lambda>cap.
     if entitlement > cap then Err EntitlementExceedsTierCap
     else
       let now_ts = e_time e in
       if hack_timestamp > now_ts then Err HackTimestampInFuture
       else if hack_timestamp < sr_staked_at_timestamp stake_record then Err HackPredatesStake
       else and_then (add_u64 hack_timestamp CLAIM_WINDOW_SECONDS) (\<lambda>window_end.
       if now_ts > window_end then Err ClaimWindowExpired
       else Ok stake_record)))))))))"

text \<open>Insolvent, stress capped, or the oracle over its daily number of submissions.\<close>

definition cannot_admit_now ::
  "env \<Rightarrow> address \<Rightarrow> int \<Rightarrow> 'w state \<Rightarrow> bool outcome" where
  "cannot_admit_now e caller entitlement s =
     and_then (get_oracle s) (\<lambda>oracle.
     let total_staked = get_total_staked s;
         total_allocated = get_total_allocated s in
     and_then (add_i128 total_allocated entitlement) (\<lambda>needed.
     let insolvent = needed > total_staked;
         day = current_day e;
         (day_entitlement, day_count) = get_daily_entitlement day s in
     and_then (add_i128 day_entitlement entitlement) (\<lambda>day_total.
     and_then (stress_cap s) (\<lambda>cap.
     let stress_capped = day_total > cap;
         is_oracle_caller = (caller = oracle);
         oracle_rate_limited =
           (if is_oracle_caller
            then let limit = max (get_total_stakers s div 10) 1 in day_count \<ge> limit
            else False)
     in Ok (insolvent \<or> stress_capped \<or> oracle_rate_limited)))))"

definition queue_claim ::
  "'w host \<Rightarrow> env \<Rightarrow> address \<Rightarrow> bytes \<Rightarrow> bytes \<Rightarrow> int \<Rightarrow> int \<Rightarrow> int \<Rightarrow> stake_record \<Rightarrow> 'w state \<Rightarrow> 'w state"
  where
  "queue_claim H e wallet tx_hash claim_id entitlement tier hack_timestamp stake_record s =
     (let claim = new_claim wallet tx_hash hack_timestamp entitlement (sr_amount stake_record) tier
                    Reserved;
          s1 = set_stake H e wallet (stake_record\<lparr>sr_reserved_claim_id := Some claim_id\<rparr>) s;
          s2 = set_claim H e claim_id claim s1;
          s3 = bump_instance_ttl H e s2
      in publish (EvClaimQueued wallet claim_id entitlement) s3)"

definition submit_claim ::
  "'w host \<Rightarrow> env \<Rightarrow> address \<Rightarrow> address \<Rightarrow> bytes \<Rightarrow> int \<Rightarrow> int \<Rightarrow> int \<Rightarrow> int \<Rightarrow> bytes \<Rightarrow> 'w state \<Rightarrow>
    (bytes \<times> 'w state) outcome" where
  "submit_claim H e caller wallet tx_hash entitlement tier hack_timestamp deadline signature s =
     and_then (submit_checks H e caller wallet tx_hash entitlement tier hack_timestamp deadline
                 signature s) (\<lambda>stake_record.
     and_then (get_oracle s) (\<lambda>oracle.
     and_then (cannot_admit_now e caller entitlement s) (\<lambda>blocked.
     let claim_id = compute_claim_id H wallet tx_hash in
     if (case get_claim s claim_id of Some existing \<Rightarrow> cl_status existing \<noteq> Unused | None \<Rightarrow> False)
     then Err ClaimAlreadyExists
     else if blocked
     then Ok (claim_id, queue_claim H e wallet tx_hash claim_id entitlement tier hack_timestamp
                stake_record s)
     else
       and_then (admit_claim H e wallet tx_hash claim_id entitlement tier hack_timestamp
                   stake_record (caller = oracle) s) (\<lambda>s1.
       Ok (claim_id, publish (EvClaimSubmitted wallet claim_id entitlement) s1)))))"

definition try_release_queued_claim ::
  "'w host \<Rightarrow> env \<Rightarrow> bytes \<Rightarrow> 'w state \<Rightarrow> (unit \<times> 'w state) outcome" where
  "try_release_queued_claim H e claim_id s =
     and_then (require_not_paused s) (\<lambda>_.
     and_then (ok_or (get_claim s claim_id) NoSuchQueuedClaim) (\<lambda>claim.
     if cl_status claim \<noteq> Reserved then Err NoSuchQueuedClaim
     else and_then (ok_or (get_stake s (cl_wallet claim)) NoStake) (\<lambda>stake_record.
     if (case sr_active_claim_id stake_record of Some active_id \<Rightarrow> active_id \<noteq> claim_id
         | None \<Rightarrow> False)
     then Err WalletHasDifferentActiveClaim
     else
       let total_staked = get_total_staked s;
           total_allocated = get_total_allocated s in
       and_then (add_i128 total_allocated (cl_entitlement claim)) (\<lambda>needed.
       if needed > total_staked then Err QueueReleaseNotYetEligible
       else
         let day = current_day e;
             (day_entitlement, _) = get_daily_entitlement day s in
         and_then (add_i128 day_entitlement (cl_entitlement claim)) (\<lambda>day_total.
         and_then (stress_cap s) (\<lambda>cap.
         if day_total > cap then Err QueueReleaseNotYetEligible
         else
           and_then (admit_claim H e (cl_wallet claim) (cl_tx_hash claim) claim_id
                       (cl_entitlement claim) (cl_tier claim) (cl_hack_timestamp claim)
                       stake_record False s) (\<lambda>s1.
           Ok ((), publish (EvClaimQueueReleased (cl_wallet claim) claim_id) s1))))))))"

definition expire_queued_claim ::
  "'w host \<Rightarrow> env \<Rightarrow> bytes \<Rightarrow> 'w state \<Rightarrow> (unit \<times> 'w state) outcome" where
  "expire_queued_claim H e claim_id s =
     and_then (require_not_paused s) (\<lambda>_.
     and_then (ok_or (get_claim s claim_id) NoSuchQueuedClaim) (\<lambda>claim.
     if cl_status claim \<noteq> Reserved then Err NoSuchQueuedClaim
     else
       let now_ts = e_time e in
       and_then (add_u64 (cl_hack_timestamp claim) CLAIM_WINDOW_SECONDS) (\<lambda>window_end.
       if now_ts \<le> window_end then Err QueueNotYetExpired
       else and_then (ok_or (get_stake s (cl_wallet claim)) NoStake) (\<lambda>stake_record.
         let s1 = set_stake H e (cl_wallet claim)
                    (stake_record\<lparr>sr_reserved_claim_id := None\<rparr>) s;
             s2 = set_claim H e claim_id (claim\<lparr>cl_status := Expired\<rparr>) s1;
             s3 = bump_instance_ttl H e s2
         in Ok ((), publish (EvClaimQueueExpired (cl_wallet claim) claim_id) s3)))))"

definition revoke_approval ::
  "'w host \<Rightarrow> env \<Rightarrow> address \<Rightarrow> address \<Rightarrow> bytes \<Rightarrow> int \<Rightarrow> int \<Rightarrow> int \<Rightarrow> int \<Rightarrow> 'w state \<Rightarrow>
    (unit \<times> 'w state) outcome" where
  "revoke_approval H e caller wallet tx_hash entitlement tier hack_timestamp deadline s =
     and_then (get_admin s) (\<lambda>admin.
     if caller \<noteq> admin then Err CallerNotAdmin
     else and_then (require_auth e admin) (\<lambda>_.
       let now_ts = e_time e in
       if now_ts > deadline then Err SignatureExpired
       else and_then (add_u64 now_ts MAX_APPROVAL_WINDOW_SECONDS) (\<lambda>latest.
       if deadline > latest then Err SignatureDeadlineTooFar
       else
         let payload = build_approval_payload H wallet tx_hash entitlement tier hack_timestamp
                         deadline;
             hash = approval_hash H payload;
             s1 = set_approval_revoked H e hash s
         in Ok ((), publish (EvApprovalRevoked wallet hash) s1))))"

section \<open>What a successful call did\<close>

definition signed_by_oracle ::
  "'w host \<Rightarrow> env \<Rightarrow> address \<Rightarrow> bytes \<Rightarrow> int \<Rightarrow> int \<Rightarrow> int \<Rightarrow> int \<Rightarrow> bytes \<Rightarrow> 'w state \<Rightarrow> bool" where
  "signed_by_oracle H e wallet tx_hash entitlement tier hack_timestamp deadline signature s \<longleftrightarrow>
     is_ok (verify_oracle_signature H e wallet tx_hash entitlement tier hack_timestamp deadline
              signature s)"

lemma submit_checks_Ok:
  assumes "submit_checks H e caller wallet tx ent tier hack dl sig s = Ok r"
  shows "\<exists>admin oracle cap. \<not> is_paused s \<and> st_admin s = Some admin \<and> st_oracle s = Some oracle \<and>
     (caller = oracle \<or> caller = admin) \<and> e_auth e caller \<and> 0 < ent \<and>
     (caller = oracle \<longrightarrow> signed_by_oracle H e wallet tx ent tier hack dl sig s) \<and>
     st_stakes s wallet = Some r \<and> active_stake r \<and> \<not> sr_suspended r \<and>
     sr_active_claim_id r = None \<and> sr_reserved_claim_id r = None \<and>
     tier_cap (sr_amount r) tier = Ok cap \<and> ent \<le> cap \<and>
     sr_staked_at_timestamp r \<le> hack \<and> hack \<le> e_time e \<and> e_time e \<le> hack + CLAIM_WINDOW_SECONDS"
  using assms
  by (cases "st_oracle s = Some caller")
    (auto simp: submit_checks_def ok_simps Let_def get_admin_def get_oracle_def get_stake_def
      active_stake_def signed_by_oracle_def is_ok_iff)

lemma cannot_admit_now_eq_Ok:
  "cannot_admit_now e caller ent s = Ok b \<longleftrightarrow>
     (\<exists>oracle cap. st_oracle s = Some oracle \<and> in_i128 (get_total_allocated s + ent) \<and>
        in_i128 (fst (get_daily_entitlement (current_day e) s) + ent) \<and> stress_cap s = Ok cap \<and>
        b = (get_total_allocated s + ent > get_total_staked s \<or>
             fst (get_daily_entitlement (current_day e) s) + ent > cap \<or>
             caller = oracle \<and>
               max (get_total_stakers s div 10) 1 \<le> snd (get_daily_entitlement (current_day e) s)))"
  by (cases "get_daily_entitlement (current_day e) s")
    (auto simp: cannot_admit_now_def ok_simps Let_def get_oracle_def)

definition queued ::
  "bytes \<Rightarrow> claim \<Rightarrow> stake_record \<Rightarrow> 'w state \<Rightarrow> 'w state" where
  "queued claim_id c r s =
     s\<lparr>st_stakes := (st_stakes s)(cl_wallet c \<mapsto> r\<lparr>sr_reserved_claim_id := Some claim_id\<rparr>),
       st_claims := (st_claims s)(claim_id \<mapsto> c)\<rparr>"

lemma queue_claim_eq:
  "\<exists>lu ev. queue_claim H e wallet tx cid ent tier hack r s =
     (queued cid (new_claim wallet tx hack ent (sr_amount r) tier Reserved) r s)
       \<lparr>st_live_until := lu, st_events := ev\<rparr>"
  by (auto simp: queue_claim_def queued_def Let_def publish_def bump_instance_ttl_def touch_def
      set_stake_def set_claim_def)

lemma submit_claim_Ok:
  assumes "submit_claim H e caller wallet tx ent tier hack dl sig s = Ok (cid, s')"
  shows "\<exists>r blocked oracle lu ev.
     submit_checks H e caller wallet tx ent tier hack dl sig s = Ok r \<and>
     cannot_admit_now e caller ent s = Ok blocked \<and> st_oracle s = Some oracle \<and>
     cid = compute_claim_id H wallet tx \<and>
     (\<forall>c. st_claims s cid = Some c \<longrightarrow> cl_status c = Unused) \<and>
     (if blocked
      then s' = (queued cid (new_claim wallet tx hack ent (sr_amount r) tier Reserved) r s)
                  \<lparr>st_live_until := lu, st_events := ev\<rparr>
      else s' = (admitted e cid (admitted_claim e wallet tx ent tier hack r) r
                   (if caller = oracle then 1 else 0) s)
                  \<lparr>st_live_until := lu, st_events := ev\<rparr>)"
proof -
  from assms obtain r blocked orc where r: "submit_checks H e caller wallet tx ent tier hack dl sig s = Ok r"
    and b: "cannot_admit_now e caller ent s = Ok blocked" and o: "st_oracle s = Some orc"
    by (auto simp: submit_claim_def and_then_eq_Ok get_oracle_def unwrap_eq_Ok)
  from assms have new: "\<forall>c. st_claims s (compute_claim_id H wallet tx) = Some c \<longrightarrow> cl_status c = Unused"
    by (auto simp: submit_claim_def and_then_eq_Ok Let_def get_claim_def split: option.splits if_splits)
  have no: "\<not> (case get_claim s (compute_claim_id H wallet tx) of
      Some existing \<Rightarrow> cl_status existing \<noteq> Unused | None \<Rightarrow> False)"
    using new by (auto simp: get_claim_def split: option.splits)
  show ?thesis
  proof (cases blocked)
    case True
    with assms r b o new no show ?thesis
      using queue_claim_eq [of H e wallet tx cid ent tier hack r s]
      by (auto simp: submit_claim_def get_oracle_def Let_def)
  next
    case False
    with assms r b o no obtain s1 where a: "admit_claim H e wallet tx cid ent tier hack r (caller = orc) s = Ok s1"
      and cid: "cid = compute_claim_id H wallet tx"
      and s': "s' = publish (EvClaimSubmitted wallet cid ent) s1"
      by (auto simp: submit_claim_def get_oracle_def Let_def and_then_eq_Ok)
    from admit_claim_Ok [OF a] obtain lu where "s1 =
        (admitted e cid (admitted_claim e wallet tx ent tier hack r) r (if caller = orc then 1 else 0) s)
          \<lparr>st_live_until := lu\<rparr>"
      by blast
    then have eff: "s' =
        (admitted e cid (admitted_claim e wallet tx ent tier hack r) r (if caller = orc then 1 else 0) s)
          \<lparr>st_live_until := lu, st_events := st_events s1 @ [EvClaimSubmitted wallet cid ent]\<rparr>"
      by (simp add: s' publish_def)
    show ?thesis
      by (intro exI [of _ r] exI [of _ blocked] exI [of _ orc] exI [of _ lu]
          exI [of _ "st_events s1 @ [EvClaimSubmitted wallet cid ent]"] conjI r b o)
        (simp_all add: cid new False eff)
  qed
qed

lemma try_release_queued_claim_Ok:
  assumes "try_release_queued_claim H e cid s = Ok (u, s')"
  shows "\<exists>c r cap lu ev. \<not> is_paused s \<and> st_claims s cid = Some c \<and> cl_status c = Reserved \<and>
     st_stakes s (cl_wallet c) = Some r \<and>
     (sr_active_claim_id r = None \<or> sr_active_claim_id r = Some cid) \<and>
     in_i128 (get_total_allocated s + cl_entitlement c) \<and>
     get_total_allocated s + cl_entitlement c \<le> get_total_staked s \<and> stress_cap s = Ok cap \<and>
     fst (get_daily_entitlement (current_day e) s) + cl_entitlement c \<le> cap \<and>
     s' = (admitted e cid (admitted_claim e (cl_wallet c) (cl_tx_hash c) (cl_entitlement c)
             (cl_tier c) (cl_hack_timestamp c) r) r 0 s)
            \<lparr>st_live_until := lu, st_events := ev\<rparr>"
proof -
  from assms obtain c r cap s1 where pre: "\<not> is_paused s" "st_claims s cid = Some c"
      "cl_status c = Reserved" "st_stakes s (cl_wallet c) = Some r"
      "sr_active_claim_id r = None \<or> sr_active_claim_id r = Some cid"
      "in_i128 (get_total_allocated s + cl_entitlement c)"
      "get_total_allocated s + cl_entitlement c \<le> get_total_staked s" "stress_cap s = Ok cap"
      "fst (get_daily_entitlement (current_day e) s) + cl_entitlement c \<le> cap"
    and a: "admit_claim H e (cl_wallet c) (cl_tx_hash c) cid (cl_entitlement c) (cl_tier c)
      (cl_hack_timestamp c) r False s = Ok s1"
    and s': "s' = publish (EvClaimQueueReleased (cl_wallet c) cid) s1"
    by (cases "get_daily_entitlement (current_day e) s")
      (clarsimp simp: try_release_queued_claim_def ok_simps Let_def get_claim_def get_stake_def,
        rule that, (assumption | rule refl | auto simp: not_less split: option.splits)+)
  from admit_claim_Ok [OF a] s' have "\<exists>lu ev. s' =
      (admitted e cid (admitted_claim e (cl_wallet c) (cl_tx_hash c) (cl_entitlement c) (cl_tier c)
         (cl_hack_timestamp c) r) r 0 s)\<lparr>st_live_until := lu, st_events := ev\<rparr>"
    by (auto simp: publish_def)
  with pre show ?thesis by blast
qed

lemma expire_queued_claim_Ok:
  assumes "expire_queued_claim H e cid s = Ok (u, s')"
  shows "\<exists>c r lu ev. \<not> is_paused s \<and> st_claims s cid = Some c \<and> cl_status c = Reserved \<and>
     cl_hack_timestamp c + CLAIM_WINDOW_SECONDS < e_time e \<and> st_stakes s (cl_wallet c) = Some r \<and>
     s' = s\<lparr>st_stakes := (st_stakes s)(cl_wallet c \<mapsto> r\<lparr>sr_reserved_claim_id := None\<rparr>),
            st_claims := (st_claims s)(cid \<mapsto> c\<lparr>cl_status := Expired\<rparr>),
            st_live_until := lu, st_events := ev\<rparr>"
  using assms
  by (auto simp: expire_queued_claim_def ok_simps Let_def get_claim_def get_stake_def publish_def
      bump_instance_ttl_def touch_def set_stake_def set_claim_def)
    (intro exI, rule state.equality, simp_all)

lemma revoke_approval_Ok:
  assumes "revoke_approval H e caller wallet tx ent tier hack dl s = Ok (u, s')"
  shows "\<exists>h ev. st_admin s = Some caller \<and> e_auth e caller \<and> e_time e \<le> dl \<and>
     dl \<le> e_time e + MAX_APPROVAL_WINDOW_SECONDS \<and>
     h = approval_hash H (build_approval_payload H wallet tx ent tier hack dl) \<and>
     s' = s\<lparr>st_revoked := (st_revoked s)(h \<mapsto> True),
            st_live_until := touched e (h_min_temporary_ttl H) (EntryTtl (KeyRevokedApproval h))
              REVOCATION_TTL_LEDGERS REVOCATION_TTL_LEDGERS (st_live_until s),
            st_events := ev\<rparr>"
  using assms
  by (auto simp: revoke_approval_def ok_simps Let_def get_admin_def set_approval_revoked_def
      publish_def touch_def)

end
