(* ===== verification/Claim_Lifecycle.thy ===== *)
theory Claim_Lifecycle
  imports Claim_Core
begin

text \<open>
  The life of an admitted claim (\<^verbatim>\<open>contracts/protection-pool/src/claim.rs\<close>): the time
  gate, the staker's approval, the two sweeps, streaming, and the admin's cancellation.
\<close>

section \<open>Operations\<close>

definition unlock_pending_claim ::
  "'w host \<Rightarrow> env \<Rightarrow> bytes \<Rightarrow> 'w state \<Rightarrow> (unit \<times> 'w state) outcome" where
  "unlock_pending_claim H e claim_id s =
     and_then (require_not_paused s) (\<lambda>_.
     and_then (ok_or (get_claim s claim_id) NoSuchClaim) (\<lambda>claim.
     if cl_status claim \<noteq> PendingTime then Err ClaimNotPending
     else and_then (ok_or (get_stake s (cl_wallet claim)) NoStake) (\<lambda>stake_record.
       let now_ledger = e_seq e in
       and_then (add_u32 (sr_staked_at_ledger stake_record) TIME_GATE_LEDGERS) (\<lambda>gate.
       if now_ledger < gate then Err TimeGateNotMet
       else and_then (add_u32 now_ledger APPROVE_WINDOW_LEDGERS) (\<lambda>deadline.
         let claim1 = claim\<lparr>cl_status := AwaitingApproval, cl_approve_deadline_ledger := deadline\<rparr>;
             s1 = bump_instance_ttl H e (set_claim H e claim_id claim1 s)
         in Ok ((), publish (EvClaimUnlocked (cl_wallet claim) claim_id) s1))))))"

definition approve_claim ::
  "'w host \<Rightarrow> env \<Rightarrow> bytes \<Rightarrow> 'w state \<Rightarrow> (unit \<times> 'w state) outcome" where
  "approve_claim H e claim_id s =
     and_then (require_not_paused s) (\<lambda>_.
     and_then (ok_or (get_claim s claim_id) NoSuchClaim) (\<lambda>claim.
     and_then (require_auth e (cl_wallet claim)) (\<lambda>_.
     if cl_status claim \<noteq> AwaitingApproval then Err ClaimNotAwaitingApproval
     else if e_seq e > cl_approve_deadline_ledger claim then Err ApprovalWindowExpired
     else and_then (ok_or (get_stake s (cl_wallet claim)) NoStake) (\<lambda>stake_record.
     if sr_suspended stake_record then Err StakeSuspended
     else and_then (activate_claim H e stake_record claim s)
       (\<lambda>((points_burned, stake_record1, claim1), s1).
       let s2 = set_stake H e (cl_wallet claim) stake_record1 s1;
           s3 = set_claim H e claim_id claim1 s2;
           s4 = bump_instance_ttl H e s3
       in Ok ((), publish (EvClaimApproved (cl_wallet claim) claim_id points_burned) s4))))))"

definition expire_pending_approval ::
  "'w host \<Rightarrow> env \<Rightarrow> bytes \<Rightarrow> 'w state \<Rightarrow> (unit \<times> 'w state) outcome" where
  "expire_pending_approval H e claim_id s =
     and_then (ok_or (get_claim s claim_id) NoSuchClaim) (\<lambda>claim.
     if cl_status claim \<noteq> AwaitingApproval then Err ClaimNotAwaitingApproval
     else and_then (ok_or (get_stake s (cl_wallet claim)) NoStake) (\<lambda>stake_record.
     if sr_suspended stake_record then Err StakeSuspended
     else if e_seq e \<le> cl_approve_deadline_ledger claim then Err ApprovalWindowNotExpired
     else
       let total_allocated = get_total_allocated s;
           s1 = set_total_allocated
                  (saturating_sub_i128 total_allocated (cl_entitlement claim)) s;
           s2 = set_stake H e (cl_wallet claim) (stake_record\<lparr>sr_active_claim_id := None\<rparr>) s1;
           s3 = set_claim H e claim_id (claim\<lparr>cl_status := Expired\<rparr>) s2;
           s4 = bump_instance_ttl H e s3
       in Ok ((), publish (EvClaimExpired (cl_wallet claim) claim_id (cl_entitlement claim)) s4)))"

definition expire_stale_claim ::
  "'w host \<Rightarrow> env \<Rightarrow> bytes \<Rightarrow> 'w state \<Rightarrow> (unit \<times> 'w state) outcome" where
  "expire_stale_claim H e claim_id s =
     and_then (ok_or (get_claim s claim_id) NoSuchClaim) (\<lambda>claim.
     if cl_status claim \<noteq> Active then Err ClaimNotActive
     else if cl_streamed claim \<ge> cl_entitlement claim then Err ClaimFullyStreamed
     else and_then (ok_or (get_stake s (cl_wallet claim)) NoStake) (\<lambda>stake_record.
     if sr_suspended stake_record then Err StakeSuspended
     else if saturating_sub_u32 (e_seq e) (cl_last_collected_ledger claim)
               \<le> COLLECTION_INACTIVITY_LEDGERS then Err ClaimNotStale
     else and_then (sub_i128 (cl_entitlement claim) (cl_streamed claim)) (\<lambda>remaining.
       let total_allocated = get_total_allocated s;
           s1 = set_total_allocated (saturating_sub_i128 total_allocated remaining) s;
           s2 = set_stake H e (cl_wallet claim) (stake_record\<lparr>sr_active_claim_id := None\<rparr>) s1;
           s3 = set_claim H e claim_id (claim\<lparr>cl_status := Expired\<rparr>) s2;
           s4 = bump_instance_ttl H e s3
       in Ok ((), publish (EvClaimExpired (cl_wallet claim) claim_id remaining) s4))))"

definition vested_total :: "env \<Rightarrow> claim \<Rightarrow> int outcome" where
  "vested_total e claim =
     (let elapsed_end = min (e_seq e) (cl_vesting_ends_ledger claim);
          elapsed = saturating_sub_u32 elapsed_end (cl_cooldown_ends_ledger claim)
      in mul_div_i128 (cl_entitlement claim) elapsed VESTING_LEDGERS)"

text \<open>What the daily outflow cap leaves for this claim today.\<close>

definition available_today :: "env \<Rightarrow> claim \<Rightarrow> 'w state \<Rightarrow> int outcome" where
  "available_today e claim s =
     (let daily_outflow_so_far = get_daily_outflow (current_day e) s;
          cap_base = max (get_total_staked s) (cl_total_staked_snapshot claim) in
      and_then (dynamic_outflow_bps cap_base s) (\<lambda>bps.
      and_then (mul_div_i128 cap_base bps BPS_DENOMINATOR) (\<lambda>cap.
      Ok (saturating_sub_i128 cap daily_outflow_so_far))))"

text \<open>The claim record after a collection that brings the streamed total to \<open>streamed\<close>.\<close>

definition collected :: "env \<Rightarrow> int \<Rightarrow> claim \<Rightarrow> claim" where
  "collected e streamed claim =
     (let claim1 = claim\<lparr>cl_streamed := streamed, cl_last_collected_ledger := e_seq e\<rparr>
      in if cl_streamed claim1 \<ge> cl_entitlement claim1 then claim1\<lparr>cl_status := Completed\<rparr>
         else claim1)"

lemma collected_simps [simp]:
  "cl_wallet (collected e t c) = cl_wallet c" "cl_tx_hash (collected e t c) = cl_tx_hash c"
  "cl_entitlement (collected e t c) = cl_entitlement c" "cl_stake (collected e t c) = cl_stake c"
  "cl_tier (collected e t c) = cl_tier c" "cl_hack_timestamp (collected e t c) = cl_hack_timestamp c"
  "cl_cooldown_ends_ledger (collected e t c) = cl_cooldown_ends_ledger c"
  "cl_vesting_ends_ledger (collected e t c) = cl_vesting_ends_ledger c"
  "cl_total_staked_snapshot (collected e t c) = cl_total_staked_snapshot c"
  "cl_streamed (collected e t c) = t" "cl_last_collected_ledger (collected e t c) = e_seq e"
  "cl_status (collected e t c) = (if t \<ge> cl_entitlement c then Completed else cl_status c)"
  by (simp_all add: collected_def Let_def)

text \<open>The liquidity check, the accounting writes and the transfer of one collection.\<close>

definition pay_stream ::
  "'w host \<Rightarrow> env \<Rightarrow> bytes \<Rightarrow> claim \<Rightarrow> address \<Rightarrow> int \<Rightarrow> 'w state \<Rightarrow> (int \<times> 'w state) outcome" where
  "pay_stream H e claim_id claim beneficiary transfer_amount s =
     and_then (require_liquidity H transfer_amount s) (\<lambda>_.
     and_then (add_i128 (cl_streamed claim) transfer_amount) (\<lambda>streamed.
     let claim1 = collected e streamed claim;
         day = current_day e;
         daily_outflow_so_far = get_daily_outflow day s;
         s1 = set_total_allocated
                (saturating_sub_i128 (get_total_allocated s) transfer_amount) s in
     and_then (add_i128 daily_outflow_so_far transfer_amount) (\<lambda>outflow.
     let s2 = set_daily_outflow day outflow s1;
         s3 = set_claim H e claim_id claim1 s2;
         s4 = bump_instance_ttl H e s3;
         s5 = publish (EvClaimStreamed (cl_wallet claim) transfer_amount) s4 in
     and_then (get_xlm_token s5) (\<lambda>token.
     and_then (token_transfer H token (h_self H) beneficiary transfer_amount s5) (\<lambda>s6.
     Ok (transfer_amount, s6))))))"

definition claim_stream ::
  "'w host \<Rightarrow> env \<Rightarrow> bytes \<Rightarrow> address \<Rightarrow> 'w state \<Rightarrow> (int \<times> 'w state) outcome" where
  "claim_stream H e claim_id beneficiary s =
     and_then (require_not_paused s) (\<lambda>_.
     and_then (ok_or (get_claim s claim_id) NoSuchClaim) (\<lambda>claim.
     and_then (require_auth e (cl_wallet claim)) (\<lambda>_.
     if cl_status claim \<noteq> Active then Err ClaimNotActive
     else if e_seq e < cl_cooldown_ends_ledger claim then Err CooldownNotPassed
     else if cl_streamed claim \<ge> cl_entitlement claim then Err ClaimFullyStreamed
     else and_then (ok_or (get_stake s (cl_wallet claim)) NoStake) (\<lambda>stake_record.
     if sr_suspended stake_record then Err StakeSuspended
     else if address_hash H beneficiary \<noteq> sr_beneficiary_hash stake_record
     then Err WrongBeneficiary
     else and_then (vested_total e claim) (\<lambda>vested.
     and_then (sub_i128 vested (cl_streamed claim)) (\<lambda>claimable.
     if claimable \<le> 0 then Err NothingVested
     else and_then (available_today e claim s) (\<lambda>available.
     let transfer_amount = min claimable available in
     if transfer_amount \<le> 0 then Err DailyOutflowCapReached
     else pay_stream H e claim_id claim beneficiary transfer_amount s)))))))"

definition cancel_claim ::
  "'w host \<Rightarrow> env \<Rightarrow> bytes \<Rightarrow> 'w state \<Rightarrow> (unit \<times> 'w state) outcome" where
  "cancel_claim H e claim_id s =
     and_then (get_admin s) (\<lambda>admin.
     and_then (require_auth e admin) (\<lambda>_.
     and_then (ok_or (get_claim s claim_id) NoSuchClaim) (\<lambda>claim.
     if cl_status claim \<noteq> Active \<and> cl_status claim \<noteq> PendingTime \<and>
        cl_status claim \<noteq> AwaitingApproval
     then Err ClaimNotCancellable
     else and_then (sub_i128 (cl_entitlement claim) (cl_streamed claim)) (\<lambda>unstreamed.
     let s1 = set_total_allocated (saturating_sub_i128 (get_total_allocated s) unstreamed) s in
     and_then (ok_or (get_stake s1 (cl_wallet claim)) NoStake) (\<lambda>stake_record.
     and_then
       (if cl_status claim = Active
        then and_then (add_u32 (e_seq e) PENALTY_LOCK_LEDGERS) (\<lambda>lock.
             and_then (add_i128 (get_total_staked s1) (cl_stake claim)) (\<lambda>staked.
             and_then (add_u32 (get_total_stakers s1) 1) (\<lambda>stakers.
             Ok (stake_record\<lparr>sr_withdrawn := False, sr_penalty_locked_until_ledger := lock\<rparr>,
                 set_total_stakers stakers (set_total_staked staked s1)))))
        else Ok (stake_record, s1)) (\<lambda>(stake_record1, s2).
     let s3 = set_stake H e (cl_wallet claim) (stake_record1\<lparr>sr_active_claim_id := None\<rparr>) s2;
         s4 = set_claim H e claim_id (claim\<lparr>cl_status := Cancelled\<rparr>) s3;
         s5 = bump_instance_ttl H e s4
     in Ok ((), publish (EvClaimCancelled (cl_wallet claim) claim_id) s5)))))))"

section \<open>What a successful call did\<close>

lemma unlock_pending_claim_Ok:
  assumes "unlock_pending_claim H e cid s = Ok (u, s')"
  shows "\<exists>c r lu ev. \<not> is_paused s \<and> st_claims s cid = Some c \<and> cl_status c = PendingTime \<and>
     st_stakes s (cl_wallet c) = Some r \<and> sr_staked_at_ledger r + TIME_GATE_LEDGERS \<le> e_seq e \<and>
     s' = s\<lparr>st_claims := (st_claims s)(cid \<mapsto> c\<lparr>cl_status := AwaitingApproval,
              cl_approve_deadline_ledger := e_seq e + APPROVE_WINDOW_LEDGERS\<rparr>),
            st_live_until := lu, st_events := ev\<rparr>"
  using assms
  by (auto simp: unlock_pending_claim_def ok_simps Let_def get_claim_def get_stake_def
      set_claim_def bump_instance_ttl_def touch_def publish_def)
    (intro exI, rule refl)+

definition activated :: "env \<Rightarrow> bytes \<Rightarrow> claim \<Rightarrow> stake_record \<Rightarrow> 'w state \<Rightarrow> 'w state" where
  "activated e claim_id c r s =
     (forfeited (cl_wallet c) (sr_amount r) s)
       \<lparr>st_stakes := (st_stakes s)(cl_wallet c \<mapsto> r\<lparr>sr_withdrawn := True\<rparr>),
        st_claims := (st_claims s)(claim_id \<mapsto>
          activated_claim e (get_total_staked s) (sr_amount r) c)\<rparr>"

lemma approve_claim_Ok:
  assumes "approve_claim H e cid s = Ok (u, s')"
  shows "\<exists>c r points lu ev. \<not> is_paused s \<and> st_claims s cid = Some c \<and> e_auth e (cl_wallet c) \<and>
     cl_status c = AwaitingApproval \<and> e_seq e \<le> cl_approve_deadline_ledger c \<and>
     st_stakes s (cl_wallet c) = Some r \<and> \<not> sr_suspended r \<and>
     compute_points_for_record e r s = Ok points \<and>
     s' = (activated e cid c r s)\<lparr>st_live_until := lu, st_events := ev\<rparr>"
proof -
  from assms obtain c r burned r' c' s1 where pre: "\<not> is_paused s" "st_claims s cid = Some c"
      "e_auth e (cl_wallet c)" "cl_status c = AwaitingApproval"
      "e_seq e \<le> cl_approve_deadline_ledger c" "st_stakes s (cl_wallet c) = Some r"
      "\<not> sr_suspended r"
    and a: "activate_claim H e r c s = Ok ((burned, r', c'), s1)"
    and s': "s' = publish (EvClaimApproved (cl_wallet c) cid burned)
      (bump_instance_ttl H e (set_claim H e cid c' (set_stake H e (cl_wallet c) r' s1)))"
    by (auto simp: approve_claim_def ok_simps Let_def get_claim_def get_stake_def)
  from activate_claim_Ok [OF a] obtain points lu where
    p: "compute_points_for_record e r s = Ok points"
    and r': "r' = r\<lparr>sr_withdrawn := True\<rparr>"
    and c': "c' = activated_claim e (get_total_staked s) (sr_amount r) c"
    and s1: "s1 = (forfeited (cl_wallet c) (sr_amount r) s)\<lparr>st_live_until := lu\<rparr>"
    by blast
  have "s' = (activated e cid c r s)\<lparr>st_live_until := st_live_until s', st_events := st_events s'\<rparr>"
    by (rule state.equality)
      (simp_all add: s' s1 r' c' activated_def forfeited_def publish_def bump_instance_ttl_def
        touch_def set_claim_def set_stake_def)
  with pre p show ?thesis by blast
qed

text \<open>The release of a reservation, shared by the sweeps and by cancellation.\<close>

definition released ::
  "bytes \<Rightarrow> claim \<Rightarrow> claim_status \<Rightarrow> stake_record \<Rightarrow> int \<Rightarrow> 'w state \<Rightarrow> 'w state" where
  "released claim_id c status r amount s =
     s\<lparr>st_total_allocated := Some (saturating_sub_i128 (get_total_allocated s) amount),
       st_stakes := (st_stakes s)(cl_wallet c \<mapsto> r\<lparr>sr_active_claim_id := None\<rparr>),
       st_claims := (st_claims s)(claim_id \<mapsto> c\<lparr>cl_status := status\<rparr>)\<rparr>"

lemma expire_pending_approval_Ok:
  assumes "expire_pending_approval H e cid s = Ok (u, s')"
  shows "\<exists>c r lu ev. st_claims s cid = Some c \<and> cl_status c = AwaitingApproval \<and>
     st_stakes s (cl_wallet c) = Some r \<and> \<not> sr_suspended r \<and>
     cl_approve_deadline_ledger c < e_seq e \<and>
     s' = (released cid c Expired r (cl_entitlement c) s)\<lparr>st_live_until := lu, st_events := ev\<rparr>"
  using assms
  by (auto simp: expire_pending_approval_def ok_simps Let_def get_claim_def get_stake_def
      set_claim_def set_stake_def set_total_allocated_def bump_instance_ttl_def touch_def publish_def
      released_def)
    (intro exI, rule state.equality, simp_all)

lemma expire_stale_claim_Ok:
  assumes "expire_stale_claim H e cid s = Ok (u, s')"
  shows "\<exists>c r lu ev. st_claims s cid = Some c \<and> cl_status c = Active \<and>
     cl_streamed c < cl_entitlement c \<and> st_stakes s (cl_wallet c) = Some r \<and> \<not> sr_suspended r \<and>
     COLLECTION_INACTIVITY_LEDGERS < saturating_sub_u32 (e_seq e) (cl_last_collected_ledger c) \<and>
     s' = (released cid c Expired r (cl_entitlement c - cl_streamed c) s)
            \<lparr>st_live_until := lu, st_events := ev\<rparr>"
  using assms
  by (auto simp: expire_stale_claim_def ok_simps Let_def get_claim_def get_stake_def
      set_claim_def set_stake_def set_total_allocated_def bump_instance_ttl_def touch_def publish_def
      released_def)
    (intro exI, rule state.equality, simp_all)

lemma read_through_writes [storage_simps]:
  "get_xlm_token (publish ev s) = get_xlm_token s"
  "get_xlm_token (bump_instance_ttl H e s) = get_xlm_token s"
  "get_xlm_token (set_claim H e k c s) = get_xlm_token s"
  "get_xlm_token (set_daily_outflow d v s) = get_xlm_token s"
  "get_xlm_token (set_total_allocated v s) = get_xlm_token s"
  "st_world (publish ev s) = st_world s"
  "st_world (bump_instance_ttl H e s) = st_world s"
  "st_world (set_claim H e k c s) = st_world s"
  "st_world (set_daily_outflow d v s) = st_world s"
  "st_world (set_total_allocated v s) = st_world s"
  by (simp_all add: get_xlm_token_def write_defs)

lemma get_xlm_token_eq_Ok: "get_xlm_token s = Ok t \<longleftrightarrow> st_xlm_token s = Some t"
  by (simp add: get_xlm_token_def unwrap_eq_Ok)

text \<open>The part of the state that a collection of \<open>amount\<close> changes.\<close>

definition streamed_to :: "env \<Rightarrow> bytes \<Rightarrow> claim \<Rightarrow> int \<Rightarrow> 'w state \<Rightarrow> 'w state" where
  "streamed_to e claim_id c amount s =
     s\<lparr>st_total_allocated := Some (saturating_sub_i128 (get_total_allocated s) amount),
       st_last_outflow_day := Some (current_day e),
       st_daily_outflow := Some (get_daily_outflow (current_day e) s + amount),
       st_claims := (st_claims s)(claim_id \<mapsto> collected e (cl_streamed c + amount) c)\<rparr>"

lemma pay_stream_Ok:
  assumes "pay_stream H e cid c b amount s = Ok (x, s')"
  shows "\<exists>token w lu ev. x = amount \<and> st_xlm_token s = Some token \<and>
     amount \<le> h_token_balance H (st_world s) token (h_self H) \<and>
     h_token_transfer H (st_world s) token (h_self H) b amount = Some w \<and>
     s' = (streamed_to e cid c amount s)\<lparr>st_live_until := lu, st_events := ev, st_world := w\<rparr>"
proof -
  from assms have "\<exists>token w. x = amount \<and> st_xlm_token s = Some token \<and>
    amount \<le> h_token_balance H (st_world s) token (h_self H) \<and>
    h_token_transfer H (st_world s) token (h_self H) b amount = Some w \<and>
    s' = (publish (EvClaimStreamed (cl_wallet c) amount) (bump_instance_ttl H e
      (set_claim H e cid (collected e (cl_streamed c + amount) c)
        (set_daily_outflow (current_day e) (get_daily_outflow (current_day e) s + amount)
          (set_total_allocated (saturating_sub_i128 (get_total_allocated s) amount) s)))))
      \<lparr>st_world := w\<rparr>"
    by (simp only: pay_stream_def and_then_eq_Ok add_i128_eq_Ok token_transfer_eq_Ok
        require_liquidity_eq_Ok Let_def storage_simps get_xlm_token_eq_Ok outcome.inject prod.inject)
      (elim exE conjE, hypsubst, intro exI conjI, (assumption | simp only: option.inject)+)
  then obtain token w where am: "x = amount" and t: "st_xlm_token s = Some token"
    and liq: "amount \<le> h_token_balance H (st_world s) token (h_self H)"
    and w: "h_token_transfer H (st_world s) token (h_self H) b amount = Some w"
    and s': "s' = (publish (EvClaimStreamed (cl_wallet c) amount) (bump_instance_ttl H e
      (set_claim H e cid (collected e (cl_streamed c + amount) c)
        (set_daily_outflow (current_day e) (get_daily_outflow (current_day e) s + amount)
          (set_total_allocated (saturating_sub_i128 (get_total_allocated s) amount) s)))))
      \<lparr>st_world := w\<rparr>"
    by blast
  have "s' = (streamed_to e cid c amount s)
      \<lparr>st_live_until := st_live_until s', st_events := st_events s', st_world := w\<rparr>"
    by (rule state.equality)
      (simp_all add: s' streamed_to_def publish_def bump_instance_ttl_def touch_def
        set_claim_def set_daily_outflow_def set_total_allocated_def)
  with am t liq w show ?thesis by blast
qed

lemma claim_stream_Ok:
  assumes "claim_stream H e cid b s = Ok (amount, s')"
  shows "\<exists>c r vested available token w lu ev.
     \<not> is_paused s \<and> st_claims s cid = Some c \<and> e_auth e (cl_wallet c) \<and> cl_status c = Active \<and>
     cl_cooldown_ends_ledger c \<le> e_seq e \<and> cl_streamed c < cl_entitlement c \<and>
     st_stakes s (cl_wallet c) = Some r \<and> \<not> sr_suspended r \<and>
     address_hash H b = sr_beneficiary_hash r \<and>
     vested_total e c = Ok vested \<and> available_today e c s = Ok available \<and>
     amount = min (vested - cl_streamed c) available \<and> 0 < amount \<and>
     st_xlm_token s = Some token \<and> amount \<le> h_token_balance H (st_world s) token (h_self H) \<and>
     h_token_transfer H (st_world s) token (h_self H) b amount = Some w \<and>
     s' = (streamed_to e cid c amount s)\<lparr>st_live_until := lu, st_events := ev, st_world := w\<rparr>"
proof -
  from assms obtain c r vested available where
    pre: "\<not> is_paused s" "st_claims s cid = Some c" "e_auth e (cl_wallet c)" "cl_status c = Active"
      "cl_cooldown_ends_ledger c \<le> e_seq e" "cl_streamed c < cl_entitlement c"
      "st_stakes s (cl_wallet c) = Some r" "\<not> sr_suspended r"
      "address_hash H b = sr_beneficiary_hash r"
      "vested_total e c = Ok vested" "available_today e c s = Ok available"
      "0 < min (vested - cl_streamed c) available"
    and p: "pay_stream H e cid c b (min (vested - cl_streamed c) available) s = Ok (amount, s')"
    by (clarsimp simp: claim_stream_def and_then_eq_Ok ok_or_eq_Ok if_Err_eq_Ok sub_i128_eq_Ok
        require_not_paused_eq_Ok require_auth_eq_Ok Let_def get_claim_def get_stake_def)
  from pay_stream_Ok [OF p] pre show ?thesis by auto
qed

text \<open>The state after a cancellation, for a forfeited stake and for an untouched one.\<close>

definition cancelled :: "env \<Rightarrow> bytes \<Rightarrow> claim \<Rightarrow> stake_record \<Rightarrow> 'w state \<Rightarrow> 'w state" where
  "cancelled e claim_id c r s =
     (if cl_status c = Active
      then (released claim_id c Cancelled
             (r\<lparr>sr_withdrawn := False,
                sr_penalty_locked_until_ledger := e_seq e + PENALTY_LOCK_LEDGERS\<rparr>)
             (cl_entitlement c - cl_streamed c) s)
             \<lparr>st_total_staked := Some (get_total_staked s + cl_stake c),
              st_total_stakers := Some (get_total_stakers s + 1)\<rparr>
      else released claim_id c Cancelled r (cl_entitlement c - cl_streamed c) s)"

lemma cancel_claim_Ok:
  assumes "cancel_claim H e cid s = Ok (u, s')"
  shows "\<exists>admin c r lu ev. st_admin s = Some admin \<and> e_auth e admin \<and> st_claims s cid = Some c \<and>
     cl_status c \<in> {Active, PendingTime, AwaitingApproval} \<and> st_stakes s (cl_wallet c) = Some r \<and>
     s' = (cancelled e cid c r s)\<lparr>st_live_until := lu, st_events := ev\<rparr>"
proof -
  from assms obtain c where c: "st_claims s cid = Some c"
    by (auto simp: cancel_claim_def ok_simps get_claim_def)
  show ?thesis
  proof (cases "cl_status c = Active")
    case True
    with assms c show ?thesis
      by (auto simp: cancel_claim_def ok_simps Let_def get_admin_def get_claim_def get_stake_def
          set_claim_def set_stake_def set_total_allocated_def set_total_staked_def
          set_total_stakers_def get_total_staked_def get_total_stakers_def bump_instance_ttl_def
          touch_def publish_def released_def cancelled_def)
        (intro exI, rule state.equality, simp_all)
  next
    case False
    with assms c show ?thesis
      by (auto simp: cancel_claim_def ok_simps Let_def get_admin_def get_claim_def get_stake_def
          set_claim_def set_stake_def set_total_allocated_def set_total_staked_def
          set_total_stakers_def bump_instance_ttl_def touch_def publish_def released_def
          cancelled_def)
  qed
qed

end
