(* ===== verification/Claim_Override.thy ===== *)
theory Claim_Override
  imports Claim_Core
begin

text \<open>
  The 2-of-2 override of \<^verbatim>\<open>contracts/protection-pool/src/claim.rs\<close>: the admin and the
  co-signer each approve the same terms once; the second approval executes. \<open>execute_override\<close>
  follows the source's blocks: release of the prior claim's reservation, the checks, the new
  claim record, and activation.
\<close>

section \<open>Operations\<close>

definition live_status :: "claim_status \<Rightarrow> bool" where
  "live_status st \<longleftrightarrow> st = Active \<or> st = PendingTime \<or> st = AwaitingApproval"

text \<open>
  A completed claim refuses the override; a live one gives its reservation back, and an active
  one hands its streamed amount on.
\<close>

definition release_prior :: "claim option \<Rightarrow> 'w state \<Rightarrow> (int \<times> 'w state) outcome" where
  "release_prior existing s =
     (case existing of
        None \<Rightarrow> Ok (0, s)
      | Some c \<Rightarrow>
          if cl_status c = Completed then Err ClaimAlreadyCompleted
          else
            and_then
              (if live_status (cl_status c)
               then and_then (sub_i128 (cl_entitlement c) (cl_streamed c)) (\<lambda>unstreamed.
                    Ok (set_total_allocated
                          (saturating_sub_i128 (get_total_allocated s) unstreamed) s))
               else Ok s) (\<lambda>s1.
            let carried_streamed = (if cl_status c = Active then cl_streamed c else 0)
            in Ok (carried_streamed, s1)))"

definition override_claim :: "env \<Rightarrow> override_request \<Rightarrow> int \<Rightarrow> int \<Rightarrow> claim" where
  "override_claim e req carried_streamed stake_amount =
     (new_claim (ov_wallet req) (ov_tx_hash req) (e_time e) (ov_entitlement req) stake_amount
        (ov_tier req) Active)\<lparr>cl_streamed := carried_streamed\<rparr>"

text \<open>
  A stake that is not forfeited yet is activated; a re-execution only restarts the clocks and
  burns nothing.
\<close>

definition activate_override ::
  "'w host \<Rightarrow> env \<Rightarrow> stake_record \<Rightarrow> claim \<Rightarrow> 'w state \<Rightarrow>
    ((int \<times> stake_record \<times> claim) \<times> 'w state) outcome" where
  "activate_override H e stake_record claim s =
     (if \<not> sr_withdrawn stake_record then activate_claim H e stake_record claim s
      else
        let now_ledger = e_seq e in
        and_then (add_u32 now_ledger COOLDOWN_LEDGERS) (\<lambda>cooldown_ends.
        and_then (add_u32 cooldown_ends VESTING_LEDGERS) (\<lambda>vesting_ends.
        Ok ((0, stake_record,
             claim\<lparr>cl_cooldown_ends_ledger := cooldown_ends, cl_vesting_ends_ledger := vesting_ends,
               cl_total_staked_snapshot := get_total_staked s,
               cl_last_collected_ledger := cooldown_ends\<rparr>), s))))"

definition execute_override ::
  "'w host \<Rightarrow> env \<Rightarrow> bytes \<Rightarrow> override_request \<Rightarrow> 'w state \<Rightarrow> 'w state outcome" where
  "execute_override H e claim_id req s =
     and_then (release_prior (get_claim s claim_id) s) (\<lambda>(carried_streamed, s1).
     and_then (ok_or (get_stake s1 (ov_wallet req)) NoStake) (\<lambda>stake_record.
     if (case sr_active_claim_id stake_record of Some active_id \<Rightarrow> active_id \<noteq> claim_id
         | None \<Rightarrow> False)
     then Err WalletHasDifferentActiveClaim
     else
       let original_stake_amount = sr_amount stake_record in
       if original_stake_amount \<le> 0 then Err NoStakeAmountForOverride
       else and_then (tier_cap original_stake_amount (ov_tier req)) (\<lambda>cap.
       if ov_entitlement req > cap then Err EntitlementExceedsTierCap
       else
         let total_staked = get_total_staked s1 in
         and_then (if sr_withdrawn stake_record then add_i128 total_staked original_stake_amount
                   else Ok total_staked) (\<lambda>effective_total_staked.
         let total_allocated = get_total_allocated s1 in
         and_then (add_i128 total_allocated (ov_entitlement req)) (\<lambda>allocated.
         if allocated > effective_total_staked then Err Insolvent
         else
           let s2 = set_total_allocated allocated s1;
               claim = override_claim e req carried_streamed original_stake_amount in
           and_then (activate_override H e stake_record claim s2)
             (\<lambda>((points_burned, stake_record1, claim1), s3).
           let stake_record2 = stake_record1\<lparr>sr_active_claim_id := Some claim_id\<rparr>;
               stake_record3 =
                 (if sr_reserved_claim_id stake_record2 = Some claim_id
                  then stake_record2\<lparr>sr_reserved_claim_id := None\<rparr> else stake_record2);
               s4 = set_stake H e (ov_wallet req) stake_record3 s3;
               s5 = set_claim H e claim_id claim1 s4;
               s6 = bump_instance_ttl H e s5
           in Ok (publish (EvOverrideExecuted (ov_wallet req) claim_id points_burned) s6)))))))"

text \<open>The request after the caller's approval is recorded.\<close>

definition record_approval ::
  "address \<Rightarrow> address \<Rightarrow> address \<Rightarrow> override_request \<Rightarrow> override_request" where
  "record_approval caller admin co_signer req =
     (let req1 = (if caller = admin then req\<lparr>ov_owner_approver := Some admin\<rparr> else req)
      in if caller = co_signer then req1\<lparr>ov_co_signer_approver := Some co_signer\<rparr> else req1)"

text \<open>Both recorded approvers must still hold their role.\<close>

definition override_ready :: "address \<Rightarrow> address \<Rightarrow> override_request \<Rightarrow> bool" where
  "override_ready admin co_signer req \<longleftrightarrow>
     ov_owner_approver req = Some admin \<and> ov_co_signer_approver req = Some co_signer \<or>
     co_signer = admin"

definition approve_override ::
  "'w host \<Rightarrow> env \<Rightarrow> address \<Rightarrow> address \<Rightarrow> bytes \<Rightarrow> int \<Rightarrow> int \<Rightarrow> 'w state \<Rightarrow>
    (unit \<times> 'w state) outcome" where
  "approve_override H e caller wallet tx_hash entitlement tier s =
     and_then (require_not_paused s) (\<lambda>_.
     and_then (get_admin s) (\<lambda>admin.
     and_then (get_co_signer s) (\<lambda>co_signer.
     if caller \<noteq> admin \<and> caller \<noteq> co_signer then Err CallerNotAdminOrCoSigner
     else and_then (require_auth e caller) (\<lambda>_.
     if entitlement \<le> 0 then Err EntitlementNotPositive
     else and_then (tier_ratio tier) (\<lambda>_.
       let claim_id = compute_claim_id H wallet tx_hash;
           req = unwrap_or (get_override s claim_id)
             \<lparr>ov_wallet = wallet, ov_tx_hash = tx_hash, ov_entitlement = entitlement,
              ov_tier = tier, ov_owner_approver = None, ov_co_signer_approver = None\<rparr> in
       if ov_entitlement req \<noteq> entitlement \<or> ov_tier req \<noteq> tier then Err OverrideParamsMismatch
       else
         let req1 = record_approval caller admin co_signer req in
         if override_ready admin co_signer req1
         then and_then (execute_override H e claim_id req1 s) (\<lambda>s1.
              Ok ((), remove_override claim_id s1))
         else Ok ((), set_override H e claim_id req1 s))))))"

definition cancel_pending_override ::
  "'w host \<Rightarrow> env \<Rightarrow> address \<Rightarrow> address \<Rightarrow> bytes \<Rightarrow> 'w state \<Rightarrow> (unit \<times> 'w state) outcome" where
  "cancel_pending_override H e caller wallet tx_hash s =
     and_then (get_admin s) (\<lambda>admin.
     if caller \<noteq> admin then Err CallerNotAdmin
     else and_then (require_auth e admin) (\<lambda>_.
       let claim_id = compute_claim_id H wallet tx_hash in
       and_then (ok_or (get_override s claim_id) NoPendingOverride) (\<lambda>_.
       Ok ((), publish (EvOverrideCancelled claim_id) (remove_override claim_id s)))))"

section \<open>What a successful call did\<close>

text \<open>The allocation after the prior claim's reservation is released.\<close>

definition allocated_without :: "claim option \<Rightarrow> 'w state \<Rightarrow> int" where
  "allocated_without existing s =
     (case existing of
        None \<Rightarrow> get_total_allocated s
      | Some c \<Rightarrow> if live_status (cl_status c)
          then saturating_sub_i128 (get_total_allocated s) (cl_entitlement c - cl_streamed c)
          else get_total_allocated s)"

definition carried :: "claim option \<Rightarrow> int" where
  "carried existing =
     (case existing of None \<Rightarrow> 0 | Some c \<Rightarrow> if cl_status c = Active then cl_streamed c else 0)"

lemma release_prior_Ok:
  assumes "release_prior existing s = Ok (k, s1)"
  shows "\<exists>a. (\<forall>c. existing = Some c \<longrightarrow> cl_status c \<noteq> Completed) \<and> k = carried existing \<and>
     s1 = s\<lparr>st_total_allocated := a\<rparr> \<and> unwrap_or a 0 = allocated_without existing s"
proof (cases existing)
  case None
  with assms show ?thesis
    by (auto simp: release_prior_def carried_def allocated_without_def get_total_allocated_def
        intro!: exI [of _ "st_total_allocated s"])
next
  case (Some c)
  show ?thesis
  proof (cases "live_status (cl_status c)")
    case True
    with assms Some show ?thesis
      by (auto simp: release_prior_def and_then_eq_Ok if_Err_eq_Ok sub_i128_eq_Ok
          set_total_allocated_def carried_def allocated_without_def)
  next
    case False
    with assms Some show ?thesis
      by (auto simp: release_prior_def and_then_eq_Ok if_Err_eq_Ok carried_def
          allocated_without_def get_total_allocated_def intro!: exI [of _ "st_total_allocated s"])
  qed
qed

lemma override_claim_simps [simp]:
  "cl_wallet (override_claim e req k a) = ov_wallet req"
  "cl_tx_hash (override_claim e req k a) = ov_tx_hash req"
  "cl_entitlement (override_claim e req k a) = ov_entitlement req"
  "cl_streamed (override_claim e req k a) = k"
  "cl_stake (override_claim e req k a) = a"
  "cl_tier (override_claim e req k a) = ov_tier req"
  "cl_status (override_claim e req k a) = Active"
  "cl_hack_timestamp (override_claim e req k a) = e_time e"
  by (simp_all add: override_claim_def)

text \<open>Both branches of the activation write the same clocks.\<close>

lemma activate_override_Ok:
  assumes "activate_override H e r (override_claim e req k (sr_amount r)) s = Ok ((burned, r', c'), s')"
  shows "\<exists>lu. r' = r\<lparr>sr_withdrawn := True\<rparr> \<and>
     c' = activated_claim e (get_total_staked s) (sr_amount r) (override_claim e req k (sr_amount r)) \<and>
     (sr_withdrawn r \<longrightarrow> burned = 0) \<and>
     s' = (if sr_withdrawn r then s else forfeited (ov_wallet req) (sr_amount r) s)
            \<lparr>st_live_until := lu\<rparr>"
proof (cases "sr_withdrawn r")
  case True
  from True assms have eqs: "burned = 0" "r' = r" "s' = s"
    "c' = (override_claim e req k (sr_amount r))
       \<lparr>cl_cooldown_ends_ledger := e_seq e + COOLDOWN_LEDGERS,
        cl_vesting_ends_ledger := e_seq e + COOLDOWN_LEDGERS + VESTING_LEDGERS,
        cl_total_staked_snapshot := get_total_staked s,
        cl_last_collected_ledger := e_seq e + COOLDOWN_LEDGERS\<rparr>"
    by (simp_all add: activate_override_def and_then_eq_Ok add_u32_eq_Ok Let_def)
      (elim conjE, simp)
  have r: "r\<lparr>sr_withdrawn := True\<rparr> = r"
    by (rule stake_record.equality) (simp_all add: True)
  have c: "c' = activated_claim e (get_total_staked s) (sr_amount r)
      (override_claim e req k (sr_amount r))"
    by (rule claim.equality) (simp_all add: eqs(4) activated_claim_def)
  show ?thesis
    by (intro exI [of _ "st_live_until s"]) (simp add: r c True eqs(1-3))
next
  case False
  with assms activate_claim_Ok [of H e r "override_claim e req k (sr_amount r)" s burned r' c' s']
  show ?thesis by (auto simp: activate_override_def)
qed

definition override_record :: "bytes \<Rightarrow> stake_record \<Rightarrow> stake_record" where
  "override_record claim_id r =
     r\<lparr>sr_withdrawn := True, sr_active_claim_id := Some claim_id,
       sr_reserved_claim_id :=
         (if sr_reserved_claim_id r = Some claim_id then None else sr_reserved_claim_id r)\<rparr>"

lemma override_record_simps [simp]:
  "sr_amount (override_record k r) = sr_amount r" "sr_withdrawn (override_record k r)"
  "sr_active_claim_id (override_record k r) = Some k"
  "sr_suspended (override_record k r) = sr_suspended r"
  "sr_beneficiary_hash (override_record k r) = sr_beneficiary_hash r"
  by (simp_all add: override_record_def)

text \<open>The state an executed override leaves, without the pending request's removal.\<close>

definition overridden ::
  "env \<Rightarrow> bytes \<Rightarrow> override_request \<Rightarrow> stake_record \<Rightarrow> 'w state \<Rightarrow> 'w state" where
  "overridden e claim_id req r s =
     (if sr_withdrawn r then s else forfeited (ov_wallet req) (sr_amount r) s)
       \<lparr>st_total_allocated :=
          Some (allocated_without (st_claims s claim_id) s + ov_entitlement req),
        st_stakes := (st_stakes s)(ov_wallet req \<mapsto> override_record claim_id r),
        st_claims := (st_claims s)(claim_id \<mapsto> activated_claim e (get_total_staked s) (sr_amount r)
          (override_claim e req (carried (st_claims s claim_id)) (sr_amount r)))\<rparr>"

definition effective_total_staked :: "stake_record \<Rightarrow> 'w state \<Rightarrow> int" where
  "effective_total_staked r s =
     (if sr_withdrawn r then get_total_staked s + sr_amount r else get_total_staked s)"

lemma execute_override_Ok:
  assumes "execute_override H e cid req s = Ok s'"
  shows "\<exists>r cap lu ev. (\<forall>c. st_claims s cid = Some c \<longrightarrow> cl_status c \<noteq> Completed) \<and>
     st_stakes s (ov_wallet req) = Some r \<and>
     (sr_active_claim_id r = None \<or> sr_active_claim_id r = Some cid) \<and> 0 < sr_amount r \<and>
     tier_cap (sr_amount r) (ov_tier req) = Ok cap \<and> ov_entitlement req \<le> cap \<and>
     allocated_without (st_claims s cid) s + ov_entitlement req \<le> effective_total_staked r s \<and>
     in_i128 (allocated_without (st_claims s cid) s + ov_entitlement req) \<and>
     s' = (overridden e cid req r s)\<lparr>st_live_until := lu, st_events := ev\<rparr>"
proof -
  from assms obtain k s1 where rel: "release_prior (st_claims s cid) s = Ok (k, s1)"
    by (auto simp: execute_override_def and_then_eq_Ok get_claim_def)
  from release_prior_Ok [OF rel] obtain a where
    nc: "\<forall>c. st_claims s cid = Some c \<longrightarrow> cl_status c \<noteq> Completed"
    and k: "k = carried (st_claims s cid)" and s1: "s1 = s\<lparr>st_total_allocated := a\<rparr>"
    and a: "unwrap_or a 0 = allocated_without (st_claims s cid) s"
    by blast
  from s1 a have reads: "get_total_allocated s1 = allocated_without (st_claims s cid) s"
    "get_total_staked s1 = get_total_staked s" "st_stakes s1 = st_stakes s"
    by (simp_all add: get_total_allocated_def get_total_staked_def)
  let ?new = "allocated_without (st_claims s cid) s + ov_entitlement req"
  from assms rel reads obtain r cap burned r' c' s3 where
    r: "st_stakes s (ov_wallet req) = Some r"
    and act: "sr_active_claim_id r = None \<or> sr_active_claim_id r = Some cid"
    and pos: "0 < sr_amount r" and cap: "tier_cap (sr_amount r) (ov_tier req) = Ok cap"
    and le: "ov_entitlement req \<le> cap" and solv: "?new \<le> effective_total_staked r s"
    and rng: "in_i128 ?new"
    and ao: "activate_override H e r (override_claim e req k (sr_amount r))
      (set_total_allocated ?new s1) = Ok ((burned, r', c'), s3)"
    and s': "s' = publish (EvOverrideExecuted (ov_wallet req) cid burned) (bump_instance_ttl H e
      (set_claim H e cid c' (set_stake H e (ov_wallet req)
        (if sr_reserved_claim_id r' = Some cid
         then r'\<lparr>sr_active_claim_id := Some cid, sr_reserved_claim_id := None\<rparr>
         else r'\<lparr>sr_active_claim_id := Some cid\<rparr>) s3)))"
    by (cases "st_stakes s (ov_wallet req)"; cases "sr_withdrawn (the (st_stakes s (ov_wallet req)))")
      (auto simp: execute_override_def and_then_eq_Ok if_Err_eq_Ok add_i128_eq_Ok Let_def
        get_claim_def get_stake_def effective_total_staked_def not_less not_le
        split: option.splits)
  from activate_override_Ok [OF ao] obtain lu where r': "r' = r\<lparr>sr_withdrawn := True\<rparr>"
    and c': "c' = activated_claim e (get_total_staked s) (sr_amount r)
      (override_claim e req k (sr_amount r))"
    and s3: "s3 = (if sr_withdrawn r then set_total_allocated ?new s1
      else forfeited (ov_wallet req) (sr_amount r) (set_total_allocated ?new s1))
        \<lparr>st_live_until := lu\<rparr>"
    by (auto simp: get_total_staked_def set_total_allocated_def s1)
  have rec: "(if sr_reserved_claim_id r' = Some cid
       then r'\<lparr>sr_active_claim_id := Some cid, sr_reserved_claim_id := None\<rparr>
       else r'\<lparr>sr_active_claim_id := Some cid\<rparr>) = override_record cid r"
    by (simp add: r' override_record_def)
  have "s' = (overridden e cid req r s)
      \<lparr>st_live_until := st_live_until s', st_events := st_events s'\<rparr>"
    by (rule state.equality)
      (simp_all add: s' rec s3 c' k s1 overridden_def forfeited_def publish_def
        bump_instance_ttl_def touch_def set_claim_def set_stake_def set_total_allocated_def
        get_total_staked_def get_total_stakers_def)
  with nc r act pos cap le solv rng show ?thesis by blast
qed

definition override_request_for ::
  "address \<Rightarrow> address \<Rightarrow> bytes \<Rightarrow> int \<Rightarrow> int \<Rightarrow> bytes \<Rightarrow> 'w state \<Rightarrow> override_request" where
  "override_request_for caller wallet tx_hash entitlement tier claim_id s =
     record_approval caller (the (st_admin s)) (the (st_co_signer s))
       (unwrap_or (st_overrides s claim_id)
          \<lparr>ov_wallet = wallet, ov_tx_hash = tx_hash, ov_entitlement = entitlement,
           ov_tier = tier, ov_owner_approver = None, ov_co_signer_approver = None\<rparr>)"

lemma approve_override_Ok:
  assumes "approve_override H e caller wallet tx ent tier s = Ok (u, s')"
  shows "\<exists>admin cos cid req lu. \<not> is_paused s \<and> st_admin s = Some admin \<and> st_co_signer s = Some cos \<and>
     (caller = admin \<or> caller = cos) \<and> e_auth e caller \<and> 0 < ent \<and>
     cid = compute_claim_id H wallet tx \<and>
     req = override_request_for caller wallet tx ent tier cid s \<and>
     ov_entitlement req = ent \<and> ov_tier req = tier \<and>
     (override_ready admin cos req \<and>
        (\<exists>s1. execute_override H e cid req s = Ok s1 \<and> s' = remove_override cid s1) \<or>
      \<not> override_ready admin cos req \<and>
        s' = s\<lparr>st_overrides := (st_overrides s)(cid \<mapsto> req), st_live_until := lu\<rparr>)"
proof -
  from assms obtain admin cos where a: "st_admin s = Some admin" and c: "st_co_signer s = Some cos"
    by (auto simp: approve_override_def ok_simps get_admin_def get_co_signer_def)
  have ent: "ov_entitlement (record_approval x y z req) = ov_entitlement req"
    "ov_tier (record_approval x y z req) = ov_tier req" for x y z req
    by (simp_all add: record_approval_def Let_def)
  show ?thesis
    using assms a c
    by (cases "override_ready admin cos
          (override_request_for caller wallet tx ent tier (compute_claim_id H wallet tx) s)")
      (auto simp: approve_override_def ok_simps Let_def get_admin_def get_co_signer_def
        get_override_def override_request_for_def ent set_override_def touch_def)
qed

lemma cancel_pending_override_Ok:
  assumes "cancel_pending_override H e caller wallet tx s = Ok (u, s')"
  shows "\<exists>cid lu ev. st_admin s = Some caller \<and> e_auth e caller \<and>
     cid = compute_claim_id H wallet tx \<and> st_overrides s cid \<noteq> None \<and>
     s' = s\<lparr>st_overrides := (st_overrides s)(cid := None), st_live_until := lu, st_events := ev\<rparr>"
  using assms
  by (auto simp: cancel_pending_override_def ok_simps Let_def get_admin_def get_override_def
      remove_override_def publish_def)

end
