(* ===== verification/Entrypoints.thy ===== *)
theory Entrypoints
  imports Staking Administration Yield_Vault Claim_Admission Claim_Lifecycle Claim_Override
begin

text \<open>
  \<^verbatim>\<open>contracts/protection-pool/src/lib.rs\<close>: the contract's entry points as one dispatch
  function, the computed views, and the state machine they span: the constructor deploys, every
  later invocation is one entry point called in some environment, and between invocations the
  other contracts may do anything to their own storage.
\<close>

section \<open>Entry points\<close>

text \<open>\<open>__constructor\<close>: runs as part of the deployment and delegates to \<open>admin::initialize\<close>.\<close>

definition constructor ::
  "'w host \<Rightarrow> env \<Rightarrow> address \<Rightarrow> address \<Rightarrow> bytes \<Rightarrow> address \<Rightarrow> address \<Rightarrow> int \<Rightarrow> 'w state \<Rightarrow>
    (unit \<times> 'w state) outcome" where
  "constructor H e admin oracle oracle_pubkey co_signer xlm_token pool_cap s =
     initialize H e admin oracle oracle_pubkey co_signer xlm_token pool_cap s"

datatype (plugins only: code) pool_call =
    Stake address int address
  | SetBeneficiary address address
  | Withdraw address address
  | EmergencyExit address
  | TransferAdmin address
  | Pause
  | Unpause
  | SuspendStake address
  | UnsuspendStake address "bytes option"
  | SetPoolCap int
  | SetOracle address
  | SetOraclePubkey bytes
  | SetOracleIdentity address bytes
  | SetCoSigner address
  | SubmitClaim address address bytes int int int int bytes
  | TryReleaseQueuedClaim bytes
  | ExpireQueuedClaim bytes
  | UnlockPendingClaim bytes
  | ApproveClaim bytes
  | ExpirePendingApproval bytes
  | ExpireStaleClaim bytes
  | ClaimStream bytes address
  | CancelClaim bytes
  | ApproveOverride address address bytes int int
  | CancelPendingOverride address address bytes
  | RevokeApproval address address bytes int int int int
  | SetVault address
  | SetTreasury address
  | SetDeployBps int
  | DeployToVault int int
  | AutoDeployLiquidity
  | ProvideLiquidity int int
  | EnsureLiquidity
  | ExtractYield int int
  | WithdrawYield int

datatype (plugins only: code) ret = RUnit | RInt int | RBytes bytes

definition returns :: "('a \<Rightarrow> ret) \<Rightarrow> ('a \<times> 'w state) outcome \<Rightarrow> (ret \<times> 'w state) outcome" where
  "returns f m = and_then m (\<lambda>(x, s). Ok (f x, s))"

text \<open>The claim section of the contract; any other call is not an entry point of this section.\<close>

fun exec_claims :: "'w host \<Rightarrow> env \<Rightarrow> pool_call \<Rightarrow> 'w state \<Rightarrow> (ret \<times> 'w state) outcome" where
  "exec_claims H e (SubmitClaim caller wallet tx ent tier hack dl sig) s =
     returns RBytes (submit_claim H e caller wallet tx ent tier hack dl sig s)"
| "exec_claims H e (RevokeApproval caller wallet tx ent tier hack dl) s =
     returns (\<lambda>_. RUnit) (revoke_approval H e caller wallet tx ent tier hack dl s)"
| "exec_claims H e (UnlockPendingClaim k) s = returns (\<lambda>_. RUnit) (unlock_pending_claim H e k s)"
| "exec_claims H e (TryReleaseQueuedClaim k) s = returns (\<lambda>_. RUnit) (try_release_queued_claim H e k s)"
| "exec_claims H e (ExpireQueuedClaim k) s = returns (\<lambda>_. RUnit) (expire_queued_claim H e k s)"
| "exec_claims H e (ApproveClaim k) s = returns (\<lambda>_. RUnit) (approve_claim H e k s)"
| "exec_claims H e (ExpirePendingApproval k) s = returns (\<lambda>_. RUnit) (expire_pending_approval H e k s)"
| "exec_claims H e (ExpireStaleClaim k) s = returns (\<lambda>_. RUnit) (expire_stale_claim H e k s)"
| "exec_claims H e (ClaimStream k b) s = returns RInt (claim_stream H e k b s)"
| "exec_claims H e (CancelClaim k) s = returns (\<lambda>_. RUnit) (cancel_claim H e k s)"
| "exec_claims H e (ApproveOverride caller wallet tx ent tier) s =
     returns (\<lambda>_. RUnit) (approve_override H e caller wallet tx ent tier s)"
| "exec_claims H e (CancelPendingOverride caller wallet tx) s =
     returns (\<lambda>_. RUnit) (cancel_pending_override H e caller wallet tx s)"
| "exec_claims H e _ s = Trap CalleeFailed"

text \<open>The yield section.\<close>

fun exec_yield :: "'w host \<Rightarrow> env \<Rightarrow> pool_call \<Rightarrow> 'w state \<Rightarrow> (ret \<times> 'w state) outcome" where
  "exec_yield H e (SetVault a) s = returns (\<lambda>_. RUnit) (set_vault H e a s)"
| "exec_yield H e (SetTreasury a) s = returns (\<lambda>_. RUnit) (set_treasury H e a s)"
| "exec_yield H e (SetDeployBps bps) s = returns (\<lambda>_. RUnit) (set_deploy_bps H e bps s)"
| "exec_yield H e (DeployToVault amount mn) s = returns RInt (deploy_to_vault H e amount mn s)"
| "exec_yield H e AutoDeployLiquidity s = returns RInt (auto_deploy_liquidity H e s)"
| "exec_yield H e (ProvideLiquidity shares mn) s = returns RInt (provide_liquidity H e shares mn s)"
| "exec_yield H e EnsureLiquidity s = returns RInt (ensure_liquidity H e s)"
| "exec_yield H e (ExtractYield shares mn) s = returns RInt (extract_yield H e shares mn s)"
| "exec_yield H e (WithdrawYield amount) s = returns (\<lambda>_. RUnit) (withdraw_yield H e amount s)"
| "exec_yield H e _ s = Trap CalleeFailed"

text \<open>The whole contract: administration and staking, and the two sections above.\<close>

primrec exec :: "'w host \<Rightarrow> env \<Rightarrow> pool_call \<Rightarrow> 'w state \<Rightarrow> (ret \<times> 'w state) outcome" where
  "exec H e (SetOracle a) s = returns (\<lambda>_. RUnit) (set_oracle H e a s)"
| "exec H e (SetOraclePubkey pk) s = returns (\<lambda>_. RUnit) (set_oracle_pubkey H e pk s)"
| "exec H e (SetOracleIdentity a pk) s = returns (\<lambda>_. RUnit) (set_oracle_identity H e a pk s)"
| "exec H e (SetCoSigner a) s = returns (\<lambda>_. RUnit) (set_co_signer H e a s)"
| "exec H e (SetPoolCap cap) s = returns (\<lambda>_. RUnit) (set_pool_cap H e cap s)"
| "exec H e (TransferAdmin a) s = returns (\<lambda>_. RUnit) (transfer_admin H e a s)"
| "exec H e Pause s = returns (\<lambda>_. RUnit) (pause e s)"
| "exec H e Unpause s = returns (\<lambda>_. RUnit) (unpause e s)"
| "exec H e (SuspendStake wallet) s = returns (\<lambda>_. RUnit) (suspend_stake H e wallet s)"
| "exec H e (UnsuspendStake wallet k) s = returns (\<lambda>_. RUnit) (unsuspend_stake H e wallet k s)"
| "exec H e (Stake staker amount b) s = returns (\<lambda>_. RUnit) (stake H e staker amount b s)"
| "exec H e (Withdraw staker b) s = returns (\<lambda>_. RUnit) (withdraw H e staker b s)"
| "exec H e (SetBeneficiary staker b) s = returns (\<lambda>_. RUnit) (set_beneficiary H e staker b s)"
| "exec H e (EmergencyExit staker) s = returns (\<lambda>_. RUnit) (emergency_exit H e staker s)"
| "exec H e (SubmitClaim caller wallet tx ent tier hack dl sig) s =
     exec_claims H e (SubmitClaim caller wallet tx ent tier hack dl sig) s"
| "exec H e (RevokeApproval caller wallet tx ent tier hack dl) s =
     exec_claims H e (RevokeApproval caller wallet tx ent tier hack dl) s"
| "exec H e (UnlockPendingClaim k) s = exec_claims H e (UnlockPendingClaim k) s"
| "exec H e (TryReleaseQueuedClaim k) s = exec_claims H e (TryReleaseQueuedClaim k) s"
| "exec H e (ExpireQueuedClaim k) s = exec_claims H e (ExpireQueuedClaim k) s"
| "exec H e (ApproveClaim k) s = exec_claims H e (ApproveClaim k) s"
| "exec H e (ExpirePendingApproval k) s = exec_claims H e (ExpirePendingApproval k) s"
| "exec H e (ExpireStaleClaim k) s = exec_claims H e (ExpireStaleClaim k) s"
| "exec H e (ClaimStream k b) s = exec_claims H e (ClaimStream k b) s"
| "exec H e (CancelClaim k) s = exec_claims H e (CancelClaim k) s"
| "exec H e (ApproveOverride caller wallet tx ent tier) s =
     exec_claims H e (ApproveOverride caller wallet tx ent tier) s"
| "exec H e (CancelPendingOverride caller wallet tx) s =
     exec_claims H e (CancelPendingOverride caller wallet tx) s"
| "exec H e (SetVault a) s = exec_yield H e (SetVault a) s"
| "exec H e (SetTreasury a) s = exec_yield H e (SetTreasury a) s"
| "exec H e (SetDeployBps bps) s = exec_yield H e (SetDeployBps bps) s"
| "exec H e (DeployToVault amount mn) s = exec_yield H e (DeployToVault amount mn) s"
| "exec H e AutoDeployLiquidity s = exec_yield H e AutoDeployLiquidity s"
| "exec H e (ProvideLiquidity shares mn) s = exec_yield H e (ProvideLiquidity shares mn) s"
| "exec H e EnsureLiquidity s = exec_yield H e EnsureLiquidity s"
| "exec H e (ExtractYield shares mn) s = exec_yield H e (ExtractYield shares mn) s"
| "exec H e (WithdrawYield amount) s = exec_yield H e (WithdrawYield amount) s"

lemma returns_eq_Ok: "returns f m = Ok (r, s') \<longleftrightarrow> (\<exists>x. m = Ok (x, s') \<and> r = f x)"
  by (auto simp: returns_def and_then_eq_Ok)

text \<open>An invocation that fails, with an error or a trap, leaves the state as it was.\<close>

definition invoke :: "'w host \<Rightarrow> env \<Rightarrow> pool_call \<Rightarrow> 'w state \<Rightarrow> 'w state" where
  "invoke H e c s = (case exec H e c s of Ok (_, s') \<Rightarrow> s' | Err _ \<Rightarrow> s | Trap _ \<Rightarrow> s)"

section \<open>Computed views\<close>

definition points_view :: "env \<Rightarrow> address \<Rightarrow> 'w state \<Rightarrow> int outcome" where
  "points_view e wallet s =
     (case get_stake s wallet of
        Some record \<Rightarrow>
          if sr_amount record > 0 \<and> \<not> sr_withdrawn record
          then compute_points_for_record e record s
          else Ok (get_points_balance s wallet)
      | None \<Rightarrow> Ok (get_points_balance s wallet))"

definition is_eligible :: "address \<Rightarrow> 'w state \<Rightarrow> bool" where
  "is_eligible wallet s =
     (case get_stake s wallet of
        Some r \<Rightarrow> sr_amount r > 0 \<and> \<not> sr_withdrawn r \<and> \<not> sr_suspended r
      | None \<Rightarrow> False)"

definition is_claim_eligible :: "env \<Rightarrow> address \<Rightarrow> 'w state \<Rightarrow> bool" where
  "is_claim_eligible e wallet s =
     (case get_stake s wallet of
        Some r \<Rightarrow> sr_amount r > 0 \<and> \<not> sr_withdrawn r \<and> \<not> sr_suspended r \<and>
          saturating_sub_u32 (e_seq e) (sr_staked_at_ledger r) \<ge> TIME_GATE_LEDGERS
      | None \<Rightarrow> False)"

lemma is_claim_eligible_iff:
  "is_claim_eligible e wallet s \<longleftrightarrow>
     is_eligible wallet s \<and> (\<exists>r. get_stake s wallet = Some r \<and> gate_met e r)"
  by (auto simp: is_claim_eligible_def is_eligible_def gate_met_def split: option.splits)

section \<open>The state machine of the contract\<close>

inductive step :: "'w host \<Rightarrow> 'w state \<Rightarrow> 'w state \<Rightarrow> bool" for H where
  call: "env_ok e \<Longrightarrow> exec H e c s = Ok (r, s') \<Longrightarrow> step H s s'"
| others: "step H s (s\<lparr>st_world := w\<rparr>)"

inductive reachable :: "'w host \<Rightarrow> 'w state \<Rightarrow> bool" for H where
  deployed: "env_ok e \<Longrightarrow>
     initialize H e admin oracle pubkey co_signer token cap (empty_state w) = Ok (u, s) \<Longrightarrow>
     reachable H s"
| next_step: "reachable H s \<Longrightarrow> step H s s' \<Longrightarrow> reachable H s'"

inductive_cases step_cases: "step H s s'"

text \<open>The two obligations of an invariant, and what they give.\<close>

locale pool_invariant =
  fixes H :: "'w host" and I :: "'w state \<Rightarrow> bool"
  assumes after_deploy: "\<And>e admin orc pk cos token cap w u s.
      initialize H e admin orc pk cos token cap (empty_state w) = Ok (u, s) \<Longrightarrow> I s"
    and after_call: "\<And>e c s r s'. env_ok e \<Longrightarrow> exec H e c s = Ok (r, s') \<Longrightarrow> I s \<Longrightarrow> I s'"
    and world_free: "\<And>s w. I s \<Longrightarrow> I (s\<lparr>st_world := w\<rparr>)"
begin

lemma step_preserves: "step H s s' \<Longrightarrow> I s \<Longrightarrow> I s'"
  by (induction rule: step.induct) (auto intro: after_call world_free)

lemma in_every_reachable_state: "reachable H s \<Longrightarrow> I s"
  by (induction rule: reachable.induct) (auto intro: after_deploy step_preserves)

lemma invoke_preserves: "env_ok e \<Longrightarrow> I s \<Longrightarrow> I (invoke H e c s)"
  by (auto simp: invoke_def intro: after_call split: outcome.splits)

end

end
