(* ===== verification/Mock_Token.thy ===== *)
theory Mock_Token
  imports Soroban_Host
begin

text \<open>
  The token contract of \<^verbatim>\<open>contracts/komet-mock-token/src/lib.rs\<close>, the one asset ledger
  whose source is in the repository, and the interface of an asset ledger that the pool's
  accounting relies on. The interface is a locale; its facts hold for the mock token by
  interpretation.
\<close>

section \<open>The mock token contract\<close>

datatype token_error = InsufficientBalance | NegativeAmount

datatype 'a token_result = TokenOk 'a | TokenErr token_error | TokenTrap

type_synonym balances = "address \<rightharpoonup> int"

fun token_error_code :: "token_error \<Rightarrow> nat" where
  "token_error_code InsufficientBalance = 1"
| "token_error_code NegativeAmount = 2"

definition mock_balance :: "balances \<Rightarrow> address \<Rightarrow> int" where
  "mock_balance m a = unwrap_or (m a) 0"

definition mock_mint :: "address \<Rightarrow> int \<Rightarrow> balances \<Rightarrow> balances token_result" where
  "mock_mint to amount m =
     (if amount \<le> 0 then TokenOk m
      else let current = mock_balance m to in
        if in_i128 (current + amount) then TokenOk (m(to \<mapsto> current + amount)) else TokenTrap)"

text \<open>
  Both balances are read before either is written, as in the source; for \<open>from = to\<close> the second
  write wins.
\<close>

definition mock_transfer ::
  "address \<Rightarrow> address \<Rightarrow> int \<Rightarrow> balances \<Rightarrow> balances token_result" where
  "mock_transfer from to amount m =
     (if amount < 0 then TokenErr NegativeAmount
      else let from_bal = mock_balance m from in
        if from_bal < amount then TokenErr InsufficientBalance
        else let to_bal = mock_balance m to in
          if in_i128 (from_bal - amount) \<and> in_i128 (to_bal + amount)
          then TokenOk (m(from \<mapsto> from_bal - amount, to \<mapsto> to_bal + amount))
          else TokenTrap)"

text \<open>What a caller through \<open>TokenClient\<close> sees: the callee's error is the caller's trap.\<close>

definition mock_transfer_call ::
  "address \<Rightarrow> address \<Rightarrow> int \<Rightarrow> balances \<Rightarrow> balances option" where
  "mock_transfer_call from to amount m =
     (case mock_transfer from to amount m of TokenOk m' \<Rightarrow> Some m' | _ \<Rightarrow> None)"

lemma mock_transfer_TokenOk:
  "mock_transfer from to amt m = TokenOk m' \<longleftrightarrow>
     0 \<le> amt \<and> amt \<le> mock_balance m from \<and>
     in_i128 (mock_balance m from - amt) \<and> in_i128 (mock_balance m to + amt) \<and>
     m' = m(from \<mapsto> mock_balance m from - amt, to \<mapsto> mock_balance m to + amt)"
  by (auto simp: mock_transfer_def Let_def not_less)

lemma mock_transfer_call_Some:
  "mock_transfer_call from to amt m = Some m' \<longleftrightarrow> mock_transfer from to amt m = TokenOk m'"
  by (auto simp: mock_transfer_call_def split: token_result.splits)

section \<open>The interface of an asset ledger\<close>

locale asset_ledger =
  fixes bal :: "'w \<Rightarrow> address \<Rightarrow> int"
    and xfer :: "address \<Rightarrow> address \<Rightarrow> int \<Rightarrow> 'w \<Rightarrow> 'w option"
  assumes debit: "from \<noteq> to \<Longrightarrow> xfer from to amt w = Some w' \<Longrightarrow> bal w' from = bal w from - amt"
    and credit: "from \<noteq> to \<Longrightarrow> xfer from to amt w = Some w' \<Longrightarrow> bal w' to = bal w to + amt"
    and others: "from \<noteq> to \<Longrightarrow> xfer from to amt w = Some w' \<Longrightarrow> a \<noteq> from \<Longrightarrow> a \<noteq> to \<Longrightarrow>
      bal w' a = bal w a"
begin

lemma conserves:
  assumes "finite A" "from \<in> A" "to \<in> A" "from \<noteq> to" "xfer from to amt w = Some w'"
  shows "(\<Sum>a\<in>A. bal w' a) = (\<Sum>a\<in>A. bal w a)"
proof -
  have rest: "(\<Sum>a\<in>A - {from} - {to}. bal w' a) = (\<Sum>a\<in>A - {from} - {to}. bal w a)"
    using assms(4,5) by (intro sum.cong) (auto simp: others)
  have split: "(\<Sum>a\<in>A. f a) = f from + (f to + (\<Sum>a\<in>A - {from} - {to}. f a))" for f :: "address \<Rightarrow> int"
    using assms by (subst sum.remove [of A "from"], simp_all, subst sum.remove [of _ "to"], simp_all)
  show ?thesis
    using assms(4,5) by (simp add: split rest debit credit)
qed

text \<open>A run of transfers, each a sender, a receiver and an amount.\<close>

lemma run_conserves:
  assumes "finite A" "\<forall>(f, t, _)\<in>set ts. f \<in> A \<and> t \<in> A \<and> f \<noteq> t"
    and "fold (\<lambda>(f, t, amt) m. Option.bind m (xfer f t amt)) ts (Some w) = Some w'"
  shows "(\<Sum>a\<in>A. bal w' a) = (\<Sum>a\<in>A. bal w a)"
  using assms(2,3)
proof (induction ts arbitrary: w)
  case Nil
  then show ?case by simp
next
  case (Cons x ts)
  obtain f t amt where x: "x = (f, t, amt)" by (cases x)
  have none: "fold (\<lambda>(f, t, amt) m. Option.bind m (xfer f t amt)) us None = None" for us
    by (induction us) auto
  from Cons.prems x none obtain v where v: "xfer f t amt w = Some v"
    by (cases "xfer f t amt w") auto
  with Cons.prems x have "(\<Sum>a\<in>A. bal w' a) = (\<Sum>a\<in>A. bal v a)"
    by (intro Cons.IH) auto
  also have "\<dots> = (\<Sum>a\<in>A. bal w a)"
    using Cons.prems x v by (intro conserves [OF assms(1) _ _ _ v]) auto
  finally show ?case .
qed

end

interpretation mock: asset_ledger mock_balance mock_transfer_call
  by unfold_locales (auto simp: mock_transfer_call_Some mock_transfer_TokenOk mock_balance_def)

end
