(* ===== verification/Reference_Host.thy ===== *)
theory Reference_Host
  imports Mock_Token
begin

text \<open>
  A concrete host, on which the theorems of the library are exercised: the repository's mock
  token (\<^verbatim>\<open>contracts/komet-mock-token\<close>), the mock vault that the pool's own vault tests
  use (\<^verbatim>\<open>contracts/protection-pool/src/test/d2_vault_tests.rs\<close>), and executable stand-ins
  for the host functions: a self-delimiting serialisation, the identity as digest, and a
  signature scheme whose signature of a message is the key followed by the message.
\<close>

section \<open>A self-delimiting serialisation\<close>

text \<open>Naturals in base 128, low digit first, with a continuation bit.\<close>

fun nat_bytes :: "nat \<Rightarrow> bytes" where
  "nat_bytes n = (if n < 128 then [of_nat n] else of_nat (128 + n mod 128) # nat_bytes (n div 128))"

declare nat_bytes.simps [simp del]

definition int_code :: "int \<Rightarrow> nat" where
  "int_code i = nat (if 0 \<le> i then 2 * i else - 2 * i - 1)"

fun ref_xdr :: "scval \<Rightarrow> bytes" where
  "ref_xdr (SvSymbol str) = 0 # nat_bytes (length str) @ concat (map (\<lambda>c. nat_bytes (of_char c)) str)"
| "ref_xdr (SvAddress a) = 1 # nat_bytes a"
| "ref_xdr (SvBytes bs) = 2 # nat_bytes (length bs) @ bs"
| "ref_xdr (SvI128 i) = 3 # nat_bytes (int_code i)"
| "ref_xdr (SvU32 i) = 4 # nat_bytes (int_code i)"
| "ref_xdr (SvU64 i) = 5 # nat_bytes (int_code i)"

lemma unat_low: "n < 128 \<Longrightarrow> unat (of_nat n :: 8 word) = n"
  by (simp add: unat_of_nat)

lemma unat_high: "unat (of_nat (128 + n mod 128) :: 8 word) = 128 + n mod 128"
proof -
  have "128 + n mod 128 < 2 ^ LENGTH(8)"
    using mod_less_divisor [of 128 n] by simp
  then show ?thesis by (simp only: unat_of_nat take_bit_eq_mod mod_less)
qed

lemma nat_bytes_prefix_free: "nat_bytes m @ r = nat_bytes n @ r' \<Longrightarrow> m = n \<and> r = r'"
proof (induction m arbitrary: n rule: nat_bytes.induct)
  case (1 m)
  have hd: "unat (hd (nat_bytes k)) = (if k < 128 then k else 128 + k mod 128)" for k
    by (subst nat_bytes.simps) (simp add: unat_low unat_high del: of_nat_add)
  have ne: "nat_bytes k \<noteq> []" for k
    by (subst nat_bytes.simps) simp
  from "1.prems" ne have "hd (nat_bytes m) = hd (nat_bytes n)"
    by (metis hd_append2)
  with hd [of m] hd [of n]
  have h: "(if m < 128 then m else 128 + m mod 128) = (if n < 128 then n else 128 + n mod 128)"
    by simp
  show ?case
  proof (cases "m < 128")
    case True
    with h have "n = m" by (simp split: if_splits)
    with "1.prems" show ?thesis by simp
  next
    case False
    with h have n: "\<not> n < 128" and lo: "m mod 128 = n mod 128"
      by (simp_all split: if_splits)
    from "1.prems" False n lo have "nat_bytes (m div 128) @ r = nat_bytes (n div 128) @ r'"
      by (subst (asm) nat_bytes.simps [of m], subst (asm) nat_bytes.simps [of n]) simp
    with "1.IH" False have "m div 128 = n div 128" and r: "r = r'"
      by blast+
    with lo have "m = n" by (metis mult_div_mod_eq)
    with r show ?thesis by simp
  qed
qed

lemma int_code_inject: "int_code i = int_code j \<longleftrightarrow> i = j"
proof -
  have ge: "0 \<le> (if 0 \<le> k then 2 * k else - 2 * k - 1)" for k :: int by simp
  show ?thesis
    unfolding int_code_def eq_nat_nat_iff [OF ge ge] by presburger
qed

text \<open>Evaluation works on binary integers, so the two encodings get code equations over \<open>int\<close>.\<close>

fun int_bytes :: "int \<Rightarrow> bytes" where
  "int_bytes i = (if i < 128 then [of_int i] else of_int (128 + i mod 128) # int_bytes (i div 128))"

declare int_bytes.simps [simp del]

lemma nat_bytes_int: "0 \<le> i \<Longrightarrow> nat_bytes (nat i) = int_bytes i"
proof (induction i rule: int_bytes.induct)
  case (1 i)
  show ?case
  proof (cases "i < 128")
    case True
    with 1 have "nat i < 128" "(of_nat (nat i) :: 8 word) = of_int i" by simp_all
    then show ?thesis
      by (subst nat_bytes.simps, subst int_bytes.simps) (simp add: True)
  next
    case False
    with 1 have q: "nat i div 128 = nat (i div 128)" and r: "nat i mod 128 = nat (i mod 128)"
      and pos: "0 \<le> i div 128"
      by (simp_all add: nat_div_distrib nat_mod_distrib)
    have "nat_bytes (nat i) = of_nat (128 + nat i mod 128) # nat_bytes (nat i div 128)"
      using False by (subst nat_bytes.simps) simp
    also have "\<dots> = of_int (128 + i mod 128) # int_bytes (i div 128)"
      unfolding q r 1(1) [OF False pos] by simp
    also have "\<dots> = int_bytes i"
      using False by (subst int_bytes.simps [of i]) simp
    finally show ?thesis .
  qed
qed

lemma ref_xdr_int: "nat_bytes (int_code i) = int_bytes (if 0 \<le> i then 2 * i else - 2 * i - 1)"
  unfolding int_code_def by (rule nat_bytes_int) simp

lemma nat_bytes_code [code]: "nat_bytes n = int_bytes (int n)"
  using nat_bytes_int [of "int n"] by simp

lemma ref_xdr_code [code]:
  "ref_xdr (SvSymbol str) = 0 # nat_bytes (length str) @ concat (map (\<lambda>c. nat_bytes (of_char c)) str)"
  "ref_xdr (SvAddress a) = 1 # nat_bytes a"
  "ref_xdr (SvBytes bs) = 2 # nat_bytes (length bs) @ bs"
  "ref_xdr (SvI128 i) = 3 # int_bytes (if 0 \<le> i then 2 * i else - 2 * i - 1)"
  "ref_xdr (SvU32 i) = 4 # int_bytes (if 0 \<le> i then 2 * i else - 2 * i - 1)"
  "ref_xdr (SvU64 i) = 5 # int_bytes (if 0 \<le> i then 2 * i else - 2 * i - 1)"
  by (simp_all add: ref_xdr_int)

lemma symbol_bytes_prefix_free:
  assumes "length s = length t"
    and "concat (map (\<lambda>c. nat_bytes (of_char c)) s) @ r = concat (map (\<lambda>c. nat_bytes (of_char c)) t) @ r'"
  shows "s = t \<and> r = r'"
  using assms
proof (induction s t rule: list_induct2)
  case Nil
  then show ?case by simp
next
  case (Cons c s d t)
  from Cons.prems have "(of_char c :: nat) = of_char d \<and>
    concat (map (\<lambda>c. nat_bytes (of_char c)) s) @ r = concat (map (\<lambda>c. nat_bytes (of_char c)) t) @ r'"
    by (intro nat_bytes_prefix_free) simp
  with Cons.IH show ?case by (simp add: of_char_eq_iff)
qed

lemma ref_xdr_prefix_free: "ref_xdr v @ r = ref_xdr v' @ r' \<Longrightarrow> v = v' \<and> r = r'"
proof (cases v; cases v')
  fix s s' assume v: "v = SvSymbol s" "v' = SvSymbol s'" and eq: "ref_xdr v @ r = ref_xdr v' @ r'"
  then have "length s = length s' \<and> concat (map (\<lambda>c. nat_bytes (of_char c)) s) @ r
    = concat (map (\<lambda>c. nat_bytes (of_char c)) s') @ r'"
    by (intro nat_bytes_prefix_free) simp
  with v symbol_bytes_prefix_free show "v = v' \<and> r = r'" by blast
next
  fix b b' assume v: "v = SvBytes b" "v' = SvBytes b'" and eq: "ref_xdr v @ r = ref_xdr v' @ r'"
  then have "length b = length b' \<and> b @ r = b' @ r'"
    by (intro nat_bytes_prefix_free) simp
  then have "b = b' \<and> r = r'"
    using append_eq_append_conv [of b b' r r'] by blast
  with v show "v = v' \<and> r = r'" by simp
qed (auto dest!: nat_bytes_prefix_free simp: int_code_inject)

section \<open>The world: the mock token and the mock vault\<close>

record mock_world =
  mw_balances :: balances
  mw_shares :: balances
  mw_rate_bps :: int
  mw_deposit_rate_bps :: int

definition ref_token_transfer ::
  "mock_world \<Rightarrow> address \<Rightarrow> address \<Rightarrow> address \<Rightarrow> int \<Rightarrow> mock_world option" where
  "ref_token_transfer w tok from to amount =
     map_option (\<lambda>m. w\<lparr>mw_balances := m\<rparr>) (mock_transfer_call from to amount (mw_balances w))"

text \<open>
  The vault calls \<open>from.require_auth()\<close> itself: the depositing contract must have declared the
  call, with the token transfer beneath it.
\<close>

definition declared_deposit :: "auth_entry list \<Rightarrow> address \<Rightarrow> int list \<Rightarrow> int list \<Rightarrow> address \<Rightarrow> bool \<Rightarrow> bool" where
  "declared_deposit au v desired mins from invest =
     list_ex (\<lambda>a. case a of ContractAuth c f args subs \<Rightarrow>
        c = v \<and> f = ''deposit'' \<and>
        args = [CvVec desired, CvVec mins, CvAddress from, CvBool invest] \<and>
        list_ex (\<lambda>b. case b of ContractAuth c' f' args' _ \<Rightarrow>
           f' = ''transfer'' \<and> args' = [CvAddress from, CvAddress v, CvI128 (hd desired)]) subs) au"

definition declared_withdraw :: "auth_entry list \<Rightarrow> address \<Rightarrow> int \<Rightarrow> int list \<Rightarrow> address \<Rightarrow> bool" where
  "declared_withdraw au v shares mins from =
     list_ex (\<lambda>a. case a of ContractAuth c f args _ \<Rightarrow>
        c = v \<and> f = ''withdraw'' \<and> args = [CvI128 shares, CvVec mins, CvAddress from]) au"

definition ref_vault_deposit ::
  "auth_entry list \<Rightarrow> mock_world \<Rightarrow> address \<Rightarrow> int list \<Rightarrow> int list \<Rightarrow> address \<Rightarrow> bool \<Rightarrow>
    mock_world option" where
  "ref_vault_deposit au w v desired mins from invest =
     (case desired of [] \<Rightarrow> None
      | amount # _ \<Rightarrow>
          if \<not> declared_deposit au v desired mins from invest then None
          else case mock_transfer_call from v amount (mw_balances w) of None \<Rightarrow> None
          | Some m \<Rightarrow>
              let minted = (amount * mw_deposit_rate_bps w) sdiv 10000 in
              Some (w\<lparr>mw_balances := m,
                mw_shares := (mw_shares w)(from \<mapsto> mock_balance (mw_shares w) from + minted)\<rparr>))"

definition ref_vault_withdraw ::
  "auth_entry list \<Rightarrow> mock_world \<Rightarrow> address \<Rightarrow> int \<Rightarrow> int list \<Rightarrow> address \<Rightarrow> mock_world option" where
  "ref_vault_withdraw au w v shares mins from =
     (if \<not> declared_withdraw au v shares mins from then None
      else let out = (shares * mw_rate_bps w) sdiv 10000 in
        case mock_transfer_call v from out (mw_balances w) of None \<Rightarrow> None
        | Some m \<Rightarrow>
            Some (w\<lparr>mw_balances := m,
              mw_shares := (mw_shares w)(from \<mapsto> mock_balance (mw_shares w) from - shares)\<rparr>))"

definition ref_host :: "mock_world host" where
  "ref_host =
    \<lparr>h_vault_deposit = ref_vault_deposit, h_vault_withdraw = ref_vault_withdraw,
     h_vault_balance = (\<lambda>w v a. mock_balance (mw_shares w) a),
     h_self = 100, h_network_id = [7], h_sha256 = (\<lambda>b. b), h_to_xdr = ref_xdr,
     h_ed25519_verify = (\<lambda>pk msg sig. sig = pk @ msg),
     h_min_persistent_ttl = 4096, h_min_temporary_ttl = 16,
     h_token_balance = (\<lambda>w tok a. mock_balance (mw_balances w) a),
     h_token_transfer = ref_token_transfer\<rparr>"

lemma ref_host_simps [simp]:
  "h_self ref_host = 100" "h_network_id ref_host = [7]" "h_sha256 ref_host = (\<lambda>b. b)"
  "h_to_xdr ref_host = ref_xdr" "h_ed25519_verify ref_host = (\<lambda>pk msg sig. sig = pk @ msg)"
  "h_min_persistent_ttl ref_host = 4096" "h_min_temporary_ttl ref_host = 16"
  "h_token_balance ref_host = (\<lambda>w tok a. mock_balance (mw_balances w) a)"
  "h_token_transfer ref_host = ref_token_transfer"
  "h_vault_balance ref_host = (\<lambda>w v a. mock_balance (mw_shares w) a)"
  "h_vault_deposit ref_host = ref_vault_deposit"
  "h_vault_withdraw ref_host = ref_vault_withdraw"
  by (simp_all add: ref_host_def)

lemma ref_token_transfer_Some:
  "ref_token_transfer w tok from to amt = Some w' \<longleftrightarrow>
     (\<exists>m. mock_transfer_call from to amt (mw_balances w) = Some m \<and> w' = w\<lparr>mw_balances := m\<rparr>)"
  by (auto simp: ref_token_transfer_def)

lemma ref_host_sac_law: "sac_law ref_host"
  by (auto simp: sac_law_def ref_token_transfer_Some intro: mock.debit mock.credit mock.others)

lemma ref_host_vault_law: "vault_law ref_host tok"
  by (auto simp: vault_law_def ref_vault_deposit_def Let_def split: if_splits option.splits
    dest: mock.debit [rotated])

lemma ref_host_xdr_law: "xdr_law ref_host"
  unfolding xdr_law_def using ref_xdr_prefix_free by simp

end
