(* ===== verification/Sample_Runs.thy ===== *)
theory Sample_Runs
  imports Entrypoints Reference_Host
begin

text \<open>
  Runs of the contract on the reference host: the states at which the theorems of the library
  are exercised. A run is a list of invocations from the deployed contract; it is defined as long
  as every one of them returns \<open>Ok\<close>.
\<close>

definition result_of :: "('a \<times> 'w state) outcome \<Rightarrow> 'a" where
  "result_of m = (case m of Ok (x, _) \<Rightarrow> x)"

definition state_of :: "('a \<times> 'w state) outcome \<Rightarrow> 'w state" where
  "state_of m = (case m of Ok (_, s) \<Rightarrow> s)"

lemma state_of_Ok: "state_of (Ok (x, s)) = s"
  by (simp add: state_of_def)

lemma is_ok_result: "is_ok m \<Longrightarrow> m = Ok (result_of m, state_of m)"
  by (cases m) (auto simp: result_of_def state_of_def)

fun run :: "'w host \<Rightarrow> (env \<times> pool_call) list \<Rightarrow> 'w state \<Rightarrow> (unit \<times> 'w state) outcome" where
  "run H [] s = Ok ((), s)"
| "run H ((e, c) # cs) s = and_then (exec H e c s) (\<lambda>(_, s'). run H cs s')"

lemma run_append: "run H (xs @ ys) s = and_then (run H xs s) (\<lambda>(_, s'). run H ys s')"
  by (induction H xs s rule: run.induct) (auto simp: and_then_assoc split: prod.splits intro!: arg_cong2 [of _ _ _ _ and_then])

lemma run_reachable:
  assumes "reachable H s" "run H cs s = Ok (u, s')" "\<forall>(e, c) \<in> set cs. env_ok e"
  shows "reachable H s'"
  using assms
proof (induction H cs s rule: run.induct)
  case (2 H e c cs s)
  then obtain r s1 where ok: "exec H e c s = Ok (r, s1)" and rest: "run H cs s1 = Ok (u, s')"
    by (auto simp: and_then_eq_Ok)
  from 2 ok have "reachable H s1" by (auto intro: next_step step.call)
  with 2 ok rest show ?case by auto
qed simp

text \<open>What a run left under a claim id, as one boolean.\<close>

definition claim_at :: "bytes \<Rightarrow> (claim \<Rightarrow> bool) \<Rightarrow> 'w state \<Rightarrow> bool" where
  "claim_at k P s = (case st_claims s k of None \<Rightarrow> False | Some c \<Rightarrow> P c)"

lemma claim_atD: "claim_at k P s \<Longrightarrow> \<exists>c. st_claims s k = Some c \<and> P c"
  by (simp add: claim_at_def split: option.splits)

section \<open>The deployment\<close>

text \<open>Ledger \<open>day * 17280\<close>, timestamp \<open>day * 86400\<close>, and the addresses that sign.\<close>

definition on_day :: "int \<Rightarrow> address list \<Rightarrow> env" where
  "on_day day signers =
     \<lparr>e_seq = day * LEDGERS_PER_DAY, e_time = day * SECONDS_PER_DAY, e_auth = (\<lambda>a. a \<in> set signers)\<rparr>"

lemma on_day_simps [simp]:
  "e_seq (on_day d as) = d * LEDGERS_PER_DAY" "e_time (on_day d as) = d * SECONDS_PER_DAY"
  "e_auth (on_day d as) a \<longleftrightarrow> a \<in> set as"
  by (simp_all add: on_day_def)

lemma env_ok_on_day: "0 \<le> d \<Longrightarrow> d \<le> 200000 \<Longrightarrow> env_ok (on_day d as)"
  by (simp add: env_ok_def u32_max_def u64_max_def time_defs)

text \<open>Admin 1, oracle 2, co-signer 3, token 50, vault 60, treasury 70, stakers 11 and 12.\<close>

definition sample_world :: mock_world where
  "sample_world =
     \<lparr>mw_balances = [11 \<mapsto> 20000, 12 \<mapsto> 20000], mw_shares = Map.empty, mw_rate_bps = 10000,
      mw_deposit_rate_bps = 10000\<rparr>"

definition deployment :: "(unit \<times> mock_world state) outcome" where
  "deployment = initialize ref_host (on_day 1 [1]) 1 2 [5] 3 50 1000000 (empty_state sample_world)"

definition after :: "(env \<times> pool_call) list \<Rightarrow> mock_world state" where
  "after cs = state_of (run ref_host cs (state_of deployment))"

text \<open>Every call of a run is accepted and the state it ends in satisfies \<open>P\<close>, in one evaluation.\<close>

definition ends_in :: "(env \<times> pool_call) list \<Rightarrow> (mock_world state \<Rightarrow> bool) \<Rightarrow> bool" where
  "ends_in cs P \<longleftrightarrow> (case run ref_host cs (state_of deployment) of Ok (_, s) \<Rightarrow> P s | _ \<Rightarrow> False)"

lemma ends_inD:
  assumes "ends_in cs P"
  shows "is_ok (run ref_host cs (state_of deployment))" "P (after cs)"
proof -
  from assms obtain u s where ok: "run ref_host cs (state_of deployment) = Ok (u, s)" and "P s"
    unfolding ends_in_def by (cases "run ref_host cs (state_of deployment)") auto
  from ok show "is_ok (run ref_host cs (state_of deployment))" by (simp add: is_ok_def)
  from ok \<open>P s\<close> show "P (after cs)" by (simp add: after_def state_of_Ok)
qed

definition staked_run :: "(env \<times> pool_call) list" where
  "staked_run = [(on_day 1 [11], Stake 11 10000 21), (on_day 1 [12], Stake 12 10000 22)]"

definition awaiting_run :: "(env \<times> pool_call) list" where
  "awaiting_run = staked_run @
     [(on_day 100 [1], SubmitClaim 1 11 [9] 4000 3 (99 * 86400) 0 [])]"

definition small_claim_run :: "(env \<times> pool_call) list" where
  "small_claim_run = staked_run @
     [(on_day 100 [1], SubmitClaim 1 11 [9] 900 3 (99 * 86400) 0 []),
      (on_day 101 [11], ApproveClaim [1, 11, 9]), (on_day 130 [11], ClaimStream [1, 11, 9] 21)]"

definition active_run :: "(env \<times> pool_call) list" where
  "active_run = awaiting_run @ [(on_day 101 [11], ApproveClaim [1, 11, 9])]"

lemma deployment_ok: "is_ok deployment"
  by code_simp

lemma staked_run_ok: "is_ok (run ref_host staked_run (state_of deployment))"
  by code_simp

lemma awaiting_run_ok: "is_ok (run ref_host awaiting_run (state_of deployment))"
  by code_simp

lemma active_run_ok: "is_ok (run ref_host active_run (state_of deployment))"
  by code_simp

lemma staked_run_envs: "\<forall>(e, c) \<in> set staked_run. env_ok e"
  by (simp add: staked_run_def env_ok_on_day)

lemma awaiting_run_envs: "\<forall>(e, c) \<in> set awaiting_run. env_ok e"
  by (simp add: awaiting_run_def staked_run_def env_ok_on_day)

lemma active_run_envs: "\<forall>(e, c) \<in> set active_run. env_ok e"
  by (simp add: active_run_def awaiting_run_def staked_run_def env_ok_on_day)

lemma deployment_reachable: "reachable ref_host (state_of deployment)"
proof -
  have "deployment = Ok (result_of deployment, state_of deployment)"
    by (rule is_ok_result [OF deployment_ok])
  then have "initialize ref_host (on_day 1 [1]) 1 2 [5] 3 50 1000000 (empty_state sample_world)
      = Ok (result_of deployment, state_of deployment)"
    unfolding deployment_def .
  then show ?thesis by (rule reachable.deployed [rotated]) (simp add: env_ok_on_day)
qed

lemma after_reachable:
  assumes "is_ok (run ref_host cs (state_of deployment))" "\<forall>(e, c) \<in> set cs. env_ok e"
  shows "reachable ref_host (after cs)"
  unfolding after_def
  by (rule run_reachable [OF deployment_reachable is_ok_result [OF assms(1)] assms(2)])

text \<open>A position in the mock vault: 8000 of the 20000 staked are deployed.\<close>

definition deployed_run :: "(env \<times> pool_call) list" where
  "deployed_run = staked_run @
     [(on_day 2 [1], SetVault 60), (on_day 2 [1], SetTreasury 70), (on_day 2 [1], SetDeployBps 5000),
      (on_day 2 [1], DeployToVault 8000 0)]"

lemma deployed_run_ok: "is_ok (run ref_host deployed_run (state_of deployment))"
  by code_simp

lemma deployed_run_envs: "\<forall>(e, c) \<in> set deployed_run. env_ok e"
  by (simp add: deployed_run_def staked_run_def env_ok_on_day)

end
