(* ===== verification/Access_Control.thy ===== *)
theory Access_Control
  imports Sample_Runs
begin

text \<open>
  Who may change what, over all entry points: the roles and the configuration, the separation of
  the co-signer from the admin and the oracle, and the pause switch.
\<close>

lemmas effect_defs =
  exited_def after_redeem_def queued_def admitted_def released_def cancelled_def forfeited_def
  activated_def streamed_to_def overridden_def remove_override_def

section \<open>Configuration\<close>

record config =
  cfg_admin :: "address option"
  cfg_oracle :: "address option"
  cfg_oracle_pubkey :: "bytes option"
  cfg_co_signer :: "address option"
  cfg_token :: "address option"
  cfg_pool_cap :: "int option"
  cfg_vault :: "address option"
  cfg_treasury :: "address option"
  cfg_deploy_bps :: "int option"
  cfg_paused :: "bool option"

definition config_of :: "'w state \<Rightarrow> config" where
  "config_of s =
     \<lparr>cfg_admin = st_admin s, cfg_oracle = st_oracle s, cfg_oracle_pubkey = st_oracle_pubkey s,
      cfg_co_signer = st_co_signer s, cfg_token = st_xlm_token s, cfg_pool_cap = st_pool_cap s,
      cfg_vault = st_vault s, cfg_treasury = st_treasury s, cfg_deploy_bps = st_deploy_bps s,
      cfg_paused = st_paused s\<rparr>"

definition by_admin :: "env \<Rightarrow> 'w state \<Rightarrow> bool" where
  "by_admin e s \<longleftrightarrow> (\<exists>admin. st_admin s = Some admin \<and> e_auth e admin)"

text \<open>The calls that reconfigure the contract, and what each writes.\<close>

definition reconfigured :: "pool_call \<Rightarrow> 'w state \<Rightarrow> config" where
  "reconfigured c s =
     (case c of
        TransferAdmin a \<Rightarrow> (config_of s)\<lparr>cfg_admin := Some a\<rparr>
      | Pause \<Rightarrow> (config_of s)\<lparr>cfg_paused := Some True\<rparr>
      | Unpause \<Rightarrow> (config_of s)\<lparr>cfg_paused := Some False\<rparr>
      | SetPoolCap cap \<Rightarrow> (config_of s)\<lparr>cfg_pool_cap := Some cap\<rparr>
      | SetOracle a \<Rightarrow> (config_of s)\<lparr>cfg_oracle := Some a\<rparr>
      | SetOraclePubkey pk \<Rightarrow> (config_of s)\<lparr>cfg_oracle_pubkey := Some pk\<rparr>
      | SetOracleIdentity a pk \<Rightarrow> (config_of s)\<lparr>cfg_oracle := Some a, cfg_oracle_pubkey := Some pk\<rparr>
      | SetCoSigner a \<Rightarrow> (config_of s)\<lparr>cfg_co_signer := Some a\<rparr>
      | SetVault a \<Rightarrow> (config_of s)\<lparr>cfg_vault := Some a\<rparr>
      | SetTreasury a \<Rightarrow> (config_of s)\<lparr>cfg_treasury := Some a\<rparr>
      | SetDeployBps bps \<Rightarrow> (config_of s)\<lparr>cfg_deploy_bps := Some bps\<rparr>
      | _ \<Rightarrow> config_of s)"

definition reconfigures :: "pool_call \<Rightarrow> bool" where
  "reconfigures c \<longleftrightarrow>
     (case c of TransferAdmin _ \<Rightarrow> True | Pause \<Rightarrow> True | Unpause \<Rightarrow> True | SetPoolCap _ \<Rightarrow> True
      | SetOracle _ \<Rightarrow> True | SetOraclePubkey _ \<Rightarrow> True | SetOracleIdentity _ _ \<Rightarrow> True
      | SetCoSigner _ \<Rightarrow> True | SetVault _ \<Rightarrow> True | SetTreasury _ \<Rightarrow> True
      | SetDeployBps _ \<Rightarrow> True | _ \<Rightarrow> False)"

lemma execute_override_config:
  "execute_override H e k req s = Ok s' \<Longrightarrow> config_of (remove_override k s') = config_of s"
  by (auto dest!: execute_override_Ok simp: config_of_def effect_defs)

lemma redeem_calls_config:
  "provide_liquidity H e sh mn s = Ok (x, s') \<Longrightarrow> config_of s' = config_of s"
  "ensure_liquidity H e s = Ok (x, s') \<Longrightarrow> config_of s' = config_of s"
  "extract_yield H e sh mn s = Ok (x, s') \<Longrightarrow> config_of s' = config_of s"
  by (auto dest!: provide_liquidity_Ok ensure_liquidity_Ok extract_yield_Ok
      simp: config_of_def after_redeem_def)

lemma deploy_calls_config:
  "deploy_to_vault H e a mn s = Ok (x, s') \<Longrightarrow> config_of s' = config_of s"
  "auto_deploy_liquidity H e s = Ok (x, s') \<Longrightarrow> config_of s' = config_of s"
  "withdraw_yield H e a s = Ok (u, s') \<Longrightarrow> config_of s' = config_of s"
  by (auto dest!: deploy_to_vault_Ok auto_deploy_liquidity_Ok withdraw_yield_Ok
      simp: config_of_def)

lemma staking_config:
  "stake H e st a b s = Ok (u, s') \<Longrightarrow> config_of s' = config_of s"
  "set_beneficiary H e st b s = Ok (u, s') \<Longrightarrow> config_of s' = config_of s"
  "withdraw H e st b s = Ok (u, s') \<Longrightarrow> config_of s' = config_of s"
  "emergency_exit H e st s = Ok (u, s') \<Longrightarrow> config_of s' = config_of s"
  "suspend_stake H e wallet s = Ok (u, s') \<Longrightarrow> config_of s' = config_of s"
  "unsuspend_stake H e wallet k s = Ok (u, s') \<Longrightarrow> config_of s' = config_of s"
  by (auto dest!: stake_Ok set_beneficiary_Ok withdraw_Ok emergency_exit_Ok suspend_stake_Ok
      unsuspend_stake_Ok simp: config_of_def exited_def)

lemma claim_calls_config:
  "submit_claim H e cl wallet tx ent tier hack dl sig s = Ok (cid, s') \<Longrightarrow> config_of s' = config_of s"
  "try_release_queued_claim H e k s = Ok (u, s') \<Longrightarrow> config_of s' = config_of s"
  "expire_queued_claim H e k s = Ok (u, s') \<Longrightarrow> config_of s' = config_of s"
  "revoke_approval H e cl wallet tx ent tier hack dl s = Ok (u, s') \<Longrightarrow> config_of s' = config_of s"
  by (auto dest!: submit_claim_Ok try_release_queued_claim_Ok expire_queued_claim_Ok
      revoke_approval_Ok simp: config_of_def queued_def admitted_def split: if_splits)

lemma lifecycle_config:
  "unlock_pending_claim H e k s = Ok (u, s') \<Longrightarrow> config_of s' = config_of s"
  "approve_claim H e k s = Ok (u, s') \<Longrightarrow> config_of s' = config_of s"
  "expire_pending_approval H e k s = Ok (u, s') \<Longrightarrow> config_of s' = config_of s"
  "expire_stale_claim H e k s = Ok (u, s') \<Longrightarrow> config_of s' = config_of s"
  "claim_stream H e k b s = Ok (x, s') \<Longrightarrow> config_of s' = config_of s"
  "cancel_claim H e k s = Ok (u, s') \<Longrightarrow> config_of s' = config_of s"
  by (auto dest!: unlock_pending_claim_Ok approve_claim_Ok expire_pending_approval_Ok
      expire_stale_claim_Ok claim_stream_Ok cancel_claim_Ok
      simp: config_of_def activated_def forfeited_def released_def streamed_to_def cancelled_def)

lemma override_config:
  "approve_override H e cl wallet tx ent tier s = Ok (u, s') \<Longrightarrow> config_of s' = config_of s"
  "cancel_pending_override H e cl wallet tx s = Ok (u, s') \<Longrightarrow> config_of s' = config_of s"
  by (auto dest!: approve_override_Ok cancel_pending_override_Ok execute_override_config
      simp: config_of_def)

lemmas unconfigured =
  staking_config claim_calls_config lifecycle_config override_config redeem_calls_config
  deploy_calls_config

lemma admin_call_config:
  assumes "exec H e c s = Ok (r, s')" "reconfigures c"
  shows "config_of s' = reconfigured c s \<and> by_admin e s"
  using assms
  by (cases c)
    (auto simp: returns_eq_Ok reconfigures_def reconfigured_def config_of_def by_admin_def
      dest!: transfer_admin_Ok pause_Ok unpause_Ok set_pool_cap_Ok set_oracle_Ok
        set_oracle_pubkey_Ok set_oracle_identity_Ok set_co_signer_Ok set_vault_Ok
        set_treasury_Ok set_deploy_bps_Ok)

lemma other_call_config:
  assumes "exec H e c s = Ok (r, s')" "\<not> reconfigures c"
  shows "config_of s' = config_of s"
  using assms
  by (cases c) (auto simp: returns_eq_Ok reconfigures_def dest: unconfigured)

section \<open>Invariants of the configuration\<close>

definition roles_separated :: "'w state \<Rightarrow> bool" where
  "roles_separated s \<longleftrightarrow>
     (\<exists>admin orc cos. st_admin s = Some admin \<and> st_oracle s = Some orc \<and> st_co_signer s = Some cos \<and>
        cos \<noteq> admin \<and> orc \<noteq> cos)"

definition config_bounds :: "'w state \<Rightarrow> bool" where
  "config_bounds s \<longleftrightarrow>
     st_xlm_token s \<noteq> None \<and> st_oracle_pubkey s \<noteq> None \<and>
     (\<exists>cap. st_pool_cap s = Some cap \<and> 0 < cap) \<and>
     0 \<le> get_deploy_bps s \<and> get_deploy_bps s \<le> MAX_DEPLOY_BPS"

lemma config_of_cong:
  assumes "config_of s' = config_of s"
  shows "roles_separated s' \<longleftrightarrow> roles_separated s" "config_bounds s' \<longleftrightarrow> config_bounds s"
  using assms
  by (simp_all add: config_of_def roles_separated_def config_bounds_def get_deploy_bps_def)

lemma admin_calls_keep_roles:
  assumes "exec H e c s = Ok (r, s')" "reconfigures c" "roles_separated s"
  shows "roles_separated s'"
  using assms
  by (cases c)
    (auto simp: returns_eq_Ok reconfigures_def roles_separated_def
      dest!: transfer_admin_Ok pause_Ok unpause_Ok set_pool_cap_Ok set_oracle_Ok
        set_oracle_pubkey_Ok set_oracle_identity_Ok set_co_signer_Ok set_vault_Ok
        set_treasury_Ok set_deploy_bps_Ok)

lemma admin_calls_keep_bounds:
  assumes "exec H e c s = Ok (r, s')" "reconfigures c" "config_bounds s"
  shows "config_bounds s'"
  using assms
  by (cases c)
    (auto simp: returns_eq_Ok reconfigures_def config_bounds_def get_deploy_bps_def
      dest!: transfer_admin_Ok pause_Ok unpause_Ok set_pool_cap_Ok set_oracle_Ok
        set_oracle_pubkey_Ok set_oracle_identity_Ok set_co_signer_Ok set_vault_Ok
        set_treasury_Ok set_deploy_bps_Ok)

lemma exec_keeps_roles:
  assumes "exec H e c s = Ok (r, s')" "roles_separated s"
  shows "roles_separated s'"
proof (cases "reconfigures c")
  case True
  with assms show ?thesis by (blast intro: admin_calls_keep_roles)
next
  case False
  with assms show ?thesis
    using config_of_cong(1) [OF other_call_config [OF assms(1) False]] by simp
qed

lemma exec_keeps_bounds:
  assumes "exec H e c s = Ok (r, s')" "config_bounds s"
  shows "config_bounds s'"
proof (cases "reconfigures c")
  case True
  with assms show ?thesis by (blast intro: admin_calls_keep_bounds)
next
  case False
  with assms show ?thesis
    using config_of_cong(2) [OF other_call_config [OF assms(1) False]] by simp
qed

interpretation roles: pool_invariant H roles_separated
proof
  fix e admin orc pk cos token cap and w :: 'a and u and s :: "'a state"
  assume "initialize H e admin orc pk cos token cap (empty_state w) = Ok (u, s)"
  then show "roles_separated s"
    by (auto dest!: initialize_Ok simp: roles_separated_def)
next
  fix s :: "'a state" and w
  show "roles_separated s \<Longrightarrow> roles_separated (s\<lparr>st_world := w\<rparr>)"
    by (simp add: roles_separated_def)
qed (rule exec_keeps_roles)

interpretation bounds: pool_invariant H config_bounds
proof
  fix e admin orc pk cos token cap and w :: 'a and u and s :: "'a state"
  assume "initialize H e admin orc pk cos token cap (empty_state w) = Ok (u, s)"
  then show "config_bounds s"
    by (auto dest!: initialize_Ok
        simp: config_bounds_def get_deploy_bps_def empty_state_def MAX_DEPLOY_BPS_def)
next
  fix s :: "'a state" and w
  show "config_bounds s \<Longrightarrow> config_bounds (s\<lparr>st_world := w\<rparr>)"
    by (simp add: config_bounds_def get_deploy_bps_def)
qed (rule exec_keeps_bounds)

section \<open>The pause switch\<close>

definition pausable :: "pool_call \<Rightarrow> bool" where
  "pausable c \<longleftrightarrow>
     (case c of Stake _ _ _ \<Rightarrow> True | SetBeneficiary _ _ \<Rightarrow> True | Withdraw _ _ \<Rightarrow> True
      | SubmitClaim _ _ _ _ _ _ _ _ \<Rightarrow> True | TryReleaseQueuedClaim _ \<Rightarrow> True
      | ExpireQueuedClaim _ \<Rightarrow> True | UnlockPendingClaim _ \<Rightarrow> True | ApproveClaim _ \<Rightarrow> True
      | ClaimStream _ _ \<Rightarrow> True | ApproveOverride _ _ _ _ _ \<Rightarrow> True | DeployToVault _ _ \<Rightarrow> True
      | AutoDeployLiquidity \<Rightarrow> True | _ \<Rightarrow> False)"

section \<open>Properties\<close>

text \<open>
  C15. Every reachable state keeps the three roles apart: the co-signer is neither the admin nor
  the oracle, so no single key can complete the 2-of-2 override on its own. And the constructor
  that first set them cannot run again, with whatever arguments and whoever signs.
\<close>

theorem reachable_roles_separated:
  assumes "reachable H s"
  shows "roles_separated s \<and>
    constructor H e admin orc pk cos token cap s = Err AlreadyInitialized"
proof -
  from assms have "roles_separated s" by (rule roles.in_every_reachable_state)
  then show ?thesis by (auto simp: roles_separated_def constructor_def initialize_def)
qed

theorem reachable_roles_separated_witness:
  "roles_separated (after staked_run) \<and>
     constructor ref_host (on_day 9 [1]) 1 2 [5] 3 50 1000000 (after staked_run) = Err AlreadyInitialized"
  by (rule reachable_roles_separated [OF after_reachable [OF staked_run_ok staked_run_envs]])

text \<open>
  C14. The configuration changes only in a call the current admin authorized, and then exactly as
  that call's setter says; every other entry point leaves all of it alone.
\<close>

theorem configuration_changes_only_by_admin:
  assumes "exec H e c s = Ok (r, s')"
  shows "if reconfigures c then by_admin e s \<and> config_of s' = reconfigured c s
         else config_of s' = config_of s"
  using admin_call_config [OF assms] other_call_config [OF assms] by simp

theorem configuration_changes_only_by_admin_witness:
  "is_ok (exec ref_host (on_day 2 [1]) (SetPoolCap 2000000) (after staked_run)) \<and>
   by_admin (on_day 2 [1]) (after staked_run)"
proof -
  have ok: "is_ok (exec ref_host (on_day 2 [1]) (SetPoolCap 2000000) (after staked_run))"
    by code_simp
  show ?thesis
    using ok configuration_changes_only_by_admin [OF is_ok_result [OF ok]]
    by (simp add: reconfigures_def)
qed

text \<open>
  C32. While the pool is paused, every entry point that moves user money into or through the
  protection layer is refused with \<open>Paused\<close> before it looks at anything else.
\<close>

theorem paused_calls_refused:
  assumes "is_paused s" "pausable c"
  shows "exec H e c s = Err Paused"
  using assms
  by (cases c)
    (simp_all add: pausable_def returns_def require_not_paused_def stake_def set_beneficiary_def
      withdraw_def submit_claim_def submit_checks_def try_release_queued_claim_def
      expire_queued_claim_def unlock_pending_claim_def approve_claim_def claim_stream_def
      approve_override_def deploy_to_vault_def auto_deploy_liquidity_def)

theorem paused_calls_refused_witness:
  "exec ref_host (on_day 2 [11]) (Withdraw 11 21) (after (staked_run @ [(on_day 1 [1], Pause)]))
     = Err Paused"
proof (rule paused_calls_refused)
  show "is_paused (after (staked_run @ [(on_day 1 [1], Pause)]))"
    by code_simp
qed (simp add: pausable_def)

end
