(* ===== verification/Claim_Ledger.thy ===== *)
theory Claim_Ledger
  imports Access_Control
begin

text \<open>
  The abstract specification of the claim machinery: a ledger of claims with one number, the
  allocated reserve, and the steps it may take. Every entry point of the contract refines one
  such step; the life cycle of a claim and the sufficiency of the reserve are proved on the
  ledger and carried over.
\<close>

section \<open>The abstract ledger\<close>

record ledger =
  lg_claims :: "bytes \<rightharpoonup> claim"
  lg_allocated :: int

definition freed :: "claim option \<Rightarrow> int \<Rightarrow> int" where
  "freed existing a =
     (case existing of None \<Rightarrow> a
      | Some c \<Rightarrow> if live_status (cl_status c) then saturating_sub_i128 a (cl_entitlement c - cl_streamed c)
                else a)"

inductive ledger_step :: "env \<Rightarrow> ledger \<Rightarrow> ledger \<Rightarrow> bool" for e where
  stutter: "ledger_step e L L"
| admit: "\<lbrakk>\<forall>c0. lg_claims L k = Some c0 \<longrightarrow> cl_status c0 = Unused;
     cl_status c \<in> {PendingTime, AwaitingApproval}; 0 < cl_entitlement c; cl_streamed c = 0;
     in_i128 (lg_allocated L + cl_entitlement c)\<rbrakk> \<Longrightarrow>
   ledger_step e L \<lparr>lg_claims = (lg_claims L)(k \<mapsto> c), lg_allocated = lg_allocated L + cl_entitlement c\<rparr>"
| release: "\<lbrakk>lg_claims L k = Some c0; cl_status c0 = Reserved;
     cl_status c \<in> {PendingTime, AwaitingApproval}; cl_entitlement c = cl_entitlement c0;
     cl_streamed c = 0; in_i128 (lg_allocated L + cl_entitlement c)\<rbrakk> \<Longrightarrow>
   ledger_step e L \<lparr>lg_claims = (lg_claims L)(k \<mapsto> c), lg_allocated = lg_allocated L + cl_entitlement c\<rparr>"
| queue: "\<lbrakk>\<forall>c0. lg_claims L k = Some c0 \<longrightarrow> cl_status c0 = Unused;
     cl_status c = Reserved; 0 < cl_entitlement c; cl_streamed c = 0\<rbrakk> \<Longrightarrow>
   ledger_step e L \<lparr>lg_claims = (lg_claims L)(k \<mapsto> c), lg_allocated = lg_allocated L\<rparr>"
| drop_queued: "\<lbrakk>lg_claims L k = Some c; cl_status c = Reserved\<rbrakk> \<Longrightarrow>
   ledger_step e L \<lparr>lg_claims = (lg_claims L)(k \<mapsto> c\<lparr>cl_status := Expired\<rparr>),
     lg_allocated = lg_allocated L\<rparr>"
| unlock: "\<lbrakk>lg_claims L k = Some c; cl_status c = PendingTime\<rbrakk> \<Longrightarrow>
   ledger_step e L \<lparr>lg_claims = (lg_claims L)(k \<mapsto> c\<lparr>cl_status := AwaitingApproval,
       cl_approve_deadline_ledger := e_seq e + APPROVE_WINDOW_LEDGERS\<rparr>),
     lg_allocated = lg_allocated L\<rparr>"
| activate: "\<lbrakk>lg_claims L k = Some c; cl_status c = AwaitingApproval\<rbrakk> \<Longrightarrow>
   ledger_step e L \<lparr>lg_claims = (lg_claims L)(k \<mapsto> activated_claim e snapshot amount c),
     lg_allocated = lg_allocated L\<rparr>"
| sweep_pending: "\<lbrakk>lg_claims L k = Some c; cl_status c = AwaitingApproval\<rbrakk> \<Longrightarrow>
   ledger_step e L \<lparr>lg_claims = (lg_claims L)(k \<mapsto> c\<lparr>cl_status := Expired\<rparr>),
     lg_allocated = saturating_sub_i128 (lg_allocated L) (cl_entitlement c)\<rparr>"
| sweep_stale: "\<lbrakk>lg_claims L k = Some c; cl_status c = Active\<rbrakk> \<Longrightarrow>
   ledger_step e L \<lparr>lg_claims = (lg_claims L)(k \<mapsto> c\<lparr>cl_status := Expired\<rparr>),
     lg_allocated = saturating_sub_i128 (lg_allocated L) (cl_entitlement c - cl_streamed c)\<rparr>"
| cancel: "\<lbrakk>lg_claims L k = Some c; live_status (cl_status c)\<rbrakk> \<Longrightarrow>
   ledger_step e L \<lparr>lg_claims = (lg_claims L)(k \<mapsto> c\<lparr>cl_status := Cancelled\<rparr>),
     lg_allocated = saturating_sub_i128 (lg_allocated L) (cl_entitlement c - cl_streamed c)\<rparr>"
| stream: "\<lbrakk>lg_claims L k = Some c; cl_status c = Active; vested_total e c = Ok vested;
     0 < amount; amount \<le> vested - cl_streamed c\<rbrakk> \<Longrightarrow>
   ledger_step e L \<lparr>lg_claims = (lg_claims L)(k \<mapsto> collected e (cl_streamed c + amount) c),
     lg_allocated = saturating_sub_i128 (lg_allocated L) amount\<rparr>"
| override: "\<lbrakk>\<forall>c0. lg_claims L k = Some c0 \<longrightarrow> cl_status c0 \<noteq> Completed;
     cl_status c = Active; 0 < cl_entitlement c; cl_streamed c = carried (lg_claims L k);
     cl_vesting_ends_ledger c = cl_cooldown_ends_ledger c + VESTING_LEDGERS;
     in_i128 (freed (lg_claims L k) (lg_allocated L) + cl_entitlement c)\<rbrakk> \<Longrightarrow>
   ledger_step e L \<lparr>lg_claims = (lg_claims L)(k \<mapsto> c),
     lg_allocated = freed (lg_claims L k) (lg_allocated L) + cl_entitlement c\<rparr>"
| reset_clock: "lg_claims L k = Some c \<Longrightarrow>
   ledger_step e L \<lparr>lg_claims = (lg_claims L)(k \<mapsto> clock_reset e c), lg_allocated = lg_allocated L\<rparr>"

inductive_cases ledger_step_cases: "ledger_step e L L'"

definition ledger_of :: "'w state \<Rightarrow> ledger" where
  "ledger_of s = \<lparr>lg_claims = st_claims s, lg_allocated = get_total_allocated s\<rparr>"

lemma ledger_of_simps [simp]:
  "lg_claims (ledger_of s) = st_claims s" "lg_allocated (ledger_of s) = get_total_allocated s"
  by (simp_all add: ledger_of_def)

lemma freed_eq: "freed (st_claims s k) (get_total_allocated s) = allocated_without (st_claims s k) s"
  by (simp add: freed_def allocated_without_def split: option.splits)

section \<open>Every entry point refines a ledger step\<close>

lemma stutters:
  assumes "st_claims s' = st_claims s" "st_total_allocated s' = st_total_allocated s"
  shows "ledger_step e (ledger_of s) (ledger_of s')"
proof -
  have "ledger_of s' = ledger_of s"
    using assms by (simp add: ledger_of_def get_total_allocated_def)
  then show ?thesis using ledger_step.stutter by simp
qed

lemma staking_refines:
  "stake H e st a b s = Ok (u, s') \<Longrightarrow> ledger_step e (ledger_of s) (ledger_of s')"
  "set_beneficiary H e st b s = Ok (u, s') \<Longrightarrow> ledger_step e (ledger_of s) (ledger_of s')"
  "withdraw H e st b s = Ok (u, s') \<Longrightarrow> ledger_step e (ledger_of s) (ledger_of s')"
  "emergency_exit H e st s = Ok (u, s') \<Longrightarrow> ledger_step e (ledger_of s) (ledger_of s')"
  "suspend_stake H e wallet s = Ok (u, s') \<Longrightarrow> ledger_step e (ledger_of s) (ledger_of s')"
  by (rule stutters; auto dest!: stake_Ok set_beneficiary_Ok withdraw_Ok emergency_exit_Ok
      suspend_stake_Ok simp: exited_def)+

lemma vault_refines:
  "deploy_to_vault H e a mn s = Ok (x, s') \<Longrightarrow> ledger_step e (ledger_of s) (ledger_of s')"
  "auto_deploy_liquidity H e s = Ok (x, s') \<Longrightarrow> ledger_step e (ledger_of s) (ledger_of s')"
  "provide_liquidity H e sh mn s = Ok (x, s') \<Longrightarrow> ledger_step e (ledger_of s) (ledger_of s')"
  "ensure_liquidity H e s = Ok (x, s') \<Longrightarrow> ledger_step e (ledger_of s) (ledger_of s')"
  "extract_yield H e sh mn s = Ok (x, s') \<Longrightarrow> ledger_step e (ledger_of s) (ledger_of s')"
  "withdraw_yield H e a s = Ok (u, s') \<Longrightarrow> ledger_step e (ledger_of s) (ledger_of s')"
  by (rule stutters; auto dest!: deploy_to_vault_Ok auto_deploy_liquidity_Ok provide_liquidity_Ok
      ensure_liquidity_Ok extract_yield_Ok withdraw_yield_Ok simp: after_redeem_def)+

lemma quiet_refines:
  "cancel_pending_override H e cl wallet tx s = Ok (u, s') \<Longrightarrow>
     ledger_step e (ledger_of s) (ledger_of s')"
  "revoke_approval H e cl wallet tx ent tier hack dl s = Ok (u, s') \<Longrightarrow>
     ledger_step e (ledger_of s) (ledger_of s')"
  by (rule stutters; auto dest!: cancel_pending_override_Ok revoke_approval_Ok)+

lemma unsuspend_refines:
  assumes "unsuspend_stake H e wallet k s = Ok (u, s')"
  shows "ledger_step e (ledger_of s) (ledger_of s')"
proof -
  have same: "st_claims s' = st_claims s \<Longrightarrow> st_total_allocated s' = st_total_allocated s \<Longrightarrow> ?thesis"
    by (rule stutters)
  have reset: "?thesis" if "st_claims s j = Some c" "st_claims s' = (st_claims s)(j \<mapsto> clock_reset e c)"
    "st_total_allocated s' = st_total_allocated s" for j c
    using that ledger_step.reset_clock [of "ledger_of s" j c e]
    by (simp add: ledger_of_def get_total_allocated_def)
  show ?thesis
    using unsuspend_stake_Ok [OF assms]
    by (elim exE conjE disjE) ((rule same; simp), (rule reset; simp))
qed

lemma submit_refines:
  assumes "submit_claim H e cl wallet tx ent tier hack dl sig s = Ok (k, s')"
  shows "ledger_step e (ledger_of s) (ledger_of s')"
  using submit_claim_Ok [OF assms]
proof (elim exE conjE)
  fix r blocked orc lu ev
  assume chk: "submit_checks H e cl wallet tx ent tier hack dl sig s = Ok r"
    and b: "cannot_admit_now e cl ent s = Ok blocked"
    and new: "\<forall>c. st_claims s k = Some c \<longrightarrow> cl_status c = Unused"
    and s': "if blocked
      then s' = (queued k (new_claim wallet tx hack ent (sr_amount r) tier Reserved) r s)
        \<lparr>st_live_until := lu, st_events := ev\<rparr>
      else s' = (admitted e k (admitted_claim e wallet tx ent tier hack r) r (if cl = orc then 1 else 0) s)
        \<lparr>st_live_until := lu, st_events := ev\<rparr>"
  from submit_checks_Ok [OF chk] have pos: "0 < ent" by blast
  from b have rng: "in_i128 (get_total_allocated s + ent)" by (auto simp: cannot_admit_now_eq_Ok)
  show ?thesis
  proof (cases blocked)
    case True
    with s' have "ledger_of s' = \<lparr>lg_claims = (st_claims s)(k \<mapsto>
        new_claim wallet tx hack ent (sr_amount r) tier Reserved), lg_allocated = get_total_allocated s\<rparr>"
      by (simp add: ledger_of_def queued_def get_total_allocated_def)
    with new pos show ?thesis
      using ledger_step.queue [of "ledger_of s" k "new_claim wallet tx hack ent (sr_amount r) tier Reserved" e]
      by simp
  next
    case False
    with s' have "ledger_of s' = \<lparr>lg_claims = (st_claims s)(k \<mapsto> admitted_claim e wallet tx ent tier hack r),
        lg_allocated = get_total_allocated s + ent\<rparr>"
      by (simp add: ledger_of_def admitted_def get_total_allocated_def)
    with new pos rng show ?thesis
      using ledger_step.admit [of "ledger_of s" k "admitted_claim e wallet tx ent tier hack r" e]
      by simp
  qed
qed

lemma release_refines:
  assumes "try_release_queued_claim H e k s = Ok (u, s')"
  shows "ledger_step e (ledger_of s) (ledger_of s')"
proof -
  from try_release_queued_claim_Ok [OF assms] obtain c r lu ev where c: "st_claims s k = Some c"
    "cl_status c = Reserved" "in_i128 (get_total_allocated s + cl_entitlement c)"
    and s': "s' = (admitted e k (admitted_claim e (cl_wallet c) (cl_tx_hash c) (cl_entitlement c)
        (cl_tier c) (cl_hack_timestamp c) r) r 0 s)\<lparr>st_live_until := lu, st_events := ev\<rparr>"
    by blast
  define c' where "c' = admitted_claim e (cl_wallet c) (cl_tx_hash c) (cl_entitlement c)
        (cl_tier c) (cl_hack_timestamp c) r"
  from s' have "ledger_of s' = \<lparr>lg_claims = (st_claims s)(k \<mapsto> c'),
      lg_allocated = get_total_allocated s + cl_entitlement c'\<rparr>"
    by (simp add: ledger_of_def admitted_def get_total_allocated_def c'_def)
  with c show ?thesis
    using ledger_step.release [of "ledger_of s" k c c' e] by (simp add: c'_def)
qed

lemma expire_queued_refines:
  assumes "expire_queued_claim H e k s = Ok (u, s')"
  shows "ledger_step e (ledger_of s) (ledger_of s')"
  using expire_queued_claim_Ok [OF assms] ledger_step.drop_queued [of "ledger_of s" k _ e]
  by (auto simp: ledger_of_def get_total_allocated_def)

lemma unlock_refines:
  assumes "unlock_pending_claim H e k s = Ok (u, s')"
  shows "ledger_step e (ledger_of s) (ledger_of s')"
  using unlock_pending_claim_Ok [OF assms] ledger_step.unlock [of "ledger_of s" k _ e]
  by (auto simp: ledger_of_def get_total_allocated_def)

lemma approve_refines:
  assumes "approve_claim H e k s = Ok (u, s')"
  shows "ledger_step e (ledger_of s) (ledger_of s')"
  using approve_claim_Ok [OF assms] ledger_step.activate [of "ledger_of s" k _ e]
  by (auto simp: ledger_of_def get_total_allocated_def activated_def forfeited_def)

lemma sweep_refines:
  "expire_pending_approval H e k s = Ok (u, s') \<Longrightarrow> ledger_step e (ledger_of s) (ledger_of s')"
  "expire_stale_claim H e k s = Ok (u, s') \<Longrightarrow> ledger_step e (ledger_of s) (ledger_of s')"
  using ledger_step.sweep_pending [of "ledger_of s" k _ e] ledger_step.sweep_stale [of "ledger_of s" k _ e]
  by (auto simp: ledger_of_def get_total_allocated_def released_def
      dest!: expire_pending_approval_Ok expire_stale_claim_Ok)

lemma cancel_refines:
  assumes "cancel_claim H e k s = Ok (u, s')"
  shows "ledger_step e (ledger_of s) (ledger_of s')"
proof -
  from cancel_claim_Ok [OF assms] obtain c r lu ev where c: "st_claims s k = Some c"
    "live_status (cl_status c)"
    and s': "s' = (cancelled e k c r s)\<lparr>st_live_until := lu, st_events := ev\<rparr>"
    by (auto simp: live_status_def)
  from s' have "ledger_of s' = \<lparr>lg_claims = (st_claims s)(k \<mapsto> c\<lparr>cl_status := Cancelled\<rparr>),
      lg_allocated = saturating_sub_i128 (get_total_allocated s) (cl_entitlement c - cl_streamed c)\<rparr>"
    by (simp add: ledger_of_def get_total_allocated_def cancelled_def released_def)
  with c show ?thesis using ledger_step.cancel [of "ledger_of s" k c e] by simp
qed

lemma stream_refines:
  assumes "claim_stream H e k b s = Ok (amount, s')"
  shows "ledger_step e (ledger_of s) (ledger_of s')"
proof -
  from claim_stream_Ok [OF assms] obtain c vested available w lu ev where c: "st_claims s k = Some c"
    "cl_status c = Active" "vested_total e c = Ok vested" "0 < amount"
    and am: "amount = min (vested - cl_streamed c) available"
    and s': "s' = (streamed_to e k c amount s)\<lparr>st_live_until := lu, st_events := ev, st_world := w\<rparr>"
    by blast
  from am have le: "amount \<le> vested - cl_streamed c" by simp
  from s' have "ledger_of s' = \<lparr>lg_claims = (st_claims s)(k \<mapsto> collected e (cl_streamed c + amount) c),
      lg_allocated = saturating_sub_i128 (get_total_allocated s) amount\<rparr>"
    by (simp add: ledger_of_def get_total_allocated_def streamed_to_def)
  with c le show ?thesis using ledger_step.stream [of "ledger_of s" k c e vested amount] by simp
qed

lemma approve_override_executes:
  assumes "approve_override H e cl wallet tx ent tier s = Ok (u, s')"
  shows "(\<exists>k req s1. 0 < ent \<and> ov_entitlement req = ent \<and> execute_override H e k req s = Ok s1 \<and>
            s' = remove_override k s1) \<or>
         st_claims s' = st_claims s \<and> st_total_allocated s' = st_total_allocated s"
  using approve_override_Ok [OF assms] by (elim exE conjE disjE) (blast | simp)+

lemma override_refines:
  assumes "approve_override H e cl wallet tx ent tier s = Ok (u, s')"
  shows "ledger_step e (ledger_of s) (ledger_of s')"
  using approve_override_executes [OF assms]
proof (elim exE conjE disjE)
  fix k req s1
  assume ent: "0 < ent" "ov_entitlement req = ent" and ex: "execute_override H e k req s = Ok s1"
    and s': "s' = remove_override k s1"
  from execute_override_Ok [OF ex] obtain r lu ev where
    nc: "\<forall>c. st_claims s k = Some c \<longrightarrow> cl_status c \<noteq> Completed"
    and rng: "in_i128 (allocated_without (st_claims s k) s + ov_entitlement req)"
    and s1: "s1 = (overridden e k req r s)\<lparr>st_live_until := lu, st_events := ev\<rparr>"
    by blast
  define c where "c = activated_claim e (get_total_staked s) (sr_amount r)
    (override_claim e req (carried (st_claims s k)) (sr_amount r))"
  from s' s1 have "ledger_of s' = \<lparr>lg_claims = (st_claims s)(k \<mapsto> c),
      lg_allocated = freed (st_claims s k) (get_total_allocated s) + ov_entitlement req\<rparr>"
    by (simp add: ledger_of_def get_total_allocated_def remove_override_def overridden_def c_def
        freed_eq [unfolded get_total_allocated_def])
  with ent nc rng show ?thesis
    using ledger_step.override [of "ledger_of s" k c e] by (simp add: c_def freed_eq)
qed (rule stutters)

lemma admin_refines:
  assumes "exec H e c s = Ok (r, s')" "reconfigures c"
  shows "ledger_step e (ledger_of s) (ledger_of s')"
  using assms
  by (cases c; intro stutters)
    (auto simp: returns_eq_Ok reconfigures_def
      dest!: transfer_admin_Ok pause_Ok unpause_Ok set_pool_cap_Ok set_oracle_Ok
        set_oracle_pubkey_Ok set_oracle_identity_Ok set_co_signer_Ok set_vault_Ok
        set_treasury_Ok set_deploy_bps_Ok)

lemmas refines =
  staking_refines vault_refines quiet_refines unsuspend_refines submit_refines release_refines
  expire_queued_refines unlock_refines approve_refines sweep_refines cancel_refines stream_refines
  override_refines

lemma exec_refines:
  assumes "exec H e c s = Ok (r, s')"
  shows "ledger_step e (ledger_of s) (ledger_of s')"
proof (cases "reconfigures c")
  case True
  with assms show ?thesis by (rule admin_refines)
next
  case False
  with assms show ?thesis
    by (cases c) (auto simp: returns_eq_Ok reconfigures_def dest: refines)
qed

section \<open>The life cycle of a claim\<close>

fun transition :: "claim_status option \<Rightarrow> claim_status option \<Rightarrow> bool" where
  "transition None t \<longleftrightarrow>
     t \<in> {None, Some Reserved, Some PendingTime, Some AwaitingApproval, Some Active}"
| "transition (Some Unused) t \<longleftrightarrow>
     t \<in> {Some Unused, Some Reserved, Some PendingTime, Some AwaitingApproval, Some Active}"
| "transition (Some Reserved) t \<longleftrightarrow>
     t \<in> {Some Reserved, Some PendingTime, Some AwaitingApproval, Some Expired, Some Active}"
| "transition (Some PendingTime) t \<longleftrightarrow>
     t \<in> {Some PendingTime, Some AwaitingApproval, Some Cancelled, Some Active}"
| "transition (Some AwaitingApproval) t \<longleftrightarrow>
     t \<in> {Some AwaitingApproval, Some Active, Some Expired, Some Cancelled}"
| "transition (Some Active) t \<longleftrightarrow>
     t \<in> {Some Active, Some Completed, Some Expired, Some Cancelled}"
| "transition (Some Completed) t \<longleftrightarrow> t = Some Completed"
| "transition (Some Cancelled) t \<longleftrightarrow> t \<in> {Some Cancelled, Some Active}"
| "transition (Some Expired) t \<longleftrightarrow> t \<in> {Some Expired, Some Active}"

definition status_at :: "(bytes \<rightharpoonup> claim) \<Rightarrow> bytes \<Rightarrow> claim_status option" where
  "status_at m k = map_option cl_status (m k)"

lemma transition_refl: "transition t t"
proof (cases t)
  case (Some st)
  then show ?thesis by (cases st) simp_all
qed simp

lemma ledger_step_transition:
  assumes "ledger_step e L L'"
  shows "transition (status_at (lg_claims L) k) (status_at (lg_claims L') k)"
  using assms
proof (cases rule: ledger_step.cases)
  case (override j c)
  then show ?thesis
    by (cases "j = k"; cases "lg_claims L k"; cases "cl_status (the (lg_claims L k))")
      (auto simp: status_at_def transition_refl)
next
  case (cancel j c)
  then show ?thesis
    by (cases "j = k") (auto simp: status_at_def transition_refl live_status_def)
next
  case (admit j c)
  then show ?thesis
    by (cases "j = k"; cases "lg_claims L k") (auto simp: status_at_def transition_refl)
next
  case (queue j c)
  then show ?thesis
    by (cases "j = k"; cases "lg_claims L k") (auto simp: status_at_def transition_refl)
qed (auto simp: status_at_def transition_refl split: if_splits)

lemma ledger_step_completed:
  assumes "ledger_step e L L'" "lg_claims L k = Some c" "cl_status c = Completed"
  shows "lg_claims L' k = Some c"
  using assms
  by (cases rule: ledger_step.cases) (auto simp: live_status_def clock_reset_def split: if_splits)

section \<open>The reserve\<close>

definition reserve :: "claim \<Rightarrow> int" where
  "reserve c = (if live_status (cl_status c) then max 0 (cl_entitlement c - cl_streamed c) else 0)"

definition claim_ok :: "claim \<Rightarrow> bool" where
  "claim_ok c \<longleftrightarrow>
     0 < cl_entitlement c \<and> 0 \<le> cl_streamed c \<and>
     (cl_status c \<in> {PendingTime, AwaitingApproval, Reserved} \<longrightarrow> cl_streamed c = 0) \<and>
     (cl_status c = Active \<longrightarrow>
        cl_vesting_ends_ledger c = cl_cooldown_ends_ledger c + VESTING_LEDGERS)"

definition ledger_ok :: "ledger \<Rightarrow> bool" where
  "ledger_ok L \<longleftrightarrow>
     finite (dom (lg_claims L)) \<and> in_i128 (lg_allocated L) \<and>
     sum_map reserve (lg_claims L) \<le> lg_allocated L \<and>
     (\<forall>k c. lg_claims L k = Some c \<longrightarrow> claim_ok c)"

lemma reserve_nonneg: "0 \<le> reserve c"
  by (simp add: reserve_def)

lemma ledger_ok_claim: "ledger_ok L \<Longrightarrow> lg_claims L k = Some c \<Longrightarrow> claim_ok c"
  by (auto simp: ledger_ok_def)

lemma ledger_ok_range: "ledger_ok L \<Longrightarrow> in_i128 (lg_allocated L)"
  by (simp add: ledger_ok_def)

lemma reserve_le_allocated:
  assumes "ledger_ok L" "lg_claims L k = Some c"
  shows "reserve c \<le> lg_allocated L"
  using assms weight_at_le_sum_map [of "lg_claims L" reserve k]
  by (auto simp: ledger_ok_def reserve_nonneg)

text \<open>One claim is replaced and the allocation covers what that changes.\<close>

lemma ledger_okI:
  assumes "ledger_ok L" "claim_ok c" "in_i128 a"
    and "lg_allocated L - weight_at reserve (lg_claims L) k + reserve c \<le> a"
  shows "ledger_ok \<lparr>lg_claims = (lg_claims L)(k \<mapsto> c), lg_allocated = a\<rparr>"
  using assms by (auto simp: ledger_ok_def sum_map_upd)

text \<open>Releasing at most a claim's own reserve keeps the others covered.\<close>

lemma saturating_release:
  assumes "in_i128 a" "0 \<le> w" "w \<le> a" "b \<le> w"
  shows "a - w \<le> saturating_sub_i128 a b"
  using assms by (auto simp: saturating_sub_i128_def in_i128_def i128_min_def i128_max_def)

lemma vested_le_entitlement:
  assumes "vested_total e c = Ok v" "claim_ok c" "cl_status c = Active"
  shows "0 \<le> v \<and> v \<le> cl_entitlement c"
proof -
  define el where "el = saturating_sub_u32 (min (e_seq e) (cl_vesting_ends_ledger c))
    (cl_cooldown_ends_ledger c)"
  have ent: "0 < cl_entitlement c" and vest: "cl_vesting_ends_ledger c = cl_cooldown_ends_ledger c + VESTING_LEDGERS"
    using assms(2,3) by (simp_all add: claim_ok_def)
  have el: "0 \<le> el" "el \<le> VESTING_LEDGERS" and V: "0 < VESTING_LEDGERS"
    by (auto simp: el_def saturating_sub_u32_def vest time_defs)
  have "v = cl_entitlement c * el div VESTING_LEDGERS"
    using assms(1) el V ent
    by (simp add: vested_total_def Let_def el_def [symmetric] mul_div_i128_eq_Ok sdiv_nonneg_eq)
  moreover have "cl_entitlement c * el \<le> cl_entitlement c * VESTING_LEDGERS"
    using el ent by (intro mult_left_mono) auto
  then have "cl_entitlement c * el div VESTING_LEDGERS \<le> cl_entitlement c"
    using zdiv_mono1 [of _ "cl_entitlement c * VESTING_LEDGERS" VESTING_LEDGERS] V by fastforce
  ultimately show ?thesis using el ent V by (simp add: pos_imp_zdiv_nonneg_iff)
qed

lemma ledger_step_ok:
  assumes "ledger_step e L L'" "ledger_ok L"
  shows "ledger_ok L'"
  using assms(1)
proof (cases rule: ledger_step.cases)
  case stutter
  with assms(2) show ?thesis by simp
next
  case (admit k c)
  have "weight_at reserve (lg_claims L) k = 0"
    using admit by (auto simp: weight_at_def reserve_def live_status_def split: option.splits)
  with admit assms(2) show ?thesis
    by (auto intro!: ledger_okI simp: claim_ok_def reserve_def)
next
  case (release k c0 c)
  then have "claim_ok c0" using assms(2) by (auto intro: ledger_ok_claim)
  with release assms(2) show ?thesis
    by (auto intro!: ledger_okI simp: claim_ok_def reserve_def live_status_def)
next
  case (queue k c)
  have "weight_at reserve (lg_claims L) k = 0"
    using queue by (auto simp: weight_at_def reserve_def live_status_def split: option.splits)
  with queue assms(2) show ?thesis
    by (auto intro!: ledger_okI intro: ledger_ok_range simp: claim_ok_def reserve_def live_status_def)
next
  case (drop_queued k c)
  then have "claim_ok c" using assms(2) by (auto intro: ledger_ok_claim)
  with drop_queued assms(2) show ?thesis
    by (auto intro!: ledger_okI intro: ledger_ok_range simp: claim_ok_def reserve_def live_status_def)
next
  case (unlock k c)
  then have "claim_ok c" using assms(2) by (auto intro: ledger_ok_claim)
  with unlock assms(2) show ?thesis
    by (auto intro!: ledger_okI intro: ledger_ok_range simp: claim_ok_def reserve_def live_status_def)
next
  case (activate k c snapshot amount)
  then have "claim_ok c" using assms(2) by (auto intro: ledger_ok_claim)
  with activate assms(2) show ?thesis
    by (auto intro!: ledger_okI intro: ledger_ok_range simp: claim_ok_def reserve_def live_status_def)
next
  case (sweep_pending k c)
  then have c: "claim_ok c" and le: "reserve c \<le> lg_allocated L" and rng: "in_i128 (lg_allocated L)"
    using assms(2) by (auto intro: ledger_ok_claim reserve_le_allocated ledger_ok_range)
  have "reserve c = cl_entitlement c"
    using c sweep_pending by (simp add: reserve_def claim_ok_def live_status_def)
  with saturating_release [OF rng reserve_nonneg le, of "cl_entitlement c"] c sweep_pending assms(2)
  show ?thesis
    by (auto intro!: ledger_okI in_i128_saturating_sub simp: claim_ok_def reserve_def live_status_def)
next
  case (sweep_stale k c)
  then have c: "claim_ok c" and le: "reserve c \<le> lg_allocated L" and rng: "in_i128 (lg_allocated L)"
    using assms(2) by (auto intro: ledger_ok_claim reserve_le_allocated ledger_ok_range)
  have "cl_entitlement c - cl_streamed c \<le> reserve c"
    using sweep_stale by (simp add: reserve_def live_status_def)
  with saturating_release [OF rng reserve_nonneg le this] c sweep_stale assms(2)
  show ?thesis
    by (auto intro!: ledger_okI in_i128_saturating_sub simp: claim_ok_def reserve_def live_status_def)
next
  case (cancel k c)
  then have c: "claim_ok c" and le: "reserve c \<le> lg_allocated L" and rng: "in_i128 (lg_allocated L)"
    using assms(2) by (auto intro: ledger_ok_claim reserve_le_allocated ledger_ok_range)
  have "cl_entitlement c - cl_streamed c \<le> reserve c"
    using cancel by (simp add: reserve_def)
  with saturating_release [OF rng reserve_nonneg le this] c cancel assms(2)
  show ?thesis
    by (auto intro!: ledger_okI in_i128_saturating_sub simp: claim_ok_def reserve_def live_status_def)
next
  case (stream k c vested amount)
  then have c: "claim_ok c" and le: "reserve c \<le> lg_allocated L" and rng: "in_i128 (lg_allocated L)"
    using assms(2) by (auto intro: ledger_ok_claim reserve_le_allocated ledger_ok_range)
  have room: "amount \<le> cl_entitlement c - cl_streamed c"
    using vested_le_entitlement [OF stream(4) c] stream by simp
  then have res: "reserve c = cl_entitlement c - cl_streamed c" and am: "amount \<le> reserve c"
    using stream by (auto simp: reserve_def live_status_def)
  have exact: "saturating_sub_i128 (lg_allocated L) amount = lg_allocated L - amount"
    using rng am le stream by (intro saturating_sub_i128_between) auto
  have new: "reserve (collected e (cl_streamed c + amount) c) = reserve c - amount"
    using room res stream by (auto simp: reserve_def live_status_def)
  have "in_i128 (lg_allocated L - amount)"
    using in_i128_saturating_sub [of "lg_allocated L" amount] exact by simp
  moreover have "claim_ok (collected e (cl_streamed c + amount) c)"
    using c stream by (auto simp: claim_ok_def)
  ultimately show ?thesis
    using assms(2) stream new unfolding stream(1) exact by (intro ledger_okI) auto
next
  case (override k c)
  have sum: "weight_at reserve (lg_claims L) k \<le> lg_allocated L"
    "\<forall>c0. lg_claims L k = Some c0 \<longrightarrow> claim_ok c0" "in_i128 (lg_allocated L)"
    using assms(2) weight_at_le_sum_map [of "lg_claims L" reserve k]
    by (auto simp: ledger_ok_def reserve_nonneg)
  have freed: "lg_allocated L - weight_at reserve (lg_claims L) k \<le> freed (lg_claims L k) (lg_allocated L)"
  proof (cases "lg_claims L k")
    case (Some c0)
    with sum saturating_release [of "lg_allocated L" "reserve c0" "cl_entitlement c0 - cl_streamed c0"]
    show ?thesis by (auto simp: freed_def reserve_def)
  qed (simp add: freed_def)
  have "0 \<le> carried (lg_claims L k)"
    using sum(2) by (auto simp: carried_def claim_ok_def split: option.splits)
  with override have "claim_ok c" "reserve c \<le> cl_entitlement c"
    by (auto simp: claim_ok_def reserve_def)
  with freed override assms(2) show ?thesis
    by (auto intro!: ledger_okI)
next
  case (reset_clock k c)
  then have "claim_ok c" using assms(2) by (auto intro: ledger_ok_claim)
  with reset_clock assms(2) show ?thesis
    by (auto intro!: ledger_okI intro: ledger_ok_range simp: claim_ok_def reserve_def)
qed

section \<open>Carried over to the contract\<close>

definition pool_ledger_ok :: "'w state \<Rightarrow> bool" where
  "pool_ledger_ok s \<longleftrightarrow> ledger_ok (ledger_of s)"

interpretation reserves: pool_invariant H pool_ledger_ok
proof
  fix e admin orc pk cos token cap and w :: 'a and u and s :: "'a state"
  assume "initialize H e admin orc pk cos token cap (empty_state w) = Ok (u, s)"
  then show "pool_ledger_ok s"
    by (auto dest!: initialize_Ok simp: pool_ledger_ok_def ledger_ok_def ledger_of_def empty_state_def
        get_total_allocated_def in_i128_def i128_min_def i128_max_def)
next
  fix e c r and s s' :: "'a state"
  assume "exec H e c s = Ok (r, s')" "pool_ledger_ok s"
  then show "pool_ledger_ok s'"
    using ledger_step_ok [OF exec_refines] by (simp add: pool_ledger_ok_def)
next
  fix s :: "'a state" and w
  assume "pool_ledger_ok s"
  then show "pool_ledger_ok (s\<lparr>st_world := w\<rparr>)"
    by (simp add: pool_ledger_ok_def ledger_of_def get_total_allocated_def)
qed

section \<open>Properties\<close>

text \<open>
  C3. Refinement: whatever an entry point does, what it does to the claims and to
  \<open>total_allocated\<close> is one step of the abstract claim ledger.
\<close>

theorem entry_points_refine_ledger:
  assumes "exec H e c s = Ok (r, s')"
  shows "ledger_step e (ledger_of s) (ledger_of s')"
  using assms by (rule exec_refines)

theorem entry_points_refine_ledger_witness:
  "ledger_step (on_day 101 [11]) (ledger_of (after awaiting_run))
     (ledger_of (state_of (exec ref_host (on_day 101 [11]) (ApproveClaim [1, 11, 9]) (after awaiting_run))))"
proof -
  have "is_ok (exec ref_host (on_day 101 [11]) (ApproveClaim [1, 11, 9]) (after awaiting_run))"
    by code_simp
  from entry_points_refine_ledger [OF is_ok_result [OF this]] show ?thesis .
qed

text \<open>
  C16. The life cycle of a claim: in one call, the status of any claim id moves only along the
  transition table; a claim record is never removed, and a completed claim can move nowhere.
\<close>

theorem claim_status_follows_table:
  assumes "exec H e c s = Ok (r, s')"
  shows "transition (status_at (st_claims s) k) (status_at (st_claims s') k)"
  using ledger_step_transition [OF exec_refines [OF assms]] by simp

theorem claim_status_follows_table_witness:
  "transition (Some AwaitingApproval) (Some Active) \<and>
   status_at (st_claims (after awaiting_run)) [1, 11, 9] = Some AwaitingApproval \<and>
   status_at (st_claims (state_of (exec ref_host (on_day 101 [11]) (ApproveClaim [1, 11, 9])
     (after awaiting_run)))) [1, 11, 9] = Some Active"
proof -
  have ok: "is_ok (exec ref_host (on_day 101 [11]) (ApproveClaim [1, 11, 9]) (after awaiting_run))"
    and st: "status_at (st_claims (after awaiting_run)) [1, 11, 9] = Some AwaitingApproval"
      "status_at (st_claims (state_of (exec ref_host (on_day 101 [11]) (ApproveClaim [1, 11, 9])
        (after awaiting_run)))) [1, 11, 9] = Some Active"
    by code_simp+
  from claim_status_follows_table [OF is_ok_result [OF ok], of "[1, 11, 9]"] st show ?thesis
    by simp
qed

text \<open>
  C9. A completed claim is frozen: whatever calls follow, no field of its record ever changes, so it
  can be neither paid again, nor reopened by an override, nor cancelled.
\<close>

theorem completed_claim_is_frozen:
  assumes "(step H)\<^sup>*\<^sup>* s s'" "st_claims s k = Some cl" "cl_status cl = Completed"
  shows "st_claims s' k = Some cl"
  using assms(1)
proof (induction rule: rtranclp_induct)
  case (step t t')
  from step.hyps(2) step.IH show ?case
    using ledger_step_completed [OF exec_refines, of H _ _ t _ t' k cl] assms(3)
    by (cases rule: step.cases) auto
qed (rule assms(2))

definition completed_run :: "(env \<times> pool_call) list" where
  "completed_run = small_claim_run @ [(on_day 157 [11], ClaimStream [1, 11, 9] 21)]"

definition completed_sample :: "mock_world state \<Rightarrow> bool" where
  "completed_sample s \<longleftrightarrow>
     claim_at [1, 11, 9] (\<lambda>c. cl_status c = Completed) s \<and>
     (case st_stakes s 11 of Some r \<Rightarrow> sr_active_claim_id r = Some [1, 11, 9] | None \<Rightarrow> False) \<and>
     is_ok (exec ref_host (on_day 160 [1]) Pause s)"

lemma completed_run_ends: "ends_in completed_run completed_sample"
  by code_simp

theorem completed_claim_is_frozen_witness:
  "\<exists>cl. cl_status cl = Completed \<and> st_claims (after completed_run) [1, 11, 9] = Some cl \<and>
     st_claims (state_of (exec ref_host (on_day 160 [1]) Pause (after completed_run))) [1, 11, 9]
       = Some cl"
proof -
  have sample: "claim_at [1, 11, 9] (\<lambda>c. cl_status c = Completed) (after completed_run)"
    "is_ok (exec ref_host (on_day 160 [1]) Pause (after completed_run))"
    using ends_inD(2) [OF completed_run_ends] by (simp_all add: completed_sample_def)
  from claim_atD [OF sample(1)] obtain cl
    where cl: "st_claims (after completed_run) [1, 11, 9] = Some cl" "cl_status cl = Completed"
    by blast
  have "step ref_host (after completed_run)
      (state_of (exec ref_host (on_day 160 [1]) Pause (after completed_run)))"
    using is_ok_result [OF sample(2)] by (rule step.call [rotated]) (simp add: env_ok_on_day)
  from completed_claim_is_frozen [OF r_into_rtranclp [of "step ref_host", OF this] cl] cl
  show ?thesis by blast
qed

text \<open>
  C1. The reserve is always sufficient: in every reachable state \<open>total_allocated\<close> is at least
  the sum, over all live claims, of what each can still collect.
\<close>

theorem reserve_covers_live_claims:
  assumes "reachable H s"
  shows "finite (dom (st_claims s)) \<and> sum_map reserve (st_claims s) \<le> get_total_allocated s"
  using reserves.in_every_reachable_state [OF assms]
  by (simp add: pool_ledger_ok_def ledger_ok_def)

theorem reserve_covers_live_claims_witness:
  "sum_map reserve (st_claims (after active_run)) \<le> get_total_allocated (after active_run)"
  using reserve_covers_live_claims [OF after_reachable [OF active_run_ok active_run_envs]] by simp

end
