(* ===== verification/Storage_Writes.thy ===== *)
theory Storage_Writes
  imports Entrypoints
begin

text \<open>
  What the contract can do to its storage at all: every entry point is a sequence of the writes of
  \<^verbatim>\<open>contracts/protection-pool/src/storage.rs\<close>, published events and changes of the other
  contracts' world. A property that each of these keeps is kept by every call; the facts about
  revocations, records and the event log that hold across calls are of this kind.
\<close>

section \<open>The elementary writes\<close>

inductive storage_write :: "'w host \<Rightarrow> 'w state \<Rightarrow> 'w state \<Rightarrow> bool" for H where
  "storage_write H s (s\<lparr>st_world := w\<rparr>)"
| "storage_write H s (publish ev s)"
| "storage_write H s (bump_instance_ttl H e s)"
| "storage_write H s (set_admin a s)"
| "storage_write H s (set_oracle_address a s)"
| "storage_write H s (set_oracle_key pk s)"
| "storage_write H s (set_co_signer_address a s)"
| "storage_write H s (set_pool_cap_value v s)"
| "storage_write H s (set_total_staked v s)"
| "storage_write H s (set_total_allocated v s)"
| "storage_write H s (set_total_stakers v s)"
| "storage_write H s (set_paused b s)"
| "storage_write H s (set_daily_outflow day v s)"
| "storage_write H s (set_daily_entitlement day v n s)"
| "storage_write H s (set_vault_address a s)"
| "storage_write H s (set_treasury_address a s)"
| "storage_write H s (set_deploy_bps_value v s)"
| "storage_write H s (set_total_deployed_shares v s)"
| "storage_write H s (set_total_deployed_xlm v s)"
| "storage_write H s (set_total_extracted_yield v s)"
| "storage_write H s (set_stake H e staker r s)"
| "storage_write H s (set_claim H e k c s)"
| "storage_write H s (set_override H e k req s)"
| "storage_write H s (remove_override k s)"
| "storage_write H s (set_points_balance H e staker v s)"
| "storage_write H s (set_approval_revoked H e h s)"

abbreviation writes :: "'w host \<Rightarrow> 'w state \<Rightarrow> 'w state \<Rightarrow> bool" where
  "writes H \<equiv> (storage_write H)\<^sup>*\<^sup>*"

lemma write_after: "storage_write H s s' \<Longrightarrow> writes H s0 s \<Longrightarrow> writes H s0 s'"
  by (rule rtranclp.rtrancl_into_rtrancl)

lemmas one_more [intro!] = storage_write.intros [THEN write_after]

lemmas control_simps =
  and_then_eq_Ok ok_or_eq_Ok if_Err_eq_Ok if_Trap_eq_Ok Let_def

text \<open>The calls of other contracts change their world only.\<close>

lemma callees_write [dest!]:
  "token_transfer H token a b amount s = Ok s' \<Longrightarrow> \<exists>w. s' = s\<lparr>st_world := w\<rparr>"
  "vault_deposit H au v desired mins s = Ok s' \<Longrightarrow> \<exists>w. s' = s\<lparr>st_world := w\<rparr>"
  "vault_withdraw H au v shares mins s = Ok s' \<Longrightarrow> \<exists>w. s' = s\<lparr>st_world := w\<rparr>"
  by (auto simp: token_transfer_eq_Ok vault_deposit_eq_Ok vault_withdraw_eq_Ok)

section \<open>The helpers\<close>

lemma helpers_write [elim!]:
  "bank_points H e staker points s = Ok s' \<Longrightarrow> writes H s0 s \<Longrightarrow> writes H s0 s'"
  "admit_claim H e wallet tx k ent tier hack r counted s = Ok s' \<Longrightarrow> writes H s0 s \<Longrightarrow> writes H s0 s'"
  "activate_claim H e r c s = Ok ((p, r', c'), s') \<Longrightarrow> writes H s0 s \<Longrightarrow> writes H s0 s'"
  "pay_stream H e k c b amount s = Ok (x, s') \<Longrightarrow> writes H s0 s \<Longrightarrow> writes H s0 s'"
  "redeem H v shares mn s = Ok ((x, p), s') \<Longrightarrow> writes H s0 s \<Longrightarrow> writes H s0 s'"
  by (auto simp: bank_points_def admit_claim_def activate_claim_def pay_stream_def redeem_def
      control_simps split: if_splits prod.splits)

lemma queue_claim_writes [intro!]:
  "writes H s0 s \<Longrightarrow> writes H s0 (queue_claim H e wallet tx k ent tier hack r s)"
  by (auto simp: queue_claim_def Let_def)

lemma release_prior_writes [elim!]:
  "release_prior existing s = Ok (x, s') \<Longrightarrow> writes H s0 s \<Longrightarrow> writes H s0 s'"
  by (cases existing) (auto simp: release_prior_def control_simps split: if_splits)

lemma activate_override_writes [elim!]:
  "activate_override H e r c s = Ok ((p, r', c'), s') \<Longrightarrow> writes H s0 s \<Longrightarrow> writes H s0 s'"
  by (cases "sr_withdrawn r") (auto simp: activate_override_def control_simps)

lemma execute_override_writes [elim!]:
  "execute_override H e k req s = Ok s' \<Longrightarrow> writes H s0 s \<Longrightarrow> writes H s0 s'"
  by (auto simp: execute_override_def control_simps split: prod.splits if_split_asm)

section \<open>The entry points\<close>

lemma staking_writes:
  "stake H e staker amount b s = Ok (u, s') \<Longrightarrow> writes H s s'"
  "set_beneficiary H e staker b s = Ok (u, s') \<Longrightarrow> writes H s s'"
  "withdraw H e staker b s = Ok (u, s') \<Longrightarrow> writes H s s'"
  "emergency_exit H e staker s = Ok (u, s') \<Longrightarrow> writes H s s'"
  by (auto simp: stake_def set_beneficiary_def withdraw_def emergency_exit_def control_simps)

lemma administration_writes:
  "transfer_admin H e a s = Ok (u, s') \<Longrightarrow> writes H s s'"
  "pause e s = Ok (u, s') \<Longrightarrow> writes H s s'"
  "unpause e s = Ok (u, s') \<Longrightarrow> writes H s s'"
  "suspend_stake H e wallet s = Ok (u, s') \<Longrightarrow> writes H s s'"
  "set_pool_cap H e cap s = Ok (u, s') \<Longrightarrow> writes H s s'"
  "set_oracle H e a s = Ok (u, s') \<Longrightarrow> writes H s s'"
  "set_oracle_pubkey H e pk s = Ok (u, s') \<Longrightarrow> writes H s s'"
  "set_oracle_identity H e a pk s = Ok (u, s') \<Longrightarrow> writes H s s'"
  "set_co_signer H e a s = Ok (u, s') \<Longrightarrow> writes H s s'"
  by (auto simp: transfer_admin_def pause_def unpause_def suspend_stake_def set_pool_cap_def
      set_oracle_def set_oracle_pubkey_def set_oracle_identity_def set_co_signer_def control_simps)

lemma unsuspend_writes:
  assumes "unsuspend_stake H e wallet cid s = Ok (u, s')"
  shows "writes H s s'"
proof (cases "\<exists>k c. cid = Some k \<and> get_claim (set_stake H e wallet
    ((the (get_stake s wallet))\<lparr>sr_suspended := False\<rparr>) s) k = Some c \<and> cl_wallet c = wallet")
  case True
  then obtain k c where "cid = Some k" "get_claim (set_stake H e wallet
    ((the (get_stake s wallet))\<lparr>sr_suspended := False\<rparr>) s) k = Some c" "cl_wallet c = wallet"
    by blast
  with assms show ?thesis
    by (cases "cl_status c") (auto simp: unsuspend_stake_def control_simps)
next
  case False
  with assms show ?thesis
    by (cases cid; cases "get_claim (set_stake H e wallet
        ((the (get_stake s wallet))\<lparr>sr_suspended := False\<rparr>) s) (the cid)")
      (auto simp: unsuspend_stake_def control_simps)
qed

lemma vault_writes:
  "set_vault H e a s = Ok (u, s') \<Longrightarrow> writes H s s'"
  "set_treasury H e a s = Ok (u, s') \<Longrightarrow> writes H s s'"
  "set_deploy_bps H e bps s = Ok (u, s') \<Longrightarrow> writes H s s'"
  "deploy_to_vault H e amount mn s = Ok (x, s') \<Longrightarrow> writes H s s'"
  "provide_liquidity H e shares mn s = Ok (x, s') \<Longrightarrow> writes H s s'"
  "withdraw_yield H e amount s = Ok (u, s') \<Longrightarrow> writes H s s'"
  by (auto simp: set_vault_def set_treasury_def set_deploy_bps_def deploy_to_vault_def
      provide_liquidity_def withdraw_yield_def control_simps)

lemma vault_branching_writes:
  "auto_deploy_liquidity H e s = Ok (x, s') \<Longrightarrow> writes H s s'"
  "ensure_liquidity H e s = Ok (x, s') \<Longrightarrow> writes H s s'"
  "extract_yield H e shares mn s = Ok (x, s') \<Longrightarrow> writes H s s'"
  by (auto simp: auto_deploy_liquidity_def ensure_liquidity_def extract_yield_def control_simps
      split: if_splits)

lemma submit_writes:
  "submit_claim H e caller wallet tx ent tier hack dl sig s = Ok (k, s') \<Longrightarrow> writes H s s'"
  by (auto simp: submit_claim_def control_simps split: if_splits option.splits)

lemma release_writes:
  assumes "try_release_queued_claim H e k s = Ok (u, s')"
  shows "writes H s s'"
  using assms
  by (cases "get_daily_entitlement (current_day e) s")
    (auto simp: try_release_queued_claim_def control_simps)

lemma claim_writes:
  "expire_queued_claim H e k s = Ok (u, s') \<Longrightarrow> writes H s s'"
  "unlock_pending_claim H e k s = Ok (u, s') \<Longrightarrow> writes H s s'"
  "approve_claim H e k s = Ok (u, s') \<Longrightarrow> writes H s s'"
  "expire_pending_approval H e k s = Ok (u, s') \<Longrightarrow> writes H s s'"
  "expire_stale_claim H e k s = Ok (u, s') \<Longrightarrow> writes H s s'"
  "claim_stream H e k b s = Ok (x, s') \<Longrightarrow> writes H s s'"
  "revoke_approval H e caller wallet tx ent tier hack dl s = Ok (u, s') \<Longrightarrow> writes H s s'"
  "cancel_pending_override H e caller wallet tx s = Ok (u, s') \<Longrightarrow> writes H s s'"
  by (auto simp: expire_queued_claim_def unlock_pending_claim_def approve_claim_def
      expire_pending_approval_def expire_stale_claim_def claim_stream_def revoke_approval_def
      cancel_pending_override_def control_simps)

lemma cancel_writes:
  "cancel_claim H e k s = Ok (u, s') \<Longrightarrow> writes H s s'"
  by (cases "cl_status (the (get_claim s k)) = Active") (auto simp: cancel_claim_def control_simps)

lemma approve_override_writes:
  "approve_override H e caller wallet tx ent tier s = Ok (u, s') \<Longrightarrow> writes H s s'"
  by (auto simp: approve_override_def control_simps split: if_splits)

lemmas op_writes =
  staking_writes administration_writes unsuspend_writes vault_writes vault_branching_writes
  submit_writes release_writes claim_writes cancel_writes approve_override_writes

lemma exec_writes:
  assumes "exec H e c s = Ok (r, s')"
  shows "writes H s s'"
  using assms by (cases c) (auto simp: returns_eq_Ok intro: op_writes)

lemma step_writes: "step H s s' \<Longrightarrow> writes H s s'"
  by (induction rule: step.induct) (auto dest: exec_writes)

lemma steps_write: "(step H)\<^sup>*\<^sup>* s s' \<Longrightarrow> writes H s s'"
  by (induction rule: rtranclp_induct) (auto dest: step_writes)

text \<open>What every write keeps, every sequence of calls keeps.\<close>

lemma kept_by_writes:
  assumes "writes H s s'" "P s" "\<And>t t'. storage_write H t t' \<Longrightarrow> P t \<Longrightarrow> P t'"
  shows "P s'"
  using assms by (induction rule: rtranclp_induct) auto

section \<open>What no call undoes\<close>

text \<open>The event log is append-only, and no stake and no claim record is ever removed.\<close>

lemma write_appends_events: "storage_write H s s' \<Longrightarrow> \<exists>new. st_events s' = st_events s @ new"
  by (cases rule: storage_write.cases) (auto simp: write_defs)

lemma write_keeps_records:
  "storage_write H s s' \<Longrightarrow> dom (st_stakes s) \<subseteq> dom (st_stakes s') \<and> dom (st_claims s) \<subseteq> dom (st_claims s')"
  by (cases rule: storage_write.cases) (auto simp: write_defs)

lemma writes_append_events:
  assumes "writes H s s'"
  shows "\<exists>new. st_events s' = st_events s @ new"
proof (rule kept_by_writes [OF assms, where P = "\<lambda>t. \<exists>new. st_events t = st_events s @ new"])
  fix t t' assume "storage_write H t t'" "\<exists>new. st_events t = st_events s @ new"
  then show "\<exists>new. st_events t' = st_events s @ new"
    using write_appends_events by fastforce
qed simp

lemma events_append_only: "(step H)\<^sup>*\<^sup>* s s' \<Longrightarrow> \<exists>new. st_events s' = st_events s @ new"
  by (rule writes_append_events [OF steps_write])

text \<open>
  A revocation is never deleted, and its TTL never shrinks: only another revocation of the same
  approval touches its entry.
\<close>

definition revoked_until :: "bytes \<Rightarrow> int \<Rightarrow> 'w state \<Rightarrow> bool" where
  "revoked_until h l s \<longleftrightarrow>
     st_revoked s h = Some True \<and>
     (\<exists>lu. st_live_until s (EntryTtl (KeyRevokedApproval h)) = Some lu \<and> l \<le> lu)"

lemma write_keeps_revocation:
  "storage_write H s s' \<Longrightarrow> revoked_until h l s \<Longrightarrow> revoked_until h l s'"
  by (cases rule: storage_write.cases)
    (auto simp: write_defs revoked_until_def touched_def extend_until_def created_until_def time_defs
      split: if_splits)

lemma revocation_persists:
  assumes "(step H)\<^sup>*\<^sup>* s s'" "revoked_until h l s"
  shows "revoked_until h l s'"
  using steps_write [OF assms(1)] assms(2) write_keeps_revocation by (rule kept_by_writes)

lemma revoked_until_live: "revoked_until h l s \<Longrightarrow> e_seq e \<le> l \<Longrightarrow> is_approval_revoked e h s"
  by (auto simp: revoked_until_def is_approval_revoked_def)

end
