(* ===== verification/Approval_Properties.thy ===== *)
theory Approval_Properties
  imports Claim_Ledger Storage_Writes
begin

text \<open>
  The oracle's approvals: what a signature covers, when a submission needs one, and how long a
  revocation lasts.
\<close>

text \<open>
  C40. The signed payload is unambiguous: two equal payloads, even built by different contracts or
  on different networks, agree on the contract, the network and every field of the verdict. The
  serialisation only has to be self-delimiting (\<open>xdr_law\<close>).
\<close>

theorem approval_payload_injective:
  assumes "xdr_law H" "h_to_xdr H' = h_to_xdr H"
    and "build_approval_payload H wallet tx ent tier hack dl =
         build_approval_payload H' wallet' tx' ent' tier' hack' dl'"
  shows "h_self H' = h_self H \<and> h_network_id H' = h_network_id H \<and> wallet' = wallet \<and> tx' = tx \<and>
    ent' = ent \<and> tier' = tier \<and> hack' = hack \<and> dl' = dl"
  using assms by (simp add: build_approval_payload_def xdr_lawD xdr_law_inject)

theorem approval_payload_injective_witness:
  "build_approval_payload ref_host 11 [9] 4000 3 100 200 \<noteq>
   build_approval_payload (ref_host\<lparr>h_network_id := [8]\<rparr>) 11 [9] 4000 3 100 200"
proof
  assume eq: "build_approval_payload ref_host 11 [9] 4000 3 100 200 =
    build_approval_payload (ref_host\<lparr>h_network_id := [8]\<rparr>) 11 [9] 4000 3 100 200"
  have same: "h_to_xdr (ref_host\<lparr>h_network_id := [8]\<rparr>) = h_to_xdr ref_host" by simp
  from approval_payload_injective [OF ref_host_xdr_law same eq] show False by simp
qed

text \<open>
  Claim ids are the nonce: two different pairs of wallet and transaction hash can only share
  a claim id if they exhibit a collision of the hash function.
\<close>

theorem claim_id_collision_is_hash_collision:
  assumes "xdr_law H" "compute_claim_id H wallet tx = compute_claim_id H wallet' tx'"
    and "(wallet, tx) \<noteq> (wallet', tx')"
  shows "\<exists>a b. a \<noteq> b \<and> h_sha256 H a = h_sha256 H b"
  using assms xdr_lawD [OF assms(1), of "SvAddress wallet" tx "SvAddress wallet'" tx']
  by (auto simp: compute_claim_id_def)

theorem claim_id_collision_is_hash_collision_witness:
  "\<exists>a b. a \<noteq> b \<and> h_sha256 (ref_host\<lparr>h_sha256 := (\<lambda>_. [0])\<rparr>) a = h_sha256 (ref_host\<lparr>h_sha256 := (\<lambda>_. [0])\<rparr>) b"
proof -
  have x: "xdr_law (ref_host\<lparr>h_sha256 := (\<lambda>_. [0])\<rparr>)"
    using ref_host_xdr_law by (simp add: xdr_law_def)
  have eq: "compute_claim_id (ref_host\<lparr>h_sha256 := (\<lambda>_. [0])\<rparr>) 11 [9] =
      compute_claim_id (ref_host\<lparr>h_sha256 := (\<lambda>_. [0])\<rparr>) 11 [8]"
    by (simp add: compute_claim_id_def)
  have ne: "(11::address, [9::8 word]) \<noteq> (11, [8])" by simp
  show ?thesis by (rule claim_id_collision_is_hash_collision [OF x eq ne])
qed

lemma oracle_signed:
  assumes "submit_claim H e caller wallet tx ent tier hack dl sig s = Ok (k, s')"
    and "st_oracle s = Some caller"
  shows "e_auth e caller \<and> (\<exists>pk. st_oracle_pubkey s = Some pk \<and>
      h_ed25519_verify H pk (build_approval_payload H wallet tx ent tier hack dl) sig) \<and>
      e_time e \<le> dl \<and> dl \<le> e_time e + MAX_APPROVAL_WINDOW_SECONDS \<and>
      \<not> is_approval_revoked e (approval_hash H (build_approval_payload H wallet tx ent tier hack dl)) s"
proof -
  from submit_claim_Ok [OF assms(1)] obtain r where
    "submit_checks H e caller wallet tx ent tier hack dl sig s = Ok r" by blast
  from submit_checks_Ok [OF this] assms(2) have "e_auth e caller"
    "signed_by_oracle H e wallet tx ent tier hack dl sig s"
    by auto
  then show ?thesis
    by (auto simp: signed_by_oracle_def is_ok_iff verify_oracle_signature_eq_Ok)
qed

text \<open>
  C19. The oracle cannot submit an unsigned verdict: a submission by the oracle that succeeds
  carries a signature that verifies under the configured key over exactly these terms, is inside
  its deadline, has a deadline no more than a day ahead, and is not revoked.
\<close>

theorem oracle_submission_is_signed:
  assumes "submit_claim H e caller wallet tx ent tier hack dl sig s = Ok (k, s')"
    and "st_oracle s = Some caller"
  shows "\<exists>pk. e_auth e caller \<and> st_oracle_pubkey s = Some pk \<and>
      h_ed25519_verify H pk (build_approval_payload H wallet tx ent tier hack dl) sig \<and>
      e_time e \<le> dl \<and> dl \<le> e_time e + MAX_APPROVAL_WINDOW_SECONDS \<and>
      \<not> is_approval_revoked e (approval_hash H (build_approval_payload H wallet tx ent tier hack dl)) s"
  using oracle_signed [OF assms] by blast

definition sample_payload :: "int \<Rightarrow> bytes" where
  "sample_payload dl = build_approval_payload ref_host 11 [9] 4000 3 (99 * 86400) dl"

theorem oracle_submission_is_signed_witness:
  "is_ok (submit_claim ref_host (on_day 100 [2]) 2 11 [9] 4000 3 (99 * 86400) (100 * 86400)
      (5 # sample_payload (100 * 86400)) (after staked_run)) \<and>
   h_ed25519_verify ref_host [5] (sample_payload (100 * 86400)) (5 # sample_payload (100 * 86400))"
proof -
  have ok: "is_ok (submit_claim ref_host (on_day 100 [2]) 2 11 [9] 4000 3 (99 * 86400) (100 * 86400)
      (5 # sample_payload (100 * 86400)) (after staked_run))"
    and o: "st_oracle (after staked_run) = Some 2" and pk: "st_oracle_pubkey (after staked_run) = Some [5]"
    by code_simp+
  from oracle_submission_is_signed [OF is_ok_result [OF ok] o] pk ok show ?thesis
    by (auto simp: sample_payload_def)
qed

section \<open>Revocation\<close>

lemma revocation_lasts:
  assumes "revoke_approval H e admin wallet tx ent tier hack dl s = Ok (u, s1)"
    and "h = approval_hash H (build_approval_payload H wallet tx ent tier hack dl)"
  shows "revoked_until h (e_seq e + REVOCATION_TTL_LEDGERS) s1 \<and>
    dl \<le> e_time e + MAX_APPROVAL_WINDOW_SECONDS"
proof -
  let ?k = "EntryTtl (KeyRevokedApproval h)"
  from revoke_approval_Ok [OF assms(1)] assms(2) have "st_revoked s1 h = Some True"
    "dl \<le> e_time e + MAX_APPROVAL_WINDOW_SECONDS"
    "st_live_until s1 ?k = touched e (h_min_temporary_ttl H) ?k REVOCATION_TTL_LEDGERS
        REVOCATION_TTL_LEDGERS (st_live_until s) ?k"
    by auto
  with extend_until_lower [of e REVOCATION_TTL_LEDGERS REVOCATION_TTL_LEDGERS
      "created_until e (h_min_temporary_ttl H) (st_live_until s ?k)"]
  show ?thesis by (simp add: revoked_until_def touched_def)
qed

text \<open>
  C20. A revoked approval stays dead: whatever calls follow, by whomever, and whatever the other
  contracts do in between, no later submission by the oracle of that time can use it, as long as
  ledgers are at least one second apart. Nothing deletes or shortens the revocation, and the
  approval's own deadline passes before the revocation's TTL does.
\<close>

theorem revoked_approval_stays_dead:
  assumes "revoke_approval H e admin wallet tx ent tier hack dl s = Ok (u, s1)"
    and "(step H)\<^sup>*\<^sup>* s1 s2" "e_seq e2 - e_seq e \<le> e_time e2 - e_time e" "st_oracle s2 = Some caller"
  shows "\<not> is_ok (submit_claim H e2 caller wallet tx ent tier hack dl sig s2)"
proof
  assume "is_ok (submit_claim H e2 caller wallet tx ent tier hack dl sig s2)"
  then obtain k s3 where "submit_claim H e2 caller wallet tx ent tier hack dl sig s2 = Ok (k, s3)"
    by (auto simp: is_ok_iff)
  note signed = oracle_signed [OF this assms(4)]
  let ?h = "approval_hash H (build_approval_payload H wallet tx ent tier hack dl)"
  note lasts = revocation_lasts [OF assms(1) refl]
  from revocation_persists [OF assms(2) lasts [THEN conjunct1]]
  have "revoked_until ?h (e_seq e + REVOCATION_TTL_LEDGERS) s2" .
  moreover have "e_seq e2 \<le> e_seq e + REVOCATION_TTL_LEDGERS"
    using signed lasts assms(3) revocation_ttl_const_assert by simp
  ultimately have "is_approval_revoked e2 ?h s2" by (rule revoked_until_live)
  with signed show False by blast
qed

definition revoked_sample :: "mock_world state" where
  "revoked_sample = state_of (revoke_approval ref_host (on_day 99 [1]) 1 11 [9] 4000 3 (99 * 86400)
     (100 * 86400) (after staked_run))"

theorem revoked_approval_stays_dead_witness:
  "\<not> is_ok (submit_claim ref_host (on_day 100 [2]) 2 11 [9] 4000 3 (99 * 86400) (100 * 86400)
      (5 # sample_payload (100 * 86400))
      (state_of (exec ref_host (on_day 99 [1]) (SetOraclePubkey [6]) revoked_sample)))"
proof -
  let ?next = "exec ref_host (on_day 99 [1]) (SetOraclePubkey [6]) revoked_sample"
  have ok: "is_ok (revoke_approval ref_host (on_day 99 [1]) 1 11 [9] 4000 3 (99 * 86400) (100 * 86400)
      (after staked_run))"
    and ok2: "is_ok ?next" and o: "st_oracle (state_of ?next) = Some 2"
    by code_simp+
  have "step ref_host revoked_sample (state_of ?next)"
    using is_ok_result [OF ok2] by (rule step.call [rotated]) (simp add: env_ok_on_day)
  then have "(step ref_host)\<^sup>*\<^sup>* revoked_sample (state_of ?next)" by blast
  then show ?thesis
    by (rule revoked_approval_stays_dead [OF is_ok_result [OF ok, folded revoked_sample_def] _ _ o])
      (simp add: time_defs)
qed

end
