(* ===== verification/Record_Integrity.thy ===== *)
theory Record_Integrity
  imports Claim_Ledger
begin

text \<open>
  The well-formedness of the stored records and of the references between them. A claim and a
  pending override lie under the id of their own wallet and transaction hash; a claim's wallet has
  a stake record; the two claim links of a stake record name claims that exist and, where the claim
  is the wallet's own, that are in the phase the link stands for. Kept by every entry point, so it
  holds in every reachable state.
\<close>

section \<open>Well-formed records\<close>

text \<open>The phases of a claim that \<open>active_claim_id\<close> and \<open>reserved_claim_id\<close> stand for.\<close>

definition running :: "claim_status set" where
  "running = {PendingTime, AwaitingApproval, Active, Completed}"

text \<open>
  A link of the stake record of the wallet \<open>a\<close>. The claim id is a hash of wallet and transaction
  hash, so the claim it names is the wallet's own unless two wallets share a hash; the phase is
  stated for the wallet's own claim.
\<close>

definition link_wf ::
  "'w host \<Rightarrow> (bytes \<rightharpoonup> claim) \<Rightarrow> address \<Rightarrow> claim_status set \<Rightarrow> bytes option \<Rightarrow> bool" where
  "link_wf H m a phases l \<longleftrightarrow>
     (case l of None \<Rightarrow> True
      | Some k \<Rightarrow> (\<exists>tx. k = compute_claim_id H a tx) \<and>
          (\<exists>c. m k = Some c \<and> (cl_wallet c = a \<longrightarrow> cl_status c \<in> phases)))"

definition stake_wf :: "'w host \<Rightarrow> (bytes \<rightharpoonup> claim) \<Rightarrow> address \<Rightarrow> stake_record \<Rightarrow> bool" where
  "stake_wf H m a r \<longleftrightarrow>
     0 \<le> sr_amount r \<and> link_wf H m a running (sr_active_claim_id r) \<and>
     link_wf H m a {Reserved} (sr_reserved_claim_id r)"

definition claim_wf :: "'w host \<Rightarrow> (address \<rightharpoonup> stake_record) \<Rightarrow> bytes \<Rightarrow> claim \<Rightarrow> bool" where
  "claim_wf H m k c \<longleftrightarrow>
     k = compute_claim_id H (cl_wallet c) (cl_tx_hash c) \<and> m (cl_wallet c) \<noteq> None \<and>
     cl_status c \<noteq> Unused \<and> cl_tier c \<in> {1, 2, 3} \<and> 0 \<le> cl_stake c \<and>
     (cl_status c = Completed \<longrightarrow> cl_streamed c = cl_entitlement c)"

definition request_wf :: "'w host \<Rightarrow> bytes \<Rightarrow> override_request \<Rightarrow> bool" where
  "request_wf H k q \<longleftrightarrow>
     k = compute_claim_id H (ov_wallet q) (ov_tx_hash q) \<and> 0 < ov_entitlement q \<and>
     ov_tier q \<in> {1, 2, 3} \<and> (ov_owner_approver q \<noteq> None \<or> ov_co_signer_approver q \<noteq> None)"

definition records_wf :: "'w host \<Rightarrow> 'w state \<Rightarrow> bool" where
  "records_wf H s \<longleftrightarrow>
     (\<forall>k c. st_claims s k = Some c \<longrightarrow> claim_wf H (st_stakes s) k c) \<and>
     (\<forall>a r. st_stakes s a = Some r \<longrightarrow> stake_wf H (st_claims s) a r) \<and>
     (\<forall>k q. st_overrides s k = Some q \<longrightarrow> request_wf H k q)"

section \<open>Replacing one claim and its wallet's stake record\<close>

lemma link_wf_None [simp]: "link_wf H m a P None"
  by (simp add: link_wf_def)

lemma link_wf_new:
  "\<lbrakk>k = compute_claim_id H a tx; cl_wallet c = a \<longrightarrow> cl_status c \<in> P\<rbrakk> \<Longrightarrow>
   link_wf H (m(k \<mapsto> c)) a P (Some k)"
  by (auto simp: link_wf_def)

lemma link_wf_kept:
  assumes "link_wf H m a P l" "l = Some k \<longrightarrow> cl_wallet c = a \<longrightarrow> cl_status c \<in> P"
  shows "link_wf H (m(k \<mapsto> c)) a P l"
  using assms by (auto simp: link_wf_def split: option.splits)

lemma link_wf_status:
  assumes "link_wf H m a P (Some k)" "m k = Some c" "cl_wallet c = a"
  shows "cl_status c \<in> P"
  using assms by (simp add: link_wf_def)

lemma records_wfD:
  assumes "records_wf H s"
  shows "st_claims s k = Some c \<Longrightarrow> claim_wf H (st_stakes s) k c"
    and "st_stakes s a = Some r \<Longrightarrow> stake_wf H (st_claims s) a r"
    and "st_overrides s j = Some q \<Longrightarrow> request_wf H j q"
  using assms by (simp_all add: records_wf_def)

text \<open>The stake record alone: its claim links are kept or emptied.\<close>

lemma records_wf_stake:
  assumes "records_wf H s" "stake_wf H (st_claims s) a r'"
    and "st_stakes s' = (st_stakes s)(a \<mapsto> r')" "st_claims s' = st_claims s"
    and "st_overrides s' = st_overrides s"
  shows "records_wf H s'"
  using assms by (auto simp: records_wf_def claim_wf_def)

lemma records_wf_same:
  assumes "records_wf H s" "st_stakes s' = st_stakes s" "st_claims s' = st_claims s"
    and "\<forall>k q. st_overrides s' k = Some q \<longrightarrow> request_wf H k q"
  shows "records_wf H s'"
  using assms by (simp add: records_wf_def)

text \<open>One claim and the stake record of its wallet, with the conditions on both.\<close>

lemma records_wf_update:
  assumes "records_wf H s"
    and "claim_wf H ((st_stakes s)(cl_wallet c' \<mapsto> r')) k c'"
    and "0 \<le> sr_amount r'"
    and "link_wf H ((st_claims s)(k \<mapsto> c')) (cl_wallet c') running (sr_active_claim_id r')"
    and "link_wf H ((st_claims s)(k \<mapsto> c')) (cl_wallet c') {Reserved} (sr_reserved_claim_id r')"
    and s': "st_stakes s' = (st_stakes s)(cl_wallet c' \<mapsto> r')"
      "st_claims s' = (st_claims s)(k \<mapsto> c')"
    and "\<forall>j q. st_overrides s' j = Some q \<longrightarrow> request_wf H j q"
  shows "records_wf H s'"
proof -
  have "stake_wf H ((st_claims s)(k \<mapsto> c')) b r" if "st_stakes s b = Some r" "b \<noteq> cl_wallet c'" for b r
    using records_wfD(2) [OF assms(1) that(1)] that(2)
    by (auto simp: stake_wf_def intro: link_wf_kept)
  moreover have "claim_wf H ((st_stakes s)(cl_wallet c' \<mapsto> r')) j c" if "st_claims s j = Some c" for j c
    using records_wfD(1) [OF assms(1) that] by (simp add: claim_wf_def)
  ultimately show ?thesis
    using assms(2-5,8) unfolding records_wf_def s' by (auto simp: stake_wf_def)
qed

text \<open>A claim moves to another phase; its wallet, transaction hash and tier stay.\<close>

definition same_claim :: "claim \<Rightarrow> claim \<Rightarrow> bool" where
  "same_claim c c' \<longleftrightarrow>
     cl_wallet c' = cl_wallet c \<and> cl_tx_hash c' = cl_tx_hash c \<and> cl_tier c' = cl_tier c"

definition links_follow :: "bytes \<Rightarrow> claim \<Rightarrow> claim \<Rightarrow> stake_record \<Rightarrow> stake_record \<Rightarrow> bool" where
  "links_follow k c c' r r' \<longleftrightarrow>
     (sr_active_claim_id r' = None \<or> sr_active_claim_id r' = Some k \<and> cl_status c' \<in> running \<or>
      sr_active_claim_id r' = sr_active_claim_id r \<and>
        (cl_status c \<in> running \<longrightarrow> cl_status c' \<in> running)) \<and>
     (sr_reserved_claim_id r' = None \<or>
      sr_reserved_claim_id r' = sr_reserved_claim_id r \<and>
        (cl_status c = Reserved \<longrightarrow> cl_status c' = Reserved))"

lemma records_wf_move:
  assumes wf: "records_wf H s" and c: "st_claims s k = Some c"
    and r: "st_stakes s (cl_wallet c) = Some r"
    and same: "same_claim c c'" and status: "cl_status c' \<noteq> Unused"
    and stake: "cl_stake c' = cl_stake c \<or> cl_stake c' = sr_amount r"
    and paid: "cl_status c' = Completed \<longrightarrow> cl_streamed c' = cl_entitlement c'"
    and r': "sr_amount r' = sr_amount r" "links_follow k c c' r r'"
    and s': "st_stakes s' = (st_stakes s)(cl_wallet c \<mapsto> r')" "st_claims s' = (st_claims s)(k \<mapsto> c')"
      "st_overrides s' = st_overrides s"
  shows "records_wf H s'"
proof (rule records_wf_update [OF wf])
  let ?a = "cl_wallet c'" and ?m = "(st_claims s)(k \<mapsto> c')"
  have a: "?a = cl_wallet c" using same by (simp add: same_claim_def)
  have old: "claim_wf H (st_stakes s) k c" "stake_wf H (st_claims s) (cl_wallet c) r"
    using records_wfD [OF wf] c r by blast+
  then have id: "k = compute_claim_id H (cl_wallet c) (cl_tx_hash c)" by (simp add: claim_wf_def)
  have "0 \<le> cl_stake c'"
    using stake old by (elim disjE) (simp_all add: claim_wf_def stake_wf_def)
  with old(1) same status paid show "claim_wf H ((st_stakes s)(?a \<mapsto> r')) k c'"
    by (simp add: claim_wf_def same_claim_def)
  show "0 \<le> sr_amount r'" using old r'(1) by (simp add: stake_wf_def)
  have active: "link_wf H (st_claims s) ?a running (sr_active_claim_id r)"
    and reserved: "link_wf H (st_claims s) ?a {Reserved} (sr_reserved_claim_id r)"
    using old by (simp_all add: a stake_wf_def)
  have own: "link_wf H ?m ?a running (Some k)" if "cl_status c' \<in> running"
    using that link_wf_new [OF id, of c' running] a by simp
  have kept: "link_wf H ?m ?a P l"
    if "link_wf H (st_claims s) ?a P l" "cl_status c \<in> P \<longrightarrow> cl_status c' \<in> P" for P l
  proof (rule link_wf_kept [OF that(1)], intro impI)
    assume l: "l = Some k"
    have "link_wf H (st_claims s) ?a P (Some k)" using that(1) by (simp only: l)
    from link_wf_status [OF this c a [symmetric]] that(2) show "cl_status c' \<in> P" by (rule mp [rotated])
  qed
  show "link_wf H ?m ?a running (sr_active_claim_id r')"
    using r'(2) own kept [OF active] unfolding links_follow_def
    by (elim conjE disjE) (simp_all del: fun_upd_apply)
  show "link_wf H ?m ?a {Reserved} (sr_reserved_claim_id r')"
    using r'(2) kept [OF reserved] unfolding links_follow_def
    by (elim conjE disjE) (simp_all del: fun_upd_apply)
  show "st_stakes s' = (st_stakes s)(?a \<mapsto> r')" by (simp add: s' a)
  show "st_claims s' = (st_claims s)(k \<mapsto> c')" by (simp add: s')
  show "\<forall>j q. st_overrides s' j = Some q \<longrightarrow> request_wf H j q"
    using records_wfD(3) [OF wf] by (simp add: s')
qed

section \<open>The entry points\<close>

lemma fresh_stake_wf: "0 < a \<Longrightarrow> stake_wf H m st (fresh_stake_record H e a b)"
  by (simp add: stake_wf_def fresh_stake_record_def)

lemma staking_keeps_records:
  assumes "records_wf H s"
  shows "stake H e st a b s = Ok (u, s') \<Longrightarrow> records_wf H s'"
    and "set_beneficiary H e st b s = Ok (u, s') \<Longrightarrow> records_wf H s'"
    and "withdraw H e st b s = Ok (u, s') \<Longrightarrow> records_wf H s'"
    and "emergency_exit H e st s = Ok (u, s') \<Longrightarrow> records_wf H s'"
    and "suspend_stake H e st s = Ok (u, s') \<Longrightarrow> records_wf H s'"
proof -
  have kept: "stake_wf H (st_claims s) st r'" if "st_stakes s st = Some r"
    "sr_active_claim_id r' = sr_active_claim_id r" "sr_reserved_claim_id r' = sr_reserved_claim_id r"
    "sr_amount r' \<in> {sr_amount r, 0}" for r r'
    using records_wfD(2) [OF assms that(1)] that by (auto simp: stake_wf_def)
  have upd: "records_wf H s'" if "stake_wf H (st_claims s) st r'" "st_stakes s' = (st_stakes s)(st \<mapsto> r')"
    "st_claims s' = st_claims s" "st_overrides s' = st_overrides s" for r'
    using records_wf_stake [OF assms that(1)] that by blast
  show "stake H e st a b s = Ok (u, s') \<Longrightarrow> records_wf H s'"
    by (drule stake_Ok, elim exE conjE, rule upd [OF fresh_stake_wf]) simp_all
  show "set_beneficiary H e st b s = Ok (u, s') \<Longrightarrow> records_wf H s'"
    by (drule set_beneficiary_Ok, elim exE conjE, rule upd [OF kept], assumption) simp_all
  show "withdraw H e st b s = Ok (u, s') \<Longrightarrow> records_wf H s'"
    by (drule withdraw_Ok, elim exE conjE, rule upd [OF kept], assumption)
      (simp_all add: exited_def)
  show "emergency_exit H e st s = Ok (u, s') \<Longrightarrow> records_wf H s'"
    by (drule emergency_exit_Ok, elim exE conjE, rule upd [OF kept], assumption)
      (simp_all add: exited_def)
  show "suspend_stake H e st s = Ok (u, s') \<Longrightarrow> records_wf H s'"
    by (drule suspend_stake_Ok, elim exE conjE, rule upd [OF kept], assumption) simp_all
qed

lemma unsuspend_keeps_records:
  assumes "unsuspend_stake H e wallet cid s = Ok (u, s')" "records_wf H s"
  shows "records_wf H s'"
  using unsuspend_stake_Ok [OF assms(1)]
proof (elim exE conjE disjE)
  fix rec lu
  assume "st_stakes s wallet = Some rec"
    "s' = s\<lparr>st_stakes := (st_stakes s)(wallet \<mapsto> rec\<lparr>sr_suspended := False\<rparr>), st_live_until := lu\<rparr>"
  with assms(2) show ?thesis
    by (intro records_wf_stake [OF assms(2)]) (auto dest: records_wfD(2) simp: stake_wf_def)
next
  fix rec lu k c
  assume r: "st_stakes s wallet = Some rec" and c: "st_claims s k = Some c" "cl_wallet c = wallet"
    and s': "s' = s\<lparr>st_stakes := (st_stakes s)(wallet \<mapsto> rec\<lparr>sr_suspended := False\<rparr>),
      st_claims := (st_claims s)(k \<mapsto> clock_reset e c), st_live_until := lu\<rparr>"
  have "claim_wf H (st_stakes s) k c" using records_wfD(1) [OF assms(2) c(1)] .
  with r c show ?thesis
    by (intro records_wf_move [OF assms(2) c(1), of rec "clock_reset e c"
          "rec\<lparr>sr_suspended := False\<rparr>"])
      (auto simp: s' same_claim_def links_follow_def claim_wf_def)
qed

lemma unlock_keeps_records:
  assumes "unlock_pending_claim H e k s = Ok (u, s')" "records_wf H s"
  shows "records_wf H s'"
  using unlock_pending_claim_Ok [OF assms(1)]
proof (elim exE conjE)
  fix c r lu ev
  assume c: "st_claims s k = Some c" "cl_status c = PendingTime"
    and r: "st_stakes s (cl_wallet c) = Some r"
    and s': "s' = s\<lparr>st_claims := (st_claims s)(k \<mapsto> c\<lparr>cl_status := AwaitingApproval,
        cl_approve_deadline_ledger := e_seq e + APPROVE_WINDOW_LEDGERS\<rparr>),
        st_live_until := lu, st_events := ev\<rparr>"
  from c r show ?thesis
    by (intro records_wf_move [OF assms(2) c(1) r, of _ r])
      (auto simp: s' same_claim_def links_follow_def running_def)
qed

lemma approve_keeps_records:
  assumes "approve_claim H e k s = Ok (u, s')" "records_wf H s"
  shows "records_wf H s'"
  using approve_claim_Ok [OF assms(1)]
proof (elim exE conjE)
  fix c r points lu ev
  assume c: "st_claims s k = Some c" "cl_status c = AwaitingApproval"
    and r: "st_stakes s (cl_wallet c) = Some r"
    and s': "s' = (activated e k c r s)\<lparr>st_live_until := lu, st_events := ev\<rparr>"
  from c show ?thesis
    by (intro records_wf_move [OF assms(2) c(1) r,
          of "activated_claim e (get_total_staked s) (sr_amount r) c" "r\<lparr>sr_withdrawn := True\<rparr>"])
      (auto simp: s' activated_def forfeited_def same_claim_def links_follow_def running_def)
qed

lemma release_keeps_records:
  assumes "try_release_queued_claim H e k s = Ok (u, s')" "records_wf H s"
  shows "records_wf H s'"
  using try_release_queued_claim_Ok [OF assms(1)]
proof (elim exE conjE)
  fix c r cap lu ev
  assume c: "st_claims s k = Some c" "cl_status c = Reserved"
    and r: "st_stakes s (cl_wallet c) = Some r"
    and s': "s' = (admitted e k (admitted_claim e (cl_wallet c) (cl_tx_hash c) (cl_entitlement c)
        (cl_tier c) (cl_hack_timestamp c) r) r 0 s)\<lparr>st_live_until := lu, st_events := ev\<rparr>"
  from c show ?thesis
    by (intro records_wf_move [OF assms(2) c(1) r, of _
          "r\<lparr>sr_active_claim_id := Some k, sr_reserved_claim_id := None\<rparr>"])
      (auto simp: s' admitted_def same_claim_def links_follow_def running_def)
qed

lemma queue_expiry_keeps_records:
  assumes "expire_queued_claim H e k s = Ok (u, s')" "records_wf H s"
  shows "records_wf H s'"
  using expire_queued_claim_Ok [OF assms(1)]
proof (elim exE conjE)
  fix c r lu ev
  assume c: "st_claims s k = Some c" "cl_status c = Reserved"
    and r: "st_stakes s (cl_wallet c) = Some r"
    and s': "s' = s\<lparr>st_stakes := (st_stakes s)(cl_wallet c \<mapsto> r\<lparr>sr_reserved_claim_id := None\<rparr>),
      st_claims := (st_claims s)(k \<mapsto> c\<lparr>cl_status := Expired\<rparr>), st_live_until := lu, st_events := ev\<rparr>"
  from c show ?thesis
    by (intro records_wf_move [OF assms(2) c(1) r, of _ "r\<lparr>sr_reserved_claim_id := None\<rparr>"])
      (auto simp: s' same_claim_def links_follow_def running_def)
qed

text \<open>The sweeps and the cancellation release a live claim and empty the active link.\<close>

lemma released_overrides: "st_overrides (released k c status r amount s) = st_overrides s"
  by (simp add: released_def)

lemma released_keeps_records:
  assumes "records_wf H s" "st_claims s k = Some c" "st_stakes s (cl_wallet c) = Some r"
    and "live_status (cl_status c)" "status \<in> {Expired, Cancelled}" "sr_amount r' = sr_amount r"
    and "sr_reserved_claim_id r' = sr_reserved_claim_id r"
    and "st_claims s' = st_claims (released k c status r' amount s)"
      "st_stakes s' = st_stakes (released k c status r' amount s)" "st_overrides s' = st_overrides s"
  shows "records_wf H s'"
  using assms
  by (intro records_wf_move [OF assms(1-3), of "c\<lparr>cl_status := status\<rparr>" "r'\<lparr>sr_active_claim_id := None\<rparr>"])
    (auto simp: released_def same_claim_def links_follow_def live_status_def)

lemma sweeps_keep_records:
  assumes "records_wf H s"
  shows "expire_pending_approval H e k s = Ok (u, s') \<Longrightarrow> records_wf H s'"
    and "expire_stale_claim H e k s = Ok (u, s') \<Longrightarrow> records_wf H s'"
  by (auto dest!: expire_pending_approval_Ok expire_stale_claim_Ok simp: live_status_def released_overrides
      intro!: released_keeps_records [OF assms, where status = Expired])

lemma cancel_keeps_records:
  assumes "cancel_claim H e k s = Ok (u, s')" "records_wf H s"
  shows "records_wf H s'"
  using cancel_claim_Ok [OF assms(1)]
proof (elim exE conjE)
  fix admin c r lu ev
  assume c: "st_claims s k = Some c" "cl_status c \<in> {Active, PendingTime, AwaitingApproval}"
    and r: "st_stakes s (cl_wallet c) = Some r"
    and s': "s' = (cancelled e k c r s)\<lparr>st_live_until := lu, st_events := ev\<rparr>"
  from c(2) have live: "live_status (cl_status c)" by (auto simp: live_status_def)
  show ?thesis
    using released_keeps_records [OF assms(2) c(1) r live, of Cancelled r s' 0]
      released_keeps_records [OF assms(2) c(1) r live, of Cancelled
        "r\<lparr>sr_withdrawn := False, sr_penalty_locked_until_ledger := e_seq e + PENALTY_LOCK_LEDGERS\<rparr>" s' 0]
    by (cases "cl_status c = Active") (simp_all add: s' cancelled_def released_def)
qed

lemma stream_keeps_records:
  assumes "claim_stream H e k b s = Ok (n, s')" "records_wf H s" "pool_ledger_ok s"
  shows "records_wf H s'"
  using claim_stream_Ok [OF assms(1)]
proof (elim exE conjE)
  fix c r vested available token w lu ev
  assume c: "st_claims s k = Some c" "cl_status c = Active" "vested_total e c = Ok vested"
    and n: "n = min (vested - cl_streamed c) available"
    and r: "st_stakes s (cl_wallet c) = Some r"
    and s': "s' = (streamed_to e k c n s)\<lparr>st_live_until := lu, st_events := ev, st_world := w\<rparr>"
  have "claim_ok c"
    using assms(3) c(1) ledger_ok_claim [of "ledger_of s" k c] by (simp add: pool_ledger_ok_def)
  from vested_le_entitlement [OF c(3) this c(2)] n have le: "cl_streamed c + n \<le> cl_entitlement c"
    by (simp add: min_def split: if_splits)
  with c(2) show ?thesis
    by (intro records_wf_move [OF assms(2) c(1) r, of "collected e (cl_streamed c + n) c" r])
      (simp_all add: s' streamed_to_def same_claim_def links_follow_def running_def fun_upd_idem [where f = "st_stakes s"] r)
qed

lemma submission_keeps_records:
  assumes "submit_claim H e cl wallet tx ent tier hack dl sig s = Ok (k, s')" "records_wf H s"
  shows "records_wf H s'"
  using submit_claim_Ok [OF assms(1)]
proof (elim exE conjE)
  fix r blocked orc lu ev
  assume chk: "submit_checks H e cl wallet tx ent tier hack dl sig s = Ok r"
    and k: "k = compute_claim_id H wallet tx"
    and s': "if blocked
      then s' = (queued k (new_claim wallet tx hack ent (sr_amount r) tier Reserved) r s)
        \<lparr>st_live_until := lu, st_events := ev\<rparr>
      else s' = (admitted e k (admitted_claim e wallet tx ent tier hack r) r
          (if cl = orc then 1 else 0) s)\<lparr>st_live_until := lu, st_events := ev\<rparr>"
  from submit_checks_Ok [OF chk] obtain cap where r: "st_stakes s wallet = Some r" "active_stake r"
    "sr_active_claim_id r = None" "sr_reserved_claim_id r = None" and cap: "tier_cap (sr_amount r) tier = Ok cap"
    by blast
  from r(2) have pos: "0 \<le> sr_amount r" by (simp add: active_stake_def)
  from cap have tier: "tier \<in> {1, 2, 3}" by (auto simp: tier_cap_eq_Ok tier_ratio_eq_Ok)
  have keep: "\<forall>j q. st_overrides s j = Some q \<longrightarrow> request_wf H j q"
    using records_wfD(3) [OF assms(2)] by blast
  show ?thesis
  proof (cases blocked)
    case True
    with s' have eff: "s' = (queued k (new_claim wallet tx hack ent (sr_amount r) tier Reserved) r s)
        \<lparr>st_live_until := lu, st_events := ev\<rparr>" by simp
    show ?thesis
      by (rule records_wf_update [OF assms(2), of "new_claim wallet tx hack ent (sr_amount r) tier Reserved"
            "r\<lparr>sr_reserved_claim_id := Some k\<rparr>" k])
        (use k [symmetric] r pos tier keep in
          \<open>simp_all add: eff queued_def claim_wf_def link_wf_new [OF k]\<close>)
  next
    case False
    with s' have eff: "s' = (admitted e k (admitted_claim e wallet tx ent tier hack r) r
        (if cl = orc then 1 else 0) s)\<lparr>st_live_until := lu, st_events := ev\<rparr>" by simp
    show ?thesis
      by (rule records_wf_update [OF assms(2), of "admitted_claim e wallet tx ent tier hack r"
            "r\<lparr>sr_active_claim_id := Some k, sr_reserved_claim_id := None\<rparr>" k])
        (use k [symmetric] r pos tier keep in
          \<open>simp_all add: eff admitted_def claim_wf_def link_wf_new [OF k] running_def\<close>)
  qed
qed

lemma approved_tier:
  assumes "approve_override H e cl wallet tx ent tier s = Ok (u, s')"
  shows "tier \<in> {1, 2, 3}"
  using assms by (auto simp: approve_override_def and_then_eq_Ok if_Err_eq_Ok tier_ratio_eq_Ok)

lemma approval_request_wf:
  assumes "records_wf H s" "0 < ent" "tier \<in> {1, 2, 3}" "k = compute_claim_id H wallet tx"
    and "st_admin s = Some admin" "st_co_signer s = Some cos" "cl = admin \<or> cl = cos"
    and "req = override_request_for cl wallet tx ent tier k s"
    and "ov_entitlement req = ent" "ov_tier req = tier"
  shows "request_wf H k req"
proof (cases "st_overrides s k")
  case None
  with assms show ?thesis
    by (auto simp: request_wf_def override_request_for_def record_approval_def Let_def)
next
  case (Some q)
  from records_wfD(3) [OF assms(1) this] have "k = compute_claim_id H (ov_wallet q) (ov_tx_hash q)"
    by (simp add: request_wf_def)
  moreover have "ov_wallet req = ov_wallet q" "ov_tx_hash req = ov_tx_hash q"
    "ov_owner_approver req \<noteq> None \<or> ov_co_signer_approver req \<noteq> None"
    using assms(5-8) Some by (auto simp: override_request_for_def record_approval_def Let_def)
  ultimately show ?thesis
    using assms(2,3,9,10) by (simp add: request_wf_def)
qed

lemma execution_keeps_records:
  assumes "execute_override H e k req s = Ok s1" "records_wf H s" "request_wf H k req"
  shows "records_wf H (remove_override k s1)"
  using execute_override_Ok [OF assms(1)]
proof (elim exE conjE)
  fix r cap lu ev
  assume r: "st_stakes s (ov_wallet req) = Some r" "0 < sr_amount r"
    and s1: "s1 = (overridden e k req r s)\<lparr>st_live_until := lu, st_events := ev\<rparr>"
  define c where "c = activated_claim e (get_total_staked s) (sr_amount r)
    (override_claim e req (carried (st_claims s k)) (sr_amount r))"
  have c: "cl_wallet c = ov_wallet req" "cl_tx_hash c = ov_tx_hash req" "cl_status c = Active"
    "cl_tier c = ov_tier req" "cl_stake c = sr_amount r"
    by (simp_all add: c_def)
  have id: "k = compute_claim_id H (cl_wallet c) (cl_tx_hash c)" and tier: "ov_tier req \<in> {1, 2, 3}"
    using assms(3) by (simp_all add: request_wf_def c)
  have eff: "st_stakes (remove_override k s1) = (st_stakes s)(cl_wallet c \<mapsto> override_record k r)"
    "st_claims (remove_override k s1) = (st_claims s)(k \<mapsto> c)"
    "st_overrides (remove_override k s1) = (st_overrides s)(k := None)"
    by (simp_all add: s1 overridden_def remove_override_def forfeited_def c c_def)
  have reserved: "link_wf H ((st_claims s)(k \<mapsto> c)) (cl_wallet c) {Reserved}
      (sr_reserved_claim_id (override_record k r))"
  proof (cases "sr_reserved_claim_id r = Some k")
    case False
    have "link_wf H (st_claims s) (cl_wallet c) {Reserved} (sr_reserved_claim_id r)"
      using records_wfD(2) [OF assms(2) r(1)] by (simp add: stake_wf_def c)
    with False show ?thesis by (simp add: override_record_def link_wf_kept)
  qed (simp add: override_record_def)
  show ?thesis
  proof (rule records_wf_update [OF assms(2) _ _ _ reserved eff(1,2)])
    show "claim_wf H ((st_stakes s)(cl_wallet c \<mapsto> override_record k r)) k c"
      using id [symmetric] tier r(2) by (simp add: claim_wf_def c)
    show "link_wf H ((st_claims s)(k \<mapsto> c)) (cl_wallet c) running
        (sr_active_claim_id (override_record k r))"
      unfolding override_record_simps by (rule link_wf_new [OF id]) (simp add: c running_def)
    show "\<forall>j q. st_overrides (remove_override k s1) j = Some q \<longrightarrow> request_wf H j q"
      using records_wfD(3) [OF assms(2)] by (simp add: eff)
  qed (use r(2) in simp)
qed

lemma override_keeps_records:
  assumes "approve_override H e cl wallet tx ent tier s = Ok (u, s')" "records_wf H s"
  shows "records_wf H s'"
proof -
  from approve_override_Ok [OF assms(1)] obtain admin cos k req lu where
    pre: "0 < ent" "k = compute_claim_id H wallet tx" "st_admin s = Some admin" "st_co_signer s = Some cos"
      "cl = admin \<or> cl = cos" "req = override_request_for cl wallet tx ent tier k s"
      "ov_entitlement req = ent" "ov_tier req = tier"
    and eff: "(\<exists>s1. execute_override H e k req s = Ok s1 \<and> s' = remove_override k s1) \<or>
      s' = s\<lparr>st_overrides := (st_overrides s)(k \<mapsto> req), st_live_until := lu\<rparr>"
    by blast
  have wf: "request_wf H k req"
    by (rule approval_request_wf [OF assms(2) pre(1) approved_tier [OF assms(1)] pre(2-8)])
  from eff show ?thesis
  proof (elim disjE exE conjE)
    fix s1
    assume "execute_override H e k req s = Ok s1" "s' = remove_override k s1"
    with execution_keeps_records [OF _ assms(2) wf] show ?thesis by blast
  next
    assume "s' = s\<lparr>st_overrides := (st_overrides s)(k \<mapsto> req), st_live_until := lu\<rparr>"
    with wf records_wfD(3) [OF assms(2)] show ?thesis
      by (intro records_wf_same [OF assms(2)]) simp_all
  qed
qed

lemma quiet_calls_keep_records:
  assumes "records_wf H s"
  shows "cancel_pending_override H e cl wallet tx s = Ok (u, s') \<Longrightarrow> records_wf H s'"
    and "revoke_approval H e cl wallet tx ent tier hack dl s = Ok (u, s') \<Longrightarrow> records_wf H s'"
    and "deploy_to_vault H e a mn s = Ok (x, s') \<Longrightarrow> records_wf H s'"
    and "auto_deploy_liquidity H e s = Ok (x, s') \<Longrightarrow> records_wf H s'"
    and "provide_liquidity H e sh mn s = Ok (x, s') \<Longrightarrow> records_wf H s'"
    and "ensure_liquidity H e s = Ok (x, s') \<Longrightarrow> records_wf H s'"
    and "extract_yield H e sh mn s = Ok (x, s') \<Longrightarrow> records_wf H s'"
    and "withdraw_yield H e a s = Ok (u, s') \<Longrightarrow> records_wf H s'"
proof -
  have same: "records_wf H s'" if "st_stakes s' = st_stakes s" "st_claims s' = st_claims s"
    "\<forall>j q. st_overrides s' j = Some q \<longrightarrow> st_overrides s j = Some q"
    using records_wf_same [OF assms that(1,2)] that(3) records_wfD(3) [OF assms] by blast
  show "cancel_pending_override H e cl wallet tx s = Ok (u, s') \<Longrightarrow> records_wf H s'"
    by (drule cancel_pending_override_Ok, elim exE conjE, rule same) simp_all
  show "revoke_approval H e cl wallet tx ent tier hack dl s = Ok (u, s') \<Longrightarrow> records_wf H s'"
    by (drule revoke_approval_Ok, elim exE conjE, rule same) simp_all
  show "deploy_to_vault H e a mn s = Ok (x, s') \<Longrightarrow> records_wf H s'"
    by (drule deploy_to_vault_Ok, elim exE conjE, rule same) simp_all
  show "auto_deploy_liquidity H e s = Ok (x, s') \<Longrightarrow> records_wf H s'"
    by (drule auto_deploy_liquidity_Ok, elim exE conjE disjE; rule same; simp)
  show "provide_liquidity H e sh mn s = Ok (x, s') \<Longrightarrow> records_wf H s'"
    by (drule provide_liquidity_Ok, elim exE conjE, rule same) (simp_all add: after_redeem_def)
  show "ensure_liquidity H e s = Ok (x, s') \<Longrightarrow> records_wf H s'"
    by (drule ensure_liquidity_Ok, elim exE conjE disjE; rule same; simp add: after_redeem_def)
  show "extract_yield H e sh mn s = Ok (x, s') \<Longrightarrow> records_wf H s'"
    by (drule extract_yield_Ok, elim exE conjE disjE; rule same; simp add: after_redeem_def)
  show "withdraw_yield H e a s = Ok (u, s') \<Longrightarrow> records_wf H s'"
    by (drule withdraw_yield_Ok, elim exE conjE, rule same) simp_all
qed

lemma configuration_keeps_records:
  assumes "exec H e c s = Ok (r, s')" "reconfigures c" "records_wf H s"
  shows "records_wf H s'"
  using assms
  by (cases c; intro records_wf_same [OF assms(3)])
    (auto simp: returns_eq_Ok reconfigures_def
      dest!: transfer_admin_Ok pause_Ok unpause_Ok set_pool_cap_Ok set_oracle_Ok
        set_oracle_pubkey_Ok set_oracle_identity_Ok set_co_signer_Ok set_vault_Ok
        set_treasury_Ok set_deploy_bps_Ok dest: records_wfD(3))

lemmas keeps_records =
  staking_keeps_records [rotated] quiet_calls_keep_records [rotated] sweeps_keep_records [rotated]
  unsuspend_keeps_records unlock_keeps_records approve_keeps_records release_keeps_records
  queue_expiry_keeps_records cancel_keeps_records stream_keeps_records submission_keeps_records
  override_keeps_records

lemma exec_keeps_records:
  assumes "exec H e c s = Ok (r, s')" "records_wf H s" "pool_ledger_ok s"
  shows "records_wf H s'"
proof (cases "reconfigures c")
  case True
  with assms show ?thesis by (blast intro: configuration_keeps_records)
next
  case False
  with assms show ?thesis
    by (cases c) (auto simp: returns_eq_Ok reconfigures_def dest: keeps_records)
qed

text \<open>Together with the reserve, which bounds what a collection can pay.\<close>

definition integral :: "'w host \<Rightarrow> 'w state \<Rightarrow> bool" where
  "integral H s \<longleftrightarrow> pool_ledger_ok s \<and> records_wf H s"

interpretation records: pool_invariant H "integral H"
proof
  fix e admin orc pk cos token cap and w :: 'a and u and s :: "'a state"
  assume init: "initialize H e admin orc pk cos token cap (empty_state w) = Ok (u, s)"
  then have "records_wf H s"
    by (auto dest!: initialize_Ok simp: records_wf_def empty_state_def)
  with reserves.after_deploy [OF init] show "integral H s" by (simp add: integral_def)
next
  fix e c r and s s' :: "'a state"
  assume "env_ok e" and ok: "exec H e c s = Ok (r, s')" and inv: "integral H s"
  then show "integral H s'"
    using reserves.after_call [OF _ ok] exec_keeps_records [OF ok] by (simp add: integral_def)
next
  fix s :: "'a state" and w
  assume "integral H s"
  then show "integral H (s\<lparr>st_world := w\<rparr>)"
    using reserves.world_free [of s w] by (simp add: integral_def records_wf_def)
qed

text \<open>No reachable state stores an \<open>Unused\<close> claim.\<close>

lemma reachable_claim_used:
  assumes "reachable H s" "st_claims s k = Some c"
  shows "cl_status c \<noteq> Unused"
proof -
  have "integral H s" by (rule records.in_every_reachable_state [OF assms(1)])
  with assms(2) show ?thesis by (auto simp: integral_def records_wf_def claim_wf_def)
qed

section \<open>Property\<close>

text \<open>
  C22. Every stored record is well formed in every reachable state. A claim lies under the id of its
  own wallet and transaction hash, its wallet has a stake record, its tier is one of the three, its
  entitlement is positive, its stake and streamed amount are not negative, and its status is never
  \<open>Unused\<close>; while it is queued, gated or awaiting approval nothing was streamed on it, while it is
  active its vesting ends 45 days after its cooldown, and once completed it has streamed exactly its
  entitlement. A stake record has no negative amount; its \<open>active_claim_id\<close> and \<open>reserved_claim_id\<close>
  are ids formed from its wallet and name claims that exist and, unless that claim belongs to another
  wallet whose id collides, the first is gated, awaiting approval, active or completed and the second
  is queued. A pending override lies under the id of its own wallet and transaction hash with a
  positive entitlement, a known tier and at least one recorded approver.
\<close>

theorem stored_records_stay_well_formed:
  assumes "reachable H s"
  shows "(\<forall>k c. st_claims s k = Some c \<longrightarrow> claim_wf H (st_stakes s) k c \<and> claim_ok c) \<and>
    (\<forall>a r. st_stakes s a = Some r \<longrightarrow> stake_wf H (st_claims s) a r) \<and>
    (\<forall>k q. st_overrides s k = Some q \<longrightarrow> request_wf H k q)"
proof -
  have "integral H s" by (rule records.in_every_reachable_state [OF assms])
  then show ?thesis
    by (auto simp: integral_def records_wf_def pool_ledger_ok_def ledger_ok_def)
qed

theorem stored_records_stay_well_formed_witness:
  "\<exists>c r. st_claims (after active_run) [1, 11, 9] = Some c \<and> cl_wallet c = 11 \<and>
     claim_wf ref_host (st_stakes (after active_run)) [1, 11, 9] c \<and>
     st_stakes (after active_run) 11 = Some r \<and> sr_active_claim_id r = Some [1, 11, 9] \<and>
     stake_wf ref_host (st_claims (after active_run)) 11 r"
proof -
  have "(case st_claims (after active_run) [1, 11, 9] of None \<Rightarrow> False | Some c \<Rightarrow> cl_wallet c = 11) \<and>
      (case st_stakes (after active_run) 11 of None \<Rightarrow> False
       | Some r \<Rightarrow> sr_active_claim_id r = Some [1, 11, 9])"
    by code_simp
  then obtain c r where "st_claims (after active_run) [1, 11, 9] = Some c" "cl_wallet c = 11"
    "st_stakes (after active_run) 11 = Some r" "sr_active_claim_id r = Some [1, 11, 9]"
    by (auto split: option.splits)
  with stored_records_stay_well_formed [OF after_reachable [OF active_run_ok active_run_envs]]
  show ?thesis by blast
qed

end
