(* ===== verification/Claim_Properties.thy ===== *)
theory Claim_Properties
  imports Record_Integrity
begin

text \<open>
  What a submission does, admitted or queued, and what the staker's approval of a claim does.
\<close>

section \<open>Admission\<close>

lemma admission_is_solvent:
  assumes "submit_claim H e caller wallet tx ent tier hack dl sig s = Ok (k, s')"
    and "status_at (st_claims s') k \<noteq> Some Reserved"
  shows "\<exists>r ratio cap. st_stakes s wallet = Some r \<and> active_stake r \<and> \<not> sr_suspended r \<and>
      tier_ratio tier = Ok ratio \<and> ent \<le> sr_amount r * ratio \<and>
      get_total_allocated s' = get_total_allocated s + ent \<and>
      get_total_allocated s' \<le> get_total_staked s' \<and>
      stress_cap s = Ok cap \<and> fst (get_daily_entitlement (current_day e) s') \<le> cap"
  using submit_claim_Ok [OF assms(1)]
proof (elim exE conjE)
  fix r blocked orc lu ev
  assume chk: "submit_checks H e caller wallet tx ent tier hack dl sig s = Ok r"
    and b: "cannot_admit_now e caller ent s = Ok blocked"
    and s': "if blocked
      then s' = (queued k (new_claim wallet tx hack ent (sr_amount r) tier Reserved) r s)
        \<lparr>st_live_until := lu, st_events := ev\<rparr>
      else s' = (admitted e k (admitted_claim e wallet tx ent tier hack r) r
          (if caller = orc then 1 else 0) s)\<lparr>st_live_until := lu, st_events := ev\<rparr>"
  from assms(2) s' have nb: "\<not> blocked"
    by (auto simp: status_at_def queued_def)
  with b obtain cap where g: "get_total_allocated s + ent \<le> get_total_staked s"
    "fst (get_daily_entitlement (current_day e) s) + ent \<le> cap" "stress_cap s = Ok cap"
    by (auto simp: cannot_admit_now_eq_Ok)
  from submit_checks_Ok [OF chk] obtain cap where r: "st_stakes s wallet = Some r" "active_stake r"
    "\<not> sr_suspended r" and "tier_cap (sr_amount r) tier = Ok cap" "ent \<le> cap"
    by blast
  then obtain ratio where "tier_ratio tier = Ok ratio" "ent \<le> sr_amount r * ratio"
    by (auto simp: tier_cap_eq_Ok)
  with r g s' nb show ?thesis
    by (auto simp: admitted_def get_total_allocated_def get_total_staked_def get_daily_entitlement_def)
qed

lemma queueing_moves_no_funds:
  assumes "submit_claim H e caller wallet tx ent tier hack dl sig s = Ok (k, s')"
    and "status_at (st_claims s') k = Some Reserved"
  shows "get_total_allocated s' = get_total_allocated s \<and> get_total_staked s' = get_total_staked s \<and>
    get_daily_entitlement d s' = get_daily_entitlement d s \<and> st_world s' = st_world s \<and>
    (\<exists>r. st_stakes s wallet = Some r \<and>
      st_stakes s' = (st_stakes s)(wallet \<mapsto> r\<lparr>sr_reserved_claim_id := Some k\<rparr>))"
  using submit_claim_Ok [OF assms(1)]
proof (elim exE conjE)
  fix r blocked orc lu ev
  assume chk: "submit_checks H e caller wallet tx ent tier hack dl sig s = Ok r"
    and s': "if blocked
      then s' = (queued k (new_claim wallet tx hack ent (sr_amount r) tier Reserved) r s)
        \<lparr>st_live_until := lu, st_events := ev\<rparr>
      else s' = (admitted e k (admitted_claim e wallet tx ent tier hack r) r
          (if caller = orc then 1 else 0) s)\<lparr>st_live_until := lu, st_events := ev\<rparr>"
  from assms(2) s' have b: "blocked"
    by (auto simp: status_at_def admitted_def split: if_splits)
  from submit_checks_Ok [OF chk] have "st_stakes s wallet = Some r" by blast
  with s' b show ?thesis
    by (simp add: queued_def get_total_allocated_def get_total_staked_def get_daily_entitlement_def)
qed

lemma replayed_submission_refused:
  assumes "st_claims s (compute_claim_id H wallet tx) = Some c" "cl_status c \<noteq> Unused"
  shows "\<not> is_ok (submit_claim H e caller wallet tx ent tier hack dl sig s)"
  using assms by (fastforce simp: is_ok_iff dest!: submit_claim_Ok)

text \<open>
  C13. A submission is admitted within the limits, or queued without effect. It succeeds only
  if the claim id of the wallet and transaction hash has no record, or one whose status is still
  \<open>Unused\<close>, and in a reachable state, where no such record exists, only if there is none; the stake
  must be active and unsuspended, and the entitlement at most the tier's multiple of it. Admitted, it raises \<open>total_allocated\<close> by exactly the entitlement, within \<open>total_staked\<close>,
  and keeps the day's admissions within the stress cap. Queued, it is stored as \<open>Reserved\<close> and
  neither the totals, nor the day's counters, nor any token balance change.
\<close>

theorem submission_admits_or_queues:
  assumes "submit_claim H e caller wallet tx ent tier hack dl sig s = Ok (k, s')"
  shows "k = compute_claim_id H wallet tx \<and> status_at (st_claims s) k \<in> {None, Some Unused} \<and>
    (reachable H s \<longrightarrow> st_claims s k = None) \<and>
    (\<exists>r ratio. st_stakes s wallet = Some r \<and> active_stake r \<and> \<not> sr_suspended r \<and>
      tier_ratio tier = Ok ratio \<and> ent \<le> sr_amount r * ratio) \<and>
    (if status_at (st_claims s') k = Some Reserved
     then get_total_allocated s' = get_total_allocated s \<and> get_total_staked s' = get_total_staked s \<and>
       get_daily_entitlement d s' = get_daily_entitlement d s \<and> st_world s' = st_world s
     else get_total_allocated s' = get_total_allocated s + ent \<and>
       get_total_allocated s' \<le> get_total_staked s' \<and>
       (\<exists>cap. stress_cap s = Ok cap \<and> fst (get_daily_entitlement (current_day e) s') \<le> cap))"
proof -
  from submit_claim_Ok [OF assms] obtain r where
    chk: "submit_checks H e caller wallet tx ent tier hack dl sig s = Ok r"
    and k: "k = compute_claim_id H wallet tx"
    and new: "\<forall>c. st_claims s k = Some c \<longrightarrow> cl_status c = Unused"
    by blast
  from new have "status_at (st_claims s) k \<in> {None, Some Unused}"
    by (cases "st_claims s k") (simp_all add: status_at_def)
  moreover from submit_checks_Ok [OF chk] obtain cap where r: "st_stakes s wallet = Some r"
    "active_stake r" "\<not> sr_suspended r" "tier_cap (sr_amount r) tier = Ok cap" "ent \<le> cap"
    by blast
  then have "\<exists>ratio. tier_ratio tier = Ok ratio \<and> ent \<le> sr_amount r * ratio"
    by (auto simp: tier_cap_eq_Ok)
  moreover have "reachable H s \<longrightarrow> st_claims s k = None"
    using new reachable_claim_used [of H s k] by (cases "st_claims s k") auto
  ultimately show ?thesis
    using k r(1-3) queueing_moves_no_funds [OF assms] admission_is_solvent [OF assms] by auto
qed

theorem submission_admits_or_queues_witness:
  "st_claims (after staked_run) [1, 11, 9] = None \<and>
   get_total_allocated (after awaiting_run) \<le> get_total_staked (after awaiting_run) \<and>
   get_total_allocated (after awaiting_run) = get_total_allocated (after staked_run) + 4000"
proof -
  let ?m = "submit_claim ref_host (on_day 100 [1]) 1 11 [9] 4000 3 (99 * 86400) 0 [] (after staked_run)"
  have ok: "is_ok ?m \<and> result_of ?m = [1, 11, 9] \<and>
      status_at (st_claims (state_of ?m)) [1, 11, 9] = Some AwaitingApproval \<and>
      get_total_allocated (state_of ?m) = get_total_allocated (after awaiting_run) \<and>
      get_total_staked (state_of ?m) = get_total_staked (after awaiting_run)"
    by code_simp
  define m where "m = ?m"
  have m: "?m = Ok (result_of m, state_of m)"
    unfolding m_def by (rule is_ok_result) (use ok in blast)
  have "reachable ref_host (after staked_run)"
    by (rule after_reachable [OF staked_run_ok staked_run_envs])
  with submission_admits_or_queues [OF m] ok [folded m_def] show ?thesis by auto
qed

section \<open>Activation\<close>

text \<open>
  C28. The staker's approval burns the wallet's whole point balance, this stake's points included,
  forfeits the stake out of \<open>total_staked\<close>, and starts the 7-day cooldown and the 45-day vesting
  from now.
\<close>

theorem approval_burns_and_forfeits:
  assumes "approve_claim H e k s = Ok (u, s')"
  shows "\<exists>c c' r points. st_claims s k = Some c \<and> st_stakes s (cl_wallet c) = Some r \<and>
      e_auth e (cl_wallet c) \<and> compute_points_for_record e r s = Ok points \<and>
      get_points_balance s' (cl_wallet c) = 0 \<and>
      get_total_staked s' = get_total_staked s - sr_amount r \<and>
      st_stakes s' (cl_wallet c) = Some (r\<lparr>sr_withdrawn := True\<rparr>) \<and>
      st_claims s' k = Some c' \<and> cl_status c' = Active \<and>
      cl_total_staked_snapshot c' = get_total_staked s \<and>
      cl_cooldown_ends_ledger c' = e_seq e + COOLDOWN_LEDGERS \<and>
      cl_vesting_ends_ledger c' = e_seq e + COOLDOWN_LEDGERS + VESTING_LEDGERS"
  using approve_claim_Ok [OF assms]
  by (fastforce simp: activated_def forfeited_def get_points_balance_def get_total_staked_def)

theorem approval_burns_and_forfeits_witness:
  "is_ok (approve_claim ref_host (on_day 101 [11]) [1, 11, 9] (after awaiting_run)) \<and>
   (\<exists>c'. st_claims (state_of (approve_claim ref_host (on_day 101 [11]) [1, 11, 9] (after awaiting_run)))
      [1, 11, 9] = Some c' \<and> cl_status c' = Active)"
proof -
  have ok: "is_ok (approve_claim ref_host (on_day 101 [11]) [1, 11, 9] (after awaiting_run))"
    by code_simp
  from approval_burns_and_forfeits [OF is_ok_result [OF ok]] ok show ?thesis by blast
qed

end
