(* ===== verification/Override_Properties.thy ===== *)
theory Override_Properties
  imports Claim_Ledger
begin

text \<open>
  The 2-of-2 override: it takes the current admin and the current co-signer, both on the same
  terms, and what it may then create is bounded like any other claim.
\<close>

lemma first_approval_records:
  assumes "approve_override H e caller wallet tx ent tier s = Ok (u, s')"
    and "st_overrides s (compute_claim_id H wallet tx) = None" "roles_separated s"
  shows "\<exists>req lu. s' = s\<lparr>st_overrides := (st_overrides s)(compute_claim_id H wallet tx \<mapsto> req),
        st_live_until := lu\<rparr> \<and> ov_entitlement req = ent \<and> ov_tier req = tier \<and>
      (ov_owner_approver req = None \<or> ov_co_signer_approver req = None)"
  using approve_override_Ok [OF assms(1)]
proof (elim exE conjE)
  fix admin cos cid req lu
  assume r: "st_admin s = Some admin" "st_co_signer s = Some cos" "cid = compute_claim_id H wallet tx"
    "req = override_request_for caller wallet tx ent tier cid s" "ov_entitlement req = ent" "ov_tier req = tier"
    and alt: "override_ready admin cos req \<and>
        (\<exists>s1. execute_override H e cid req s = Ok s1 \<and> s' = remove_override cid s1) \<or>
      \<not> override_ready admin cos req \<and>
        s' = s\<lparr>st_overrides := (st_overrides s)(cid \<mapsto> req), st_live_until := lu\<rparr>"
  from assms(3) r have ne: "cos \<noteq> admin" by (auto simp: roles_separated_def)
  have one: "ov_owner_approver req = None \<or> ov_co_signer_approver req = None"
    using r assms(2) ne by (simp add: override_request_for_def record_approval_def Let_def)
  with ne have "\<not> override_ready admin cos req" by (auto simp: override_ready_def)
  with alt r one show ?thesis by blast
qed

text \<open>
  C10. An override that changed a claim had both approvals, on identical terms, from the parties
  that hold the two roles now: the caller is one of them, and the other one's recorded approval
  still names the current holder of its role.
\<close>

theorem execution_needs_both_current_roles:
  assumes "approve_override H e caller wallet tx ent tier s = Ok (u, s')"
    and "st_claims s' \<noteq> st_claims s" "roles_separated s"
  shows "\<exists>admin cos req. st_admin s = Some admin \<and> st_co_signer s = Some cos \<and> e_auth e caller \<and>
      st_overrides s (compute_claim_id H wallet tx) = Some req \<and>
      ov_entitlement req = ent \<and> ov_tier req = tier \<and>
      (caller = admin \<and> ov_co_signer_approver req = Some cos \<or>
       caller = cos \<and> ov_owner_approver req = Some admin)"
proof (cases "st_overrides s (compute_claim_id H wallet tx)")
  case None
  from first_approval_records [OF assms(1) None assms(3)] assms(2) show ?thesis by auto
next
  case (Some req)
  with approve_override_Ok [OF assms(1)] assms(2,3) show ?thesis
    by (auto simp: override_request_for_def record_approval_def override_ready_def
        roles_separated_def Let_def split: if_splits)
qed

definition approved_once_run :: "(env \<times> pool_call) list" where
  "approved_once_run = staked_run @ [(on_day 5 [1], ApproveOverride 1 11 [9] 3000 3)]"

lemma approved_once_ok: "is_ok (run ref_host approved_once_run (state_of deployment))"
  by code_simp

lemma approved_once_envs: "\<forall>(e, c) \<in> set approved_once_run. env_ok e"
  by (simp add: approved_once_run_def staked_run_def env_ok_on_day)

definition request_at :: "bytes \<Rightarrow> (override_request \<Rightarrow> bool) \<Rightarrow> 'w state \<Rightarrow> bool" where
  "request_at k P s = (case st_overrides s k of None \<Rightarrow> False | Some req \<Rightarrow> P req)"

lemma second_approval:
  "is_ok (approve_override ref_host (on_day 6 [3]) 3 11 [9] 3000 3 (after approved_once_run))"
  "claim_at [1, 11, 9] (\<lambda>c. cl_status c = Active)
     (state_of (approve_override ref_host (on_day 6 [3]) 3 11 [9] 3000 3 (after approved_once_run)))"
  "\<not> claim_at [1, 11, 9] (\<lambda>_. True) (after approved_once_run)"
  "compute_claim_id ref_host 11 [9] = [1, 11, 9]"
  by code_simp+

lemma second_approval_changes_claims:
  "st_claims (state_of (approve_override ref_host (on_day 6 [3]) 3 11 [9] 3000 3 (after approved_once_run)))
     \<noteq> st_claims (after approved_once_run)"
proof
  assume "st_claims (state_of (approve_override ref_host (on_day 6 [3]) 3 11 [9] 3000 3
      (after approved_once_run))) = st_claims (after approved_once_run)"
  with second_approval(2,3) show False by (simp add: claim_at_def split: option.splits)
qed

theorem execution_needs_both_current_roles_witness:
  "\<exists>req. st_overrides (after approved_once_run) [1, 11, 9] = Some req \<and> ov_entitlement req = 3000"
proof -
  have sep: "roles_separated (after approved_once_run)"
    by (rule roles.in_every_reachable_state [OF after_reachable [OF approved_once_ok approved_once_envs]])
  from execution_needs_both_current_roles [OF is_ok_result [OF second_approval(1)]
      second_approval_changes_claims sep] second_approval(4)
  show ?thesis by auto
qed

text \<open>
  C29. What an executed override (one that changed a claim) may create is bounded: the entitlement stays
  within the tier cap of the live stake, the allocation stays within \<open>total_staked\<close> (with the claim's own
  forfeited principal added back), the stake is forfeited to this claim alone, and the request is gone.
  What a prior claim under the same id had already streamed is carried over if that claim was still
  active, and only then: after a cancelled or expired claim, or none, the count starts at zero.
\<close>

theorem executed_override_is_bounded:
  assumes "approve_override H e caller wallet tx ent tier s = Ok (u, s')"
    and "st_claims s' \<noteq> st_claims s"
  shows "\<exists>k c r ratio. k = compute_claim_id H wallet tx \<and> st_claims s' k = Some c \<and>
      cl_status c = Active \<and> cl_entitlement c = ent \<and>
      cl_streamed c = (case st_claims s k of Some c0 \<Rightarrow> if cl_status c0 = Active then cl_streamed c0 else 0
        | None \<Rightarrow> 0) \<and>
      st_stakes s (cl_wallet c) = Some r \<and> tier_ratio tier = Ok ratio \<and> ent \<le> sr_amount r * ratio \<and>
      (sr_active_claim_id r = None \<or> sr_active_claim_id r = Some k) \<and>
      get_total_allocated s' \<le> effective_total_staked r s \<and>
      st_stakes s' (cl_wallet c) = Some (override_record k r) \<and>
      st_overrides s' k = None"
  using approve_override_Ok [OF assms(1)]
proof (elim exE conjE)
  fix admin cos k req lu
  assume k: "k = compute_claim_id H wallet tx" and q: "ov_entitlement req = ent" "ov_tier req = tier"
    and alt: "override_ready admin cos req \<and>
        (\<exists>s1. execute_override H e k req s = Ok s1 \<and> s' = remove_override k s1) \<or>
      \<not> override_ready admin cos req \<and>
        s' = s\<lparr>st_overrides := (st_overrides s)(k \<mapsto> req), st_live_until := lu\<rparr>"
  from alt assms(2) obtain s1 where ex: "execute_override H e k req s = Ok s1"
    and s': "s' = remove_override k s1"
    by auto
  from execute_override_Ok [OF ex] obtain r cap lu ev where
    r: "st_stakes s (ov_wallet req) = Some r"
      "sr_active_claim_id r = None \<or> sr_active_claim_id r = Some k"
    and cap: "tier_cap (sr_amount r) (ov_tier req) = Ok cap" "ov_entitlement req \<le> cap"
    and sol: "allocated_without (st_claims s k) s + ov_entitlement req \<le> effective_total_staked r s"
    and s1: "s1 = (overridden e k req r s)\<lparr>st_live_until := lu, st_events := ev\<rparr>"
    by blast
  from cap q obtain ratio where "tier_ratio tier = Ok ratio" "ent \<le> sr_amount r * ratio"
    by (auto simp: tier_cap_eq_Ok)
  with r sol q k show ?thesis
    by (auto simp: s' s1 remove_override_def overridden_def get_total_allocated_def carried_def
        split: option.split)
qed

theorem executed_override_is_bounded_witness:
  "get_total_allocated (state_of (approve_override ref_host (on_day 6 [3]) 3 11 [9] 3000 3
     (after approved_once_run))) \<le> 20000"
proof -
  have t: "get_total_staked (after approved_once_run) = 20000" by code_simp
  have r: "map_option sr_withdrawn (st_stakes (after approved_once_run) 11) = Some False" by code_simp
  have w: "claim_at [1, 11, 9] (\<lambda>c. cl_wallet c = 11)
     (state_of (approve_override ref_host (on_day 6 [3]) 3 11 [9] 3000 3 (after approved_once_run)))"
    by code_simp
  from executed_override_is_bounded [OF is_ok_result [OF second_approval(1)]
      second_approval_changes_claims] t r claim_atD [OF w] second_approval(4)
  show ?thesis by (auto simp: effective_total_staked_def)
qed

end
