(* ===== verification/Payout_Properties.thy ===== *)
theory Payout_Properties
  imports Claim_Ledger
begin

text \<open>
  The payout stream (\<open>claim_stream\<close>): its bounds, the daily outflow cap, and that a claim can be
  collected to the end; and the three ways a live claim ends early, each of which gives back
  exactly what the claim still held.
\<close>

section \<open>The stream\<close>

lemma outflow_rate_bounds:
  assumes "dynamic_outflow_bps base s = Ok bps"
  shows "100 \<le> bps \<and> bps \<le> 500"
  using assms by (auto simp: dynamic_outflow_bps_def and_then_eq_Ok Let_def split: if_splits)

lemma available_today_bound:
  assumes "available_today e c s = Ok av" "0 < amount" "amount \<le> av"
  shows "get_daily_outflow (current_day e) s + amount
    \<le> max 0 (max (get_total_staked s) (cl_total_staked_snapshot c)) * 500 div 10000"
proof -
  define base where "base = max (get_total_staked s) (cl_total_staked_snapshot c)"
  from assms(1) obtain bps where b: "dynamic_outflow_bps base s = Ok bps"
    and av: "av = saturating_sub_i128 (base * bps sdiv 10000) (get_daily_outflow (current_day e) s)"
    by (auto simp: available_today_def and_then_eq_Ok mul_div_i128_eq_Ok Let_def base_def
        BPS_DENOMINATOR_def)
  from outflow_rate_bounds [OF b] have bps: "100 \<le> bps" "bps \<le> 500" by simp_all
  have cap: "base * bps sdiv 10000 \<le> max 0 base * 500 div 10000"
  proof (cases "0 \<le> base")
    case True
    with bps have "base * bps \<le> base * 500" "0 \<le> base * bps"
      by (auto intro: mult_left_mono)
    with True show ?thesis by (simp add: sdiv_nonneg_eq zdiv_mono1 max_def)
  next
    case False
    with bps have "base * bps < 0" by (simp add: mult_neg_pos)
    then have "base * bps sdiv 10000 \<le> 0" by (simp add: sdiv_neg_eq pos_imp_zdiv_nonneg_iff)
    with False show ?thesis by (simp add: max_def)
  qed
  from av assms(2,3) have "amount \<le> base * bps sdiv 10000 - get_daily_outflow (current_day e) s"
    by (simp add: saturating_sub_i128_def i128_min_def)
  with cap show ?thesis by (simp add: base_def)
qed

text \<open>A collection pays its amount out of the pool to the given beneficiary, and to nobody else.\<close>

lemma stream_transfers:
  assumes "claim_stream H e k b s = Ok (amount, s')" "sac_law H" "b \<noteq> h_self H"
  shows "transferred H (h_self H) b amount s s'"
proof -
  from claim_stream_Ok [OF assms(1)] obtain token w where t: "st_xlm_token s = Some token"
    and w: "h_token_transfer H (st_world s) token (h_self H) b amount = Some w"
    and s': "st_world s' = w" "st_xlm_token s' = st_xlm_token s"
    by (elim exE conjE) (simp add: streamed_to_def)
  show ?thesis by (rule transfer_moves [OF assms(2) assms(3) [symmetric] w t s'])
qed

text \<open>
  C8. The stream never overpays: a collection is positive, the streamed total stays within what has
  vested and so within the entitlement, and the claim completes exactly when it is fully paid. The
  amount goes out of the pool to the beneficiary the stake has committed to, and nobody else's holding
  of the token changes. (In a state that keeps the ledger invariant, as every reachable one does, for a
  token that keeps \<open>sac_law\<close>, the beneficiary not being the pool itself.)
\<close>

theorem stream_never_overpays:
  assumes "claim_stream H e k b s = Ok (amount, s')" "pool_ledger_ok s" "sac_law H" "b \<noteq> h_self H"
  shows "\<exists>c c' r vested. st_claims s k = Some c \<and> st_claims s' k = Some c' \<and>
      st_stakes s (cl_wallet c) = Some r \<and> address_hash H b = sr_beneficiary_hash r \<and>
      transferred H (h_self H) b amount s s' \<and>
      cl_cooldown_ends_ledger c \<le> e_seq e \<and> vested_total e c = Ok vested \<and>
      0 < amount \<and> cl_streamed c' = cl_streamed c + amount \<and>
      cl_streamed c' \<le> vested \<and> vested \<le> cl_entitlement c' \<and>
      (cl_status c' = Completed \<longleftrightarrow> cl_streamed c' = cl_entitlement c')"
proof -
  from claim_stream_Ok [OF assms(1)] obtain c r vested available w lu ev where
    g: "st_claims s k = Some c" "cl_status c = Active" "cl_cooldown_ends_ledger c \<le> e_seq e"
      "st_stakes s (cl_wallet c) = Some r" "address_hash H b = sr_beneficiary_hash r"
      "vested_total e c = Ok vested" "amount = min (vested - cl_streamed c) available" "0 < amount"
    and s': "s' = (streamed_to e k c amount s)\<lparr>st_live_until := lu, st_events := ev, st_world := w\<rparr>"
    by blast
  have "claim_ok c"
    using assms(2) g(1) by (auto simp: pool_ledger_ok_def intro: ledger_ok_claim)
  with vested_le_entitlement g have "vested \<le> cl_entitlement c" by blast
  moreover have "transferred H (h_self H) b amount s s'" by (rule stream_transfers [OF assms(1,3,4)])
  moreover have "st_claims s' k = Some (collected e (cl_streamed c + amount) c)"
    by (simp add: s' streamed_to_def)
  ultimately show ?thesis using g by fastforce
qed

theorem stream_never_overpays_witness:
  "\<exists>c'. st_claims (state_of (claim_stream ref_host (on_day 120 [11]) [1, 11, 9] 21 (after active_run)))
      [1, 11, 9] = Some c' \<and> cl_streamed c' \<le> cl_entitlement c' \<and>
     (\<exists>amount. 0 < amount \<and> transferred ref_host 100 21 amount (after active_run)
        (state_of (claim_stream ref_host (on_day 120 [11]) [1, 11, 9] 21 (after active_run))))"
proof -
  have ok: "is_ok (claim_stream ref_host (on_day 120 [11]) [1, 11, 9] 21 (after active_run))"
    by code_simp
  have inv: "pool_ledger_ok (after active_run)"
    by (rule reserves.in_every_reachable_state [OF after_reachable [OF active_run_ok active_run_envs]])
  have "(21::address) \<noteq> h_self ref_host" by simp
  from stream_never_overpays [OF is_ok_result [OF ok] inv ref_host_sac_law this] show ?thesis by fastforce
qed

text \<open>
  C12. The daily outflow cap binds: after any collection, what the pool paid out that day is at most
  5% of the larger of \<open>total_staked\<close> and the claim's own snapshot; exactly the amount was added to the
  day's count, and exactly that amount went from the pool to the beneficiary and to nobody else. (For a
  token that keeps \<open>sac_law\<close>, the beneficiary not being the pool itself.)
\<close>

theorem daily_outflow_capped:
  assumes "claim_stream H e k b s = Ok (amount, s')" "sac_law H" "b \<noteq> h_self H"
  shows "\<exists>c. st_claims s k = Some c \<and>
      get_daily_outflow (current_day e) s' = get_daily_outflow (current_day e) s + amount \<and>
      get_daily_outflow (current_day e) s'
        \<le> max 0 (max (get_total_staked s) (cl_total_staked_snapshot c)) * 500 div 10000 \<and>
      transferred H (h_self H) b amount s s'"
proof -
  from claim_stream_Ok [OF assms(1)] obtain c vested available w lu ev where
    g: "st_claims s k = Some c" "available_today e c s = Ok available"
      "amount = min (vested - cl_streamed c) available" "0 < amount"
    and s': "s' = (streamed_to e k c amount s)\<lparr>st_live_until := lu, st_events := ev, st_world := w\<rparr>"
    by blast
  from available_today_bound [OF g(2,4)] g(3)
  have "get_daily_outflow (current_day e) s + amount
      \<le> max 0 (max (get_total_staked s) (cl_total_staked_snapshot c)) * 500 div 10000"
    by simp
  moreover have "get_daily_outflow (current_day e) s' = get_daily_outflow (current_day e) s + amount"
    by (simp add: s' streamed_to_def get_daily_outflow_def)
  ultimately show ?thesis using g(1) stream_transfers [OF assms] by auto
qed

theorem daily_outflow_capped_witness:
  "get_daily_outflow 120 (state_of (claim_stream ref_host (on_day 120 [11]) [1, 11, 9] 21 (after active_run)))
     \<le> 20000 * 500 div 10000"
proof -
  have ok: "is_ok (claim_stream ref_host (on_day 120 [11]) [1, 11, 9] 21 (after active_run))"
    and c: "map_option cl_total_staked_snapshot (st_claims (after active_run) [1, 11, 9]) = Some 20000"
    and t: "get_total_staked (after active_run) = 10000" and d: "current_day (on_day 120 [11]) = 120"
    by code_simp+
  have b: "(21::address) \<noteq> h_self ref_host" by simp
  from daily_outflow_capped [OF is_ok_result [OF ok] ref_host_sac_law b] c t d show ?thesis by auto
qed

text \<open>The arithmetic of the last collection: everything has vested.\<close>

lemma vested_at_end:
  assumes "claim_ok c" "cl_status c = Active" "cl_vesting_ends_ledger c \<le> e_seq e"
    and "in_i128 (cl_entitlement c * VESTING_LEDGERS)" "in_i128 (cl_entitlement c)"
  shows "vested_total e c = Ok (cl_entitlement c)"
  using assms
  by (simp add: vested_total_def claim_ok_def saturating_sub_u32_def mul_div_i128_eq_Ok
      sdiv_nonneg_eq time_defs)

lemma pay_stream_succeeds:
  assumes "st_xlm_token s = Some token" "amount \<le> h_token_balance H (st_world s) token (h_self H)"
    and "h_token_transfer H (st_world s) token (h_self H) b amount = Some w"
    and "in_i128 (cl_streamed c + amount)" "in_i128 (get_daily_outflow (current_day e) s + amount)"
  shows "is_ok (pay_stream H e k c b amount s)"
  using assms
  by (simp add: is_ok_iff pay_stream_def and_then_eq_Ok require_liquidity_eq_Ok add_i128_eq_Ok
      token_transfer_eq_Ok Let_def storage_simps get_xlm_token_eq_Ok)

text \<open>What the day's cap still allows never takes the day's count out of its type.\<close>

lemma day_total_in_range:
  assumes "available_today e c s = Ok av" "0 < x" "x \<le> av" "0 \<le> get_daily_outflow (current_day e) s"
  shows "in_i128 (get_daily_outflow (current_day e) s + x)"
proof -
  from assms(1) obtain cap where "in_i128 cap"
    and "av = saturating_sub_i128 cap (get_daily_outflow (current_day e) s)"
    by (auto simp: available_today_def and_then_eq_Ok mul_div_i128_eq_Ok Let_def)
  with assms(2-4) show ?thesis
    by (auto simp: saturating_sub_i128_def in_i128_def i128_min_def i128_max_def)
qed

text \<open>
  C21. A claim can be collected to the end. Once the vesting period is over and the pool is not paused, a
  staker who signs for an unsuspended, not yet fully paid claim with its committed beneficiary succeeds,
  provided the day's cap allows what is still owed and the pool holds it: in one collection everything
  still owed goes from the pool to the beneficiary, nobody else's holding changes, and the claim completes.
  (In a state that keeps the ledger invariant, whose count for the day is not negative, for entitlements of
  at most \<open>2^100\<close> stroops, and a token that accepts the transfer and keeps \<open>sac_law\<close>, the beneficiary not
  being the pool itself.)
\<close>

theorem fully_vested_claim_completes:
  assumes "pool_ledger_ok s" "\<not> is_paused s" "st_claims s k = Some c" "cl_status c = Active"
    and "cl_streamed c < cl_entitlement c" "cl_entitlement c \<le> 2 ^ 100" "e_auth e (cl_wallet c)"
    and "cl_cooldown_ends_ledger c \<le> e_seq e" "cl_vesting_ends_ledger c \<le> e_seq e"
    and "st_stakes s (cl_wallet c) = Some r" "\<not> sr_suspended r"
    and "address_hash H b = sr_beneficiary_hash r"
    and "available_today e c s = Ok av" "cl_entitlement c - cl_streamed c \<le> av"
    and "0 \<le> get_daily_outflow (current_day e) s" "st_xlm_token s = Some token"
    and "cl_entitlement c - cl_streamed c \<le> h_token_balance H (st_world s) token (h_self H)"
    and "h_token_transfer H (st_world s) token (h_self H) b (cl_entitlement c - cl_streamed c) \<noteq> None"
    and "sac_law H" "b \<noteq> h_self H"
  shows "\<exists>s'. claim_stream H e k b s = Ok (cl_entitlement c - cl_streamed c, s') \<and>
    status_at (st_claims s') k = Some Completed \<and>
    transferred H (h_self H) b (cl_entitlement c - cl_streamed c) s s'"
proof -
  let ?rest = "cl_entitlement c - cl_streamed c"
  have cok: "claim_ok c"
    using assms(1,3) by (auto simp: pool_ledger_ok_def intro: ledger_ok_claim)
  then have ent: "in_i128 (cl_entitlement c)" "in_i128 (cl_entitlement c * VESTING_LEDGERS)"
    using assms(6) by (simp_all add: claim_ok_def time_defs in_i128_def i128_min_def i128_max_def)
  have v: "vested_total e c = Ok (cl_entitlement c)"
    using vested_at_end [OF cok assms(4,9) ent(2,1)] .
  have sub: "sub_i128 (cl_entitlement c) (cl_streamed c) = Ok ?rest"
    using ent(1) assms(5) cok by (simp add: sub_i128_eq_Ok in_i128_def i128_min_def claim_ok_def)
  have day: "in_i128 (get_daily_outflow (current_day e) s + ?rest)"
    using assms(5) by (intro day_total_in_range [OF assms(13) _ assms(14,15)]) simp
  from assms(18) obtain w where w: "h_token_transfer H (st_world s) token (h_self H) b ?rest = Some w"
    by blast
  have p: "is_ok (pay_stream H e k c b ?rest s)"
    by (rule pay_stream_succeeds [OF assms(16,17) w]) (use ent(1) day in simp_all)
  have cs: "claim_stream H e k b s = pay_stream H e k c b ?rest s"
    using assms v sub
    by (simp add: claim_stream_def require_not_paused_def require_auth_def get_claim_def
        get_stake_def Let_def)
  moreover from p obtain x s' where ps: "pay_stream H e k c b ?rest s = Ok (x, s')"
    by (auto simp: is_ok_iff)
  moreover from pay_stream_Ok [OF ps] have x: "x = ?rest" and "status_at (st_claims s') k = Some Completed"
    by (auto simp: streamed_to_def status_at_def)
  moreover from stream_transfers [OF cs [unfolded ps x] assms(19,20)]
  have "transferred H (h_self H) b ?rest s s'" .
  ultimately show ?thesis by simp
qed

lemma small_claim_envs: "\<forall>(e, c) \<in> set small_claim_run. env_ok e"
  by (simp add: small_claim_run_def staked_run_def env_ok_on_day)

text \<open>What the witness needs of that state, evaluated in one go.\<close>

definition last_collection_ready :: "mock_world state \<Rightarrow> bool" where
  "last_collection_ready s \<longleftrightarrow>
     \<not> is_paused s \<and> st_xlm_token s = Some 50 \<and>
     460 \<le> h_token_balance ref_host (st_world s) 50 100 \<and>
     (case h_token_transfer ref_host (st_world s) 50 100 21 460 of None \<Rightarrow> False | Some _ \<Rightarrow> True) \<and>
     get_daily_outflow (current_day (on_day 157 [11])) s = 0 \<and>
     (case st_stakes s 11 of None \<Rightarrow> False
      | Some r \<Rightarrow> \<not> sr_suspended r \<and> address_hash ref_host 21 = sr_beneficiary_hash r) \<and>
     (case st_claims s [1, 11, 9] of None \<Rightarrow> False
      | Some c \<Rightarrow> cl_status c = Active \<and> cl_wallet c = 11 \<and> cl_entitlement c = 900 \<and>
          cl_streamed c = 440 \<and> cl_cooldown_ends_ledger c \<le> 157 * 17280 \<and>
          cl_vesting_ends_ledger c \<le> 157 * 17280 \<and>
          available_today (on_day 157 [11]) c s = Ok 1000)"

lemma small_claim_ends: "ends_in small_claim_run last_collection_ready"
  by code_simp

theorem fully_vested_claim_completes_witness:
  "\<exists>s'. claim_stream ref_host (on_day 157 [11]) [1, 11, 9] 21 (after small_claim_run) = Ok (460, s') \<and>
     status_at (st_claims s') [1, 11, 9] = Some Completed \<and>
     transferred ref_host 100 21 460 (after small_claim_run) s'"
proof -
  define s where "s = after small_claim_run"
  have ready: "last_collection_ready s"
    unfolding s_def by (rule ends_inD(2) [OF small_claim_ends])
  have inv: "pool_ledger_ok s"
    unfolding s_def
    by (rule reserves.in_every_reachable_state [OF after_reachable [OF ends_inD(1) [OF small_claim_ends] small_claim_envs]])
  obtain c where c: "st_claims s [1, 11, 9] = Some c" "cl_status c = Active"
    "cl_wallet c = 11" "cl_entitlement c = 900" "cl_streamed c = 440"
    "cl_cooldown_ends_ledger c \<le> 157 * 17280" "cl_vesting_ends_ledger c \<le> 157 * 17280"
    "available_today (on_day 157 [11]) c s = Ok 1000"
    using ready unfolding last_collection_ready_def by (auto split: option.splits)
  obtain r where r: "st_stakes s 11 = Some r" "\<not> sr_suspended r"
    "address_hash ref_host 21 = sr_beneficiary_hash r"
    using ready unfolding last_collection_ready_def by (auto split: option.splits)
  have p: "\<not> is_paused s" "st_xlm_token s = Some 50" "460 \<le> h_token_balance ref_host (st_world s) 50 100"
    "h_token_transfer ref_host (st_world s) 50 100 21 460 \<noteq> None"
    "get_daily_outflow (current_day (on_day 157 [11])) s = 0"
    using ready unfolding last_collection_ready_def by (auto split: option.splits)
  have "\<exists>s'. claim_stream ref_host (on_day 157 [11]) [1, 11, 9] 21 s
      = Ok (cl_entitlement c - cl_streamed c, s') \<and> status_at (st_claims s') [1, 11, 9] = Some Completed \<and>
      transferred ref_host (h_self ref_host) 21 (cl_entitlement c - cl_streamed c) s s'"
    by (rule fully_vested_claim_completes [OF inv p(1) c(1,2) _ _ _ _ _ _ r(2,3) c(8) _ _ p(2) _ _ ref_host_sac_law])
      (simp_all add: c [simplified] r p [simplified] time_defs)
  with c show ?thesis unfolding s_def by simp
qed

section \<open>Early endings\<close>

lemma exact_release:
  assumes "pool_ledger_ok s" "st_claims s k = Some c" "live_status (cl_status c)"
    and "cl_streamed c \<le> cl_entitlement c"
  shows "saturating_sub_i128 (get_total_allocated s) (cl_entitlement c - cl_streamed c)
    = get_total_allocated s - reserve c"
proof -
  have "reserve c = cl_entitlement c - cl_streamed c"
    using assms(3,4) by (simp add: reserve_def)
  moreover have "reserve c \<le> get_total_allocated s" "in_i128 (get_total_allocated s)"
    using assms(1) reserve_le_allocated [of "ledger_of s" k c] assms(2) ledger_ok_range [of "ledger_of s"]
    by (simp_all add: pool_ledger_ok_def)
  ultimately show ?thesis
    using saturating_sub_i128_between [of "get_total_allocated s" "reserve c"] reserve_nonneg [of c]
    by simp
qed

text \<open>
  C30. Cancelling an active claim, which only the admin can, takes back what its activation did to the
  pool. The reserve goes down by the entitlement less what was collected: exactly the claim's reserve,
  unless an override had set the entitlement below what was already collected, when the reserve goes UP
  by the difference (saturating). The principal of the claim returns to \<open>total_staked\<close> and its wallet to
  \<open>total_stakers\<close>. The wallet's stake record, whatever it then holds, is no longer withdrawn nor bound to
  a claim, and is otherwise unchanged: it is active again exactly when it still holds an amount. And
  \<open>withdraw\<close> refuses it for 365 days. No token moves. (In a state that keeps the ledger invariant.)
\<close>

theorem cancellation_restores_and_locks:
  assumes "cancel_claim H e k s = Ok (u, s')" "pool_ledger_ok s"
    and "st_claims s k = Some c" "cl_status c = Active"
  shows "by_admin e s \<and> status_at (st_claims s') k = Some Cancelled \<and>
    get_total_allocated s'
      = (if cl_streamed c \<le> cl_entitlement c then get_total_allocated s - reserve c
         else min i128_max (get_total_allocated s + (cl_streamed c - cl_entitlement c))) \<and>
    get_total_staked s' = get_total_staked s + cl_stake c \<and>
    get_total_stakers s' = get_total_stakers s + 1 \<and> st_world s' = st_world s \<and>
    (\<exists>r r'. st_stakes s (cl_wallet c) = Some r \<and> st_stakes s' = (st_stakes s)(cl_wallet c \<mapsto> r') \<and>
       r' = r\<lparr>sr_withdrawn := False, sr_penalty_locked_until_ledger := e_seq e + PENALTY_LOCK_LEDGERS,
         sr_active_claim_id := None\<rparr> \<and>
       (active_stake r' \<longleftrightarrow> 0 < sr_amount r)) \<and>
    (\<forall>e' b. e_seq e' < e_seq e + PENALTY_LOCK_LEDGERS \<longrightarrow> \<not> is_ok (withdraw H e' (cl_wallet c) b s'))"
proof -
  from cancel_claim_Ok [OF assms(1)] assms(3) obtain admin r lu ev where
    a: "st_admin s = Some admin" "e_auth e admin" and r: "st_stakes s (cl_wallet c) = Some r"
    and s': "s' = (cancelled e k c r s)\<lparr>st_live_until := lu, st_events := ev\<rparr>"
    by auto
  let ?r = "r\<lparr>sr_withdrawn := False, sr_penalty_locked_until_ledger := e_seq e + PENALTY_LOCK_LEDGERS,
      sr_active_claim_id := None\<rparr>"
  have stakes: "st_stakes s' = (st_stakes s)(cl_wallet c \<mapsto> ?r)"
    using assms(4) by (simp add: s' cancelled_def released_def)
  have "\<not> is_ok (withdraw H e' (cl_wallet c) b s')" if "e_seq e' < e_seq e + PENALTY_LOCK_LEDGERS" for e' b
    using that stakes by (auto simp: is_ok_iff dest!: withdraw_Ok)
  moreover have live: "live_status (cl_status c)" using assms(4) by (simp add: live_status_def)
  have all: "get_total_allocated s'
      = saturating_sub_i128 (get_total_allocated s) (cl_entitlement c - cl_streamed c)"
    using assms(4) by (simp add: s' cancelled_def released_def get_total_allocated_def)
  have "get_total_allocated s'
      = (if cl_streamed c \<le> cl_entitlement c then get_total_allocated s - reserve c
         else min i128_max (get_total_allocated s + (cl_streamed c - cl_entitlement c)))"
  proof (cases "cl_streamed c \<le> cl_entitlement c")
    case True
    with exact_release [OF assms(2,3) live True] all show ?thesis by simp
  next
    case False
    moreover have "in_i128 (get_total_allocated s)"
      using assms(2) ledger_ok_range [of "ledger_of s"] by (simp add: pool_ledger_ok_def)
    ultimately show ?thesis
      by (simp add: all saturating_sub_i128_def in_i128_def min_def max_def)
  qed
  moreover have "active_stake ?r \<longleftrightarrow> 0 < sr_amount r" by (simp add: active_stake_def)
  ultimately show ?thesis
    using a r stakes assms(4)
    by (auto simp: by_admin_def s' cancelled_def released_def status_at_def get_total_staked_def
        get_total_stakers_def)
qed

lemma active_cancel_succeeds:
  assumes "st_admin s = Some admin" "e_auth e admin" "st_claims s k = Some c" "cl_status c = Active"
    and "st_stakes s (cl_wallet c) = Some r" "in_i128 (cl_entitlement c - cl_streamed c)"
    and "0 \<le> e_seq e + PENALTY_LOCK_LEDGERS" "e_seq e + PENALTY_LOCK_LEDGERS \<le> u32_max"
    and "in_i128 (get_total_staked s + cl_stake c)"
    and "0 \<le> get_total_stakers s + 1" "get_total_stakers s + 1 \<le> u32_max"
  shows "is_ok (cancel_claim H e k s)"
  using assms
  by (simp add: cancel_claim_def get_admin_def require_auth_def get_claim_def get_stake_def
      sub_i128_def add_i128_def add_u32_def checked_def Let_def get_total_staked_def
      get_total_stakers_def set_total_allocated_def)

definition cancellable_sample :: "mock_world state \<Rightarrow> bool" where
  "cancellable_sample s \<longleftrightarrow>
     st_admin s = Some 1 \<and> get_total_staked s = 10000 \<and> get_total_stakers s = 1 \<and>
     (case st_stakes s 11 of None \<Rightarrow> False | Some _ \<Rightarrow> True) \<and>
     claim_at [1, 11, 9] (\<lambda>c. cl_status c = Active \<and> cl_wallet c = 11 \<and> cl_stake c = 10000 \<and>
       cl_entitlement c = 4000 \<and> cl_streamed c = 0) s"

theorem cancellation_restores_and_locks_witness:
  "get_total_staked (state_of (cancel_claim ref_host (on_day 110 [1]) [1, 11, 9] (after active_run))) = 20000 \<and>
   \<not> is_ok (withdraw ref_host (on_day 474 [11]) 11 21
      (state_of (cancel_claim ref_host (on_day 110 [1]) [1, 11, 9] (after active_run))))"
proof -
  define s where "s = after active_run"
  have sample: "cancellable_sample s"
    unfolding s_def by code_simp
  then have "claim_at [1, 11, 9] (\<lambda>c. cl_status c = Active \<and> cl_wallet c = 11 \<and> cl_stake c = 10000 \<and>
       cl_entitlement c = 4000 \<and> cl_streamed c = 0) s"
    by (simp add: cancellable_sample_def)
  from claim_atD [OF this] obtain c where c: "st_claims s [1, 11, 9] = Some c" "cl_status c = Active"
    "cl_wallet c = 11" "cl_stake c = 10000" "cl_entitlement c = 4000" "cl_streamed c = 0"
    by blast
  have t: "st_admin s = Some 1" "get_total_staked s = 10000" "get_total_stakers s = 1"
    using sample by (simp_all add: cancellable_sample_def)
  obtain r where r: "st_stakes s 11 = Some r"
    using sample by (auto simp: cancellable_sample_def split: option.splits)
  have ok: "is_ok (cancel_claim ref_host (on_day 110 [1]) [1, 11, 9] s)"
    by (rule active_cancel_succeeds [where admin = 1 and c = c and r = r])
      (simp_all add: c r t time_defs in_i128_def i128_min_def i128_max_def u32_max_def)
  have inv: "pool_ledger_ok s"
    unfolding s_def
    by (rule reserves.in_every_reachable_state [OF after_reachable [OF active_run_ok active_run_envs]])
  have day: "e_seq (on_day 474 [11]) < e_seq (on_day 110 [1]) + PENALTY_LOCK_LEDGERS"
    by (simp add: time_defs)
  from cancellation_restores_and_locks [OF is_ok_result [OF ok] inv c(1,2)] day t c(3,4)
  show ?thesis unfolding s_def by simp
qed

lemma stale_age:
  "COLLECTION_INACTIVITY_LEDGERS < saturating_sub_u32 now since \<Longrightarrow> since + COLLECTION_INACTIVITY_LEDGERS < now"
  by (simp add: saturating_sub_u32_def time_defs max_def split: if_splits)

text \<open>
  C31. A sweep, which anyone may call, releases exactly what was not collected: a claim not approved
  within its 100-day window gives back its whole entitlement, an active claim left uncollected for
  more than 100 days after its cooldown or its last collection gives back the rest. Either way the
  claim has expired, the wallet is free for a new one, no stake changes and no token moves; while
  the staker is suspended neither sweep is possible.
\<close>

theorem sweeps_release_the_rest:
  assumes "expire_pending_approval H e k s = Ok (u, s') \<or> expire_stale_claim H e k s = Ok (u, s')"
    and "pool_ledger_ok s"
  shows "\<exists>c r. st_claims s k = Some c \<and> st_stakes s (cl_wallet c) = Some r \<and> \<not> sr_suspended r \<and>
      (cl_status c = AwaitingApproval \<and> cl_approve_deadline_ledger c < e_seq e \<or>
       cl_status c = Active \<and> cl_last_collected_ledger c + COLLECTION_INACTIVITY_LEDGERS < e_seq e) \<and>
      status_at (st_claims s') k = Some Expired \<and>
      get_total_allocated s' = get_total_allocated s - (cl_entitlement c - cl_streamed c) \<and>
      get_total_staked s' = get_total_staked s \<and> st_world s' = st_world s \<and>
      st_stakes s' = (st_stakes s)(cl_wallet c \<mapsto> r\<lparr>sr_active_claim_id := None\<rparr>)"
proof -
  have "\<exists>c r lu ev. st_claims s k = Some c \<and> st_stakes s (cl_wallet c) = Some r \<and> \<not> sr_suspended r \<and>
      (cl_status c = AwaitingApproval \<and> cl_approve_deadline_ledger c < e_seq e \<or>
       cl_status c = Active \<and> cl_last_collected_ledger c + COLLECTION_INACTIVITY_LEDGERS < e_seq e) \<and>
      cl_streamed c < cl_entitlement c \<and>
      s' = (released k c Expired r (cl_entitlement c - cl_streamed c) s)
        \<lparr>st_live_until := lu, st_events := ev\<rparr>"
    using assms(1)
  proof
    assume "expire_pending_approval H e k s = Ok (u, s')"
    from expire_pending_approval_Ok [OF this] obtain c r lu ev where
      g: "st_claims s k = Some c" "cl_status c = AwaitingApproval" "st_stakes s (cl_wallet c) = Some r"
        "\<not> sr_suspended r" "cl_approve_deadline_ledger c < e_seq e"
        "s' = (released k c Expired r (cl_entitlement c) s)\<lparr>st_live_until := lu, st_events := ev\<rparr>"
      by blast
    have "claim_ok c" using assms(2) g(1) by (auto simp: pool_ledger_ok_def intro: ledger_ok_claim)
    with g(2) have "cl_streamed c = 0" "0 < cl_entitlement c" by (simp_all add: claim_ok_def)
    with g show ?thesis by auto
  next
    assume "expire_stale_claim H e k s = Ok (u, s')"
    from expire_stale_claim_Ok [OF this] show ?thesis by (blast dest: stale_age)
  qed
  then obtain c r lu ev where
    g: "st_claims s k = Some c" "st_stakes s (cl_wallet c) = Some r" "\<not> sr_suspended r"
      "cl_status c = AwaitingApproval \<and> cl_approve_deadline_ledger c < e_seq e \<or>
       cl_status c = Active \<and> cl_last_collected_ledger c + COLLECTION_INACTIVITY_LEDGERS < e_seq e"
      "cl_streamed c < cl_entitlement c"
    and s': "s' = (released k c Expired r (cl_entitlement c - cl_streamed c) s)
      \<lparr>st_live_until := lu, st_events := ev\<rparr>"
    by blast
  from exact_release [OF assms(2) g(1)] g(4,5) have
    "saturating_sub_i128 (get_total_allocated s) (cl_entitlement c - cl_streamed c)
      = get_total_allocated s - (cl_entitlement c - cl_streamed c)"
    by (auto simp: live_status_def reserve_def)
  with g show ?thesis
    by (auto simp: s' released_def status_at_def get_total_allocated_def get_total_staked_def)
qed

theorem sweeps_release_the_rest_witness:
  "get_total_allocated (state_of (expire_stale_claim ref_host (on_day 209 []) [1, 11, 9] (after active_run))) = 0"
proof -
  have ok: "is_ok (expire_stale_claim ref_host (on_day 209 []) [1, 11, 9] (after active_run))"
    and c: "map_option (\<lambda>c. cl_entitlement c - cl_streamed c) (st_claims (after active_run) [1, 11, 9]) = Some 4000"
    and t: "get_total_allocated (after active_run) = 4000"
    by code_simp+
  have inv: "pool_ledger_ok (after active_run)"
    by (rule reserves.in_every_reachable_state [OF after_reachable [OF active_run_ok active_run_envs]])
  from sweeps_release_the_rest [OF disjI2 [OF is_ok_result [OF ok]] inv] c t show ?thesis by auto
qed

end
