(* ===== verification/Staking_Properties.thy ===== *)
theory Staking_Properties
  imports Access_Control
begin

text \<open>
  What makes \<^verbatim>\<open>stake.rs\<close> correct: the points formula against a day-by-day reference,
  the effect of each operation on the books and on the pool's token balance, and the balance of
  the books under every entry point.
\<close>

section \<open>Points\<close>

text \<open>The reference: what one day of staking earns.\<close>

definition daily_rate :: "nat \<Rightarrow> int" where
  "daily_rate day =
     (if day < 90 then 100 else if day < 180 then 120 else if day < 365 then 150 else 200)"

text \<open>
  C36. The banded formula of the source is the sum of the daily rates, for every number of days.
\<close>

theorem points_base_is_sum_of_days: "points_base (int n) = (\<Sum>day<n. daily_rate day)"
proof (induction n)
  case 0
  show ?case by (simp add: points_base_def)
next
  case (Suc n)
  have "points_base (int (Suc n)) = points_base (int n) + daily_rate n"
    by (auto simp: points_base_def daily_rate_def Let_def min_def)
  with Suc show ?case by simp
qed

lemma points_base_bounds: "0 \<le> d \<Longrightarrow> 0 \<le> points_base d \<and> points_base d \<le> 200 * d"
  by (auto simp: points_base_def Let_def min_def)

lemma staked_days_bounds:
  assumes "env_ok e" "0 \<le> sr_staked_at_ledger r"
  shows "0 \<le> staked_days e r" "staked_days e r \<le> u32_max"
proof -
  have le: "saturating_sub_u32 (e_seq e) (sr_staked_at_ledger r) \<le> u32_max"
    using assms by (auto simp: saturating_sub_u32_def env_ok_def u32_max_def)
  show "0 \<le> staked_days e r"
    by (simp add: staked_days_def LEDGERS_PER_DAY_def pos_imp_zdiv_nonneg_iff)
  show "staked_days e r \<le> u32_max"
    using le zdiv_mono2 [of "saturating_sub_u32 (e_seq e) (sr_staked_at_ledger r)" 1 17280]
    by (simp add: staked_days_def LEDGERS_PER_DAY_def)
qed

text \<open>The day count comes from a \<open>u32\<close>, so the base never leaves \<open>i128\<close>.\<close>

lemma points_base_in_range:
  assumes "env_ok e" "0 \<le> sr_staked_at_ledger r"
  shows "in_i128 (points_base (staked_days e r))"
  using staked_days_bounds [OF assms] points_base_bounds [of "staked_days e r"]
  by (simp add: in_i128_def i128_min_def i128_max_def u32_max_def)

lemma points_base_mono: "0 \<le> d \<Longrightarrow> d \<le> d' \<Longrightarrow> points_base d \<le> points_base d'"
  by (auto simp: points_base_def Let_def min_def)

text \<open>
  Points never decrease while a stake stays in place: at a later ledger the same record
  earns at least as much.
\<close>

theorem points_grow_with_time:
  assumes "compute_points_for_record e r s = Ok p" "compute_points_for_record e' r s = Ok p'"
    and "e_seq e \<le> e_seq e'"
  shows "0 \<le> p \<and> p \<le> p'"
proof (cases "active_stake r")
  case False
  with assms show ?thesis by (auto simp: compute_points_for_record_def active_stake_def)
next
  case True
  then have amt: "0 \<le> sr_amount r" by (simp add: active_stake_def)
  have d: "0 \<le> staked_days e r" "staked_days e r \<le> staked_days e' r"
    using assms(3)
    by (auto simp: staked_days_def LEDGERS_PER_DAY_def pos_imp_zdiv_nonneg_iff saturating_sub_u32_def
        intro!: zdiv_mono1)
  have le: "0 \<le> points_base (staked_days e r) * sr_amount r"
    "points_base (staked_days e r) * sr_amount r \<le> points_base (staked_days e' r) * sr_amount r"
    using amt points_base_bounds [OF d(1)] points_base_mono [OF d]
    by (auto intro: mult_nonneg_nonneg mult_right_mono)
  from assms(1) True obtain mx where mx: "max_stake s = Ok mx"
    by (auto simp: compute_points_for_record_def active_stake_def and_then_eq_Ok Let_def)
  show ?thesis
  proof (cases "mx \<le> 0")
    case True
    with assms \<open>active_stake r\<close> mx show ?thesis
      by (simp add: compute_points_for_record_def active_stake_def Let_def)
  next
    case pos: False
    have le': "0 \<le> points_base (staked_days e' r) * sr_amount r"
      using le by simp
    from pos have mpos: "0 < mx" by simp
    with assms \<open>active_stake r\<close> mx
    have "p = points_base (staked_days e r) * sr_amount r div mx"
      "p' = points_base (staked_days e' r) * sr_amount r div mx"
      using sdiv_nonneg_eq [OF le(1) mpos] sdiv_nonneg_eq [OF le' mpos]
      by (auto simp: compute_points_for_record_def active_stake_def Let_def mul_div_i128_eq_Ok)
    with le mpos show ?thesis
      by (simp add: zdiv_mono1 pos_imp_zdiv_nonneg_iff)
  qed
qed

theorem points_grow_with_time_witness:
  "\<exists>p p'. compute_points_for_record (on_day 50 [])
        (fresh_stake_record ref_host (on_day 1 []) 10000 21) (after staked_run) = Ok p \<and>
      compute_points_for_record (on_day 100 [])
        (fresh_stake_record ref_host (on_day 1 []) 10000 21) (after staked_run) = Ok p' \<and>
      0 \<le> p \<and> p \<le> p'"
proof -
  have p: "compute_points_for_record (on_day 50 [])
      (fresh_stake_record ref_host (on_day 1 []) 10000 21) (after staked_run) = Ok 3920"
    by code_simp
  have p': "compute_points_for_record (on_day 100 [])
      (fresh_stake_record ref_host (on_day 1 []) 10000 21) (after staked_run) = Ok 8064"
    by code_simp
  show ?thesis
    using p p' points_grow_with_time [OF p p'] by (simp add: time_defs)
qed

section \<open>The books\<close>

definition active_amount :: "stake_record \<Rightarrow> int" where
  "active_amount r = (if active_stake r then sr_amount r else 0)"

definition active_count :: "stake_record \<Rightarrow> int" where
  "active_count r = (if active_stake r then 1 else 0)"

definition books_balanced :: "'w state \<Rightarrow> bool" where
  "books_balanced s \<longleftrightarrow>
     finite (dom (st_stakes s)) \<and>
     get_total_staked s = sum_map active_amount (st_stakes s) \<and>
     get_total_stakers s = sum_map active_count (st_stakes s)"

text \<open>How the stakes and the two totals change: one record is replaced, and the totals follow.\<close>

lemma books_follow:
  assumes "books_balanced s" "st_stakes s' = (st_stakes s)(a \<mapsto> r')"
    and "get_total_staked s' = get_total_staked s - weight_at active_amount (st_stakes s) a + active_amount r'"
    and "get_total_stakers s' = get_total_stakers s - weight_at active_count (st_stakes s) a + active_count r'"
  shows "books_balanced s'"
  using assms by (simp add: books_balanced_def sum_map_upd)

lemma books_same:
  assumes "books_balanced s" "st_stakes s' = st_stakes s" "st_total_staked s' = st_total_staked s"
    "st_total_stakers s' = st_total_stakers s"
  shows "books_balanced s'"
  using assms by (simp add: books_balanced_def get_total_staked_def get_total_stakers_def)

lemma count_pos:
  assumes "books_balanced s" "st_stakes s a = Some r" "active_stake r"
  shows "1 \<le> get_total_stakers s"
  using assms weight_at_le_sum_map [of "st_stakes s" active_count a]
  by (simp add: books_balanced_def active_count_def)

lemma books_retouch:
  assumes "books_balanced s" "st_stakes s a = Some r" "st_stakes s' = (st_stakes s)(a \<mapsto> r')"
    and "active_stake r' = active_stake r" "sr_amount r' = sr_amount r"
    and "st_total_staked s' = st_total_staked s" "st_total_stakers s' = st_total_stakers s"
  shows "books_balanced s'"
  using assms(1,3)
  by (rule books_follow)
    (use assms in \<open>simp_all add: get_total_staked_def get_total_stakers_def active_amount_def
      active_count_def\<close>)

text \<open>Forfeiture and principal exit: an active record leaves both totals.\<close>

lemma books_leave:
  assumes "books_balanced s" "st_stakes s a = Some r" "active_stake r"
    and "st_stakes s' = (st_stakes s)(a \<mapsto> r')" "\<not> active_stake r'"
    and "st_total_staked s' = Some (get_total_staked s - sr_amount r)"
    and "st_total_stakers s' = Some (saturating_sub_u32 (get_total_stakers s) 1)"
  shows "books_balanced s'"
  using assms(1,4)
  by (rule books_follow)
    (use assms count_pos [OF assms(1-3)] in \<open>simp_all add: get_total_staked_def
      get_total_stakers_def active_amount_def active_count_def saturating_sub_u32_def\<close>)

text \<open>A new or restored record enters both totals.\<close>

lemma books_enter:
  assumes "books_balanced s" "\<forall>r. st_stakes s a = Some r \<longrightarrow> \<not> active_stake r"
    and "st_stakes s' = (st_stakes s)(a \<mapsto> r')" "active_stake r'"
    and "st_total_staked s' = Some (get_total_staked s + sr_amount r')"
    and "st_total_stakers s' = Some (get_total_stakers s + 1)"
  shows "books_balanced s'"
proof (rule books_follow [OF assms(1,3)])
  have "weight_at active_amount (st_stakes s) a = 0" "weight_at active_count (st_stakes s) a = 0"
    using assms(2) by (auto simp: weight_at_def active_amount_def active_count_def split: option.splits)
  then show "get_total_staked s' = get_total_staked s - weight_at active_amount (st_stakes s) a + active_amount r'"
    "get_total_stakers s' = get_total_stakers s - weight_at active_count (st_stakes s) a + active_count r'"
    using assms(4-6)
    by (simp_all add: get_total_staked_def get_total_stakers_def active_amount_def active_count_def)
qed

lemma stake_keeps_books:
  assumes "stake H e staker amount b s = Ok (u, s')" "books_balanced s"
  shows "books_balanced s'"
  using stake_Ok [OF assms(1)] assms(2)
  by (auto simp: fresh_stake_record_def active_stake_def
      intro!: books_enter [where a = staker and r' = "fresh_stake_record H e amount b" and s = s])

lemma withdraw_keeps_books:
  assumes "withdraw H e staker b s = Ok (u, s')" "books_balanced s"
  shows "books_balanced s'"
  using withdraw_Ok [OF assms(1)] assms(2)
  by (auto simp: exited_def active_stake_def intro!: books_leave [where a = staker and s = s])

lemma emergency_exit_keeps_books:
  assumes "emergency_exit H e staker s = Ok (u, s')" "books_balanced s"
  shows "books_balanced s'"
  using emergency_exit_Ok [OF assms(1)] assms(2)
  by (auto simp: exited_def active_stake_def intro!: books_leave [where a = staker and s = s])

text \<open>The calls that rewrite a record without entering or leaving the books.\<close>

lemma record_calls_keep_books:
  "set_beneficiary H e st b s = Ok (u, s') \<Longrightarrow> books_balanced s \<Longrightarrow> books_balanced s'"
  "suspend_stake H e a s = Ok (u, s') \<Longrightarrow> books_balanced s \<Longrightarrow> books_balanced s'"
  "unsuspend_stake H e a k s = Ok (u, s') \<Longrightarrow> books_balanced s \<Longrightarrow> books_balanced s'"
  by (auto dest!: set_beneficiary_Ok suspend_stake_Ok unsuspend_stake_Ok
      elim!: books_retouch simp: active_stake_def)

lemma submit_claim_keeps_books:
  assumes "submit_claim H e cl wallet tx ent tier hack dl sig s = Ok (k, s')" "books_balanced s"
  shows "books_balanced s'"
  using submit_claim_Ok [OF assms(1)]
proof (elim exE conjE)
  fix r blocked orc lu ev
  assume chk: "submit_checks H e cl wallet tx ent tier hack dl sig s = Ok r"
    and s': "if blocked
      then s' = (queued k (new_claim wallet tx hack ent (sr_amount r) tier Reserved) r s)
        \<lparr>st_live_until := lu, st_events := ev\<rparr>
      else s' = (admitted e k (admitted_claim e wallet tx ent tier hack r) r (if cl = orc then 1 else 0) s)
        \<lparr>st_live_until := lu, st_events := ev\<rparr>"
  from submit_checks_Ok [OF chk] have "st_stakes s wallet = Some r" by blast
  with assms(2) show ?thesis
    by (rule books_retouch [where r' = "if blocked then r\<lparr>sr_reserved_claim_id := Some k\<rparr>
        else r\<lparr>sr_active_claim_id := Some k, sr_reserved_claim_id := None\<rparr>"])
      (use s' in \<open>simp_all add: queued_def admitted_def active_stake_def split: if_splits\<close>)
qed

lemma queue_calls_keep_books:
  "try_release_queued_claim H e k s = Ok (u, s') \<Longrightarrow> books_balanced s \<Longrightarrow> books_balanced s'"
  "expire_queued_claim H e k s = Ok (u, s') \<Longrightarrow> books_balanced s \<Longrightarrow> books_balanced s'"
  by (auto dest!: try_release_queued_claim_Ok expire_queued_claim_Ok
      elim!: books_retouch simp: active_stake_def admitted_def)

lemma expiry_keeps_books:
  "expire_pending_approval H e k s = Ok (u, s') \<Longrightarrow> books_balanced s \<Longrightarrow> books_balanced s'"
  "expire_stale_claim H e k s = Ok (u, s') \<Longrightarrow> books_balanced s \<Longrightarrow> books_balanced s'"
  by (auto dest!: expire_pending_approval_Ok expire_stale_claim_Ok
      elim!: books_retouch simp: active_stake_def released_def)

text \<open>
  The calls whose books depend on the stake they meet: an approval must find the stake still
  active, and the cancellation of an active claim must find the forfeited record it restores.
\<close>

definition books_safe :: "pool_call \<Rightarrow> 'w state \<Rightarrow> bool" where
  "books_safe call s \<longleftrightarrow>
     (case call of
        ApproveClaim k \<Rightarrow>
          (\<forall>c r. st_claims s k = Some c \<longrightarrow> st_stakes s (cl_wallet c) = Some r \<longrightarrow> active_stake r)
      | CancelClaim k \<Rightarrow>
          (\<forall>c r. st_claims s k = Some c \<longrightarrow> cl_status c = Active \<longrightarrow>
             st_stakes s (cl_wallet c) = Some r \<longrightarrow>
             sr_withdrawn r \<and> 0 < sr_amount r \<and> sr_amount r = cl_stake c)
      | _ \<Rightarrow> True)"

lemma approve_claim_keeps_books:
  assumes "approve_claim H e k s = Ok (u, s')" "books_safe (ApproveClaim k) s" "books_balanced s"
  shows "books_balanced s'"
  using approve_claim_Ok [OF assms(1)] assms(2,3)
  by (auto simp: activated_def forfeited_def active_stake_def books_safe_def
      intro!: books_leave [where s = s])

lemma cancel_claim_keeps_books:
  assumes "cancel_claim H e k s = Ok (u, s')" "books_safe (CancelClaim k) s" "books_balanced s"
  shows "books_balanced s'"
proof -
  from cancel_claim_Ok [OF assms(1)] obtain c r lu ev where c: "st_claims s k = Some c"
    and r: "st_stakes s (cl_wallet c) = Some r"
    and s': "s' = (cancelled e k c r s)\<lparr>st_live_until := lu, st_events := ev\<rparr>"
    by blast
  show ?thesis
  proof (cases "cl_status c = Active")
    case True
    with assms(2) c r have "sr_withdrawn r" "0 < sr_amount r" "sr_amount r = cl_stake c"
      by (auto simp: books_safe_def)
    with True assms(3) r s' show ?thesis
      by (auto simp: cancelled_def released_def active_stake_def intro!: books_enter [where s = s])
  next
    case False
    with assms(3) r s' show ?thesis
      by (auto simp: cancelled_def released_def active_stake_def elim!: books_retouch)
  qed
qed

lemma execute_override_keeps_books:
  assumes "execute_override H e k req s = Ok s'" "books_balanced s"
  shows "books_balanced s'"
proof -
  from execute_override_Ok [OF assms(1)] obtain r lu ev where
    r: "st_stakes s (ov_wallet req) = Some r" "0 < sr_amount r"
    and s': "s' = (overridden e k req r s)\<lparr>st_live_until := lu, st_events := ev\<rparr>"
    by blast
  show ?thesis
  proof (cases "sr_withdrawn r")
    case True
    with assms(2) r s' show ?thesis
      by (auto simp: overridden_def active_stake_def elim!: books_retouch)
  next
    case False
    with assms(2) r s' show ?thesis
      by (auto simp: overridden_def forfeited_def active_stake_def intro!: books_leave [where s = s])
  qed
qed

lemma approve_override_keeps_books:
  assumes "approve_override H e cl wallet tx ent tier s = Ok (u, s')" "books_balanced s"
  shows "books_balanced s'"
proof -
  have rem: "books_balanced (remove_override k t) \<longleftrightarrow> books_balanced t"
    "books_balanced (t\<lparr>st_overrides := m, st_live_until := lu\<rparr>) \<longleftrightarrow> books_balanced t"
    for k m lu and t :: "'a state"
    by (simp_all add: books_balanced_def remove_override_def get_total_staked_def
        get_total_stakers_def)
  show ?thesis
    using approve_override_Ok [OF assms(1)] assms(2) execute_override_keeps_books
    by (auto simp: rem)
qed

text \<open>A redemption leaves the stakes alone and can only write a loss off \<open>total_staked\<close>.\<close>

lemma redeem_calls_books:
  "provide_liquidity H e sh mn s = Ok (x, s') \<Longrightarrow>
     st_stakes s' = st_stakes s \<and> st_total_stakers s' = st_total_stakers s"
  "ensure_liquidity H e s = Ok (x, s') \<Longrightarrow>
     st_stakes s' = st_stakes s \<and> st_total_stakers s' = st_total_stakers s"
  "extract_yield H e sh mn s = Ok (x, s') \<Longrightarrow>
     st_stakes s' = st_stakes s \<and> st_total_stakers s' = st_total_stakers s"
  by (auto dest!: provide_liquidity_Ok ensure_liquidity_Ok extract_yield_Ok simp: after_redeem_def)

definition redeems :: "pool_call \<Rightarrow> bool" where
  "redeems c \<longleftrightarrow>
     (case c of ProvideLiquidity _ _ \<Rightarrow> True | EnsureLiquidity \<Rightarrow> True | ExtractYield _ _ \<Rightarrow> True
      | _ \<Rightarrow> False)"

lemma quiet_calls_keep_books:
  "unlock_pending_claim H e k s = Ok (u, s') \<Longrightarrow> books_balanced s \<Longrightarrow> books_balanced s'"
  "claim_stream H e k b s = Ok (x, s') \<Longrightarrow> books_balanced s \<Longrightarrow> books_balanced s'"
  "cancel_pending_override H e cl wallet tx s = Ok (u, s') \<Longrightarrow> books_balanced s \<Longrightarrow> books_balanced s'"
  "revoke_approval H e cl wallet tx ent tier hack dl s = Ok (u, s') \<Longrightarrow> books_balanced s \<Longrightarrow>
     books_balanced s'"
  "deploy_to_vault H e a mn s = Ok (x, s') \<Longrightarrow> books_balanced s \<Longrightarrow> books_balanced s'"
  "auto_deploy_liquidity H e s = Ok (x, s') \<Longrightarrow> books_balanced s \<Longrightarrow> books_balanced s'"
  "withdraw_yield H e a s = Ok (u, s') \<Longrightarrow> books_balanced s \<Longrightarrow> books_balanced s'"
  by (auto dest!: unlock_pending_claim_Ok claim_stream_Ok cancel_pending_override_Ok
      revoke_approval_Ok deploy_to_vault_Ok auto_deploy_liquidity_Ok withdraw_yield_Ok
      elim!: books_same simp: streamed_to_def)

lemma admin_calls_keep_books:
  assumes "exec H e c s = Ok (r, s')" "reconfigures c" "books_balanced s"
  shows "books_balanced s'"
  using assms
  by (cases c)
    (auto simp: returns_eq_Ok reconfigures_def elim!: books_same
      dest!: transfer_admin_Ok pause_Ok unpause_Ok set_pool_cap_Ok set_oracle_Ok
        set_oracle_pubkey_Ok set_oracle_identity_Ok set_co_signer_Ok set_vault_Ok
        set_treasury_Ok set_deploy_bps_Ok)

lemmas keep_books =
  stake_keeps_books withdraw_keeps_books emergency_exit_keeps_books record_calls_keep_books
  submit_claim_keeps_books queue_calls_keep_books expiry_keeps_books approve_claim_keeps_books
  cancel_claim_keeps_books approve_override_keeps_books quiet_calls_keep_books

text \<open>
  C2. The books stay balanced: after any entry point, \<open>total_staked\<close> is the sum of the active
  stakes and \<open>total_stakers\<close> their number, provided an approval finds its stake active, a
  cancellation finds the record it restores, and a redemption wrote no loss off.
\<close>

theorem books_stay_balanced:
  assumes "exec H e c s = Ok (r, s')" "books_balanced s" "books_safe c s"
    and "redeems c \<longrightarrow> st_total_staked s' = st_total_staked s"
  shows "books_balanced s'"
proof (cases "reconfigures c")
  case True
  with assms show ?thesis by (blast intro: admin_calls_keep_books)
next
  case rc: False
  show ?thesis
  proof (cases "redeems c")
    case True
    with assms(1) have "st_stakes s' = st_stakes s \<and> st_total_stakers s' = st_total_stakers s"
      by (cases c) (auto simp: redeems_def returns_eq_Ok dest: redeem_calls_books)
    with assms(2,4) True show ?thesis by (auto intro: books_same)
  next
    case False
    with assms(1-3) rc show ?thesis
      by (cases c) (auto simp: reconfigures_def redeems_def returns_eq_Ok dest: keep_books)
  qed
qed

lemma sample_books: "books_balanced (state_of deployment)"
proof -
  have "is_ok deployment" by (rule deployment_ok)
  then show ?thesis
    using initialize_Ok [OF is_ok_result [OF deployment_ok, unfolded deployment_def]]
    by (auto simp: books_balanced_def deployment_def empty_state_def get_total_staked_def
        get_total_stakers_def)
qed

theorem books_stay_balanced_witness:
  "books_balanced (state_of (exec ref_host (on_day 1 [11]) (Stake 11 10000 21) (state_of deployment)))"
proof -
  have ok: "is_ok (exec ref_host (on_day 1 [11]) (Stake 11 10000 21) (state_of deployment))"
    by code_simp
  show ?thesis
    by (rule books_stay_balanced [OF is_ok_result [OF ok] sample_books])
      (simp_all add: books_safe_def redeems_def)
qed

section \<open>What each operation does for its caller\<close>

text \<open>
  C33. A successful \<open>stake\<close> took the amount from the staker's tokens into the pool and from nobody
  else's (for a token that keeps \<open>sac_law\<close>, the staker not being the pool itself), within the bounds
  of the pool cap, and wrote a fresh record that commits to the beneficiary; no other record changed.
\<close>

theorem stake_takes_principal:
  assumes "stake H e staker amount b s = Ok (u, s')" "sac_law H" "staker \<noteq> h_self H"
  shows "\<exists>cap. st_pool_cap s = Some cap \<and> cap * 2 sdiv 10000 \<le> amount \<and>
      amount \<le> cap * 125 sdiv 10000 \<and> get_total_staked s + amount \<le> cap \<and>
      st_stakes s' staker = Some (fresh_stake_record H e amount b) \<and>
      (\<forall>a. a \<noteq> staker \<longrightarrow> st_stakes s' a = st_stakes s a) \<and>
      get_total_staked s' = get_total_staked s + amount \<and>
      transferred H staker (h_self H) amount s s'"
proof -
  from stake_Ok [OF assms(1)] obtain token cap w lu ev where
    g: "st_pool_cap s = Some cap" "cap * 2 sdiv 10000 \<le> amount" "amount \<le> cap * 125 sdiv 10000"
      "get_total_staked s + amount \<le> cap" and t: "st_xlm_token s = Some token"
    and w: "h_token_transfer H (st_world s) token staker (h_self H) amount = Some w"
    and s': "s' = s\<lparr>st_stakes := (st_stakes s)(staker \<mapsto> fresh_stake_record H e amount b),
            st_total_staked := Some (get_total_staked s + amount),
            st_total_stakers := Some (get_total_stakers s + 1),
            st_live_until := lu, st_events := ev, st_world := w\<rparr>"
    by blast
  have "transferred H staker (h_self H) amount s s'"
    by (rule transfer_moves [OF assms(2,3) w t]) (simp_all add: s')
  with g show ?thesis by (simp add: s' get_total_staked_def)
qed

theorem stake_takes_principal_witness:
  "transferred ref_host 11 100 10000 (state_of deployment)
     (state_of (stake ref_host (on_day 1 [11]) 11 10000 21 (state_of deployment)))"
proof -
  have ok: "is_ok (stake ref_host (on_day 1 [11]) 11 10000 21 (state_of deployment))"
    by code_simp
  show ?thesis
    using stake_takes_principal [OF is_ok_result [OF ok] ref_host_sac_law] by auto
qed

text \<open>
  C11. \<open>withdraw\<close> pays the whole principal out of the pool to the committed beneficiary, and changes
  nobody else's holding (for a token that keeps \<open>sac_law\<close>, the beneficiary not being the pool itself);
  only when no claim is active and the penalty lock has run out; and it empties the record, so no later \<open>withdraw\<close> or \<open>emergency_exit\<close> of the same stake can succeed.
\<close>

theorem withdraw_pays_beneficiary_once:
  assumes "withdraw H e staker b s = Ok (u, s')" "sac_law H" "b \<noteq> h_self H"
  shows "\<exists>r. st_stakes s staker = Some r \<and> active_stake r \<and> sr_active_claim_id r = None \<and>
      sr_penalty_locked_until_ledger r \<le> e_seq e \<and> address_hash H b = sr_beneficiary_hash r \<and>
      transferred H (h_self H) b (sr_amount r) s s' \<and>
      (\<forall>e' b'. \<not> is_ok (withdraw H e' staker b' s')) \<and>
      (\<forall>e'. \<not> is_ok (emergency_exit H e' staker s'))"
proof -
  from withdraw_Ok [OF assms(1)] obtain r token w points lu ev where
    g: "st_stakes s staker = Some r" "active_stake r" "sr_active_claim_id r = None"
      "sr_penalty_locked_until_ledger r \<le> e_seq e" "address_hash H b = sr_beneficiary_hash r"
    and t: "st_xlm_token s = Some token"
    and w: "h_token_transfer H (st_world s) token (h_self H) b (sr_amount r) = Some w"
    and s': "s' = (exited staker r s)\<lparr>st_points := banked staker points (st_points s),
      st_live_until := lu, st_events := ev, st_world := w\<rparr>"
    by blast
  have "transferred H (h_self H) b (sr_amount r) s s'"
    by (rule transfer_moves [OF assms(2) assms(3) [symmetric] w t]) (simp_all add: s' exited_def)
  moreover have "st_stakes s' staker = Some (r\<lparr>sr_withdrawn := True, sr_amount := 0\<rparr>)"
    by (simp add: s' exited_def)
  then have "\<not> is_ok (withdraw H e' staker b' s')" "\<not> is_ok (emergency_exit H e' staker s')"
    for e' b'
    by (auto simp: is_ok_iff active_stake_def dest!: withdraw_Ok emergency_exit_Ok)
  ultimately show ?thesis using g by auto
qed

theorem withdraw_pays_beneficiary_once_witness:
  "transferred ref_host 100 21 10000 (after staked_run)
     (state_of (withdraw ref_host (on_day 5 [11]) 11 21 (after staked_run))) \<and>
   \<not> is_ok (emergency_exit ref_host (on_day 6 [11]) 11
          (state_of (withdraw ref_host (on_day 5 [11]) 11 21 (after staked_run))))"
proof -
  have ok: "is_ok (withdraw ref_host (on_day 5 [11]) 11 21 (after staked_run))"
    and r: "map_option sr_amount (st_stakes (after staked_run) 11) = Some 10000"
    by code_simp+
  from withdraw_pays_beneficiary_once [OF is_ok_result [OF ok] ref_host_sac_law] r show ?thesis
    by auto
qed


text \<open>
  C34. Staking and withdrawing again is a round trip: the two totals are back where they were, and over
  the two calls together the whole amount has gone from the staker to the beneficiary, who is the one
  the stake committed to; the pool keeps none of it and nobody else's holding has changed. (The token
  keeps \<open>sac_law\<close>, neither party is the pool itself, and the count of stakers, a \<open>u32\<close>, is not negative.)
\<close>

theorem stake_withdraw_roundtrip:
  assumes "stake H e staker amount b s = Ok (u, s1)" "withdraw H e' staker b' s1 = Ok (v, s2)"
    and "sac_law H" "staker \<noteq> h_self H" "b' \<noteq> h_self H" "0 \<le> get_total_stakers s"
  shows "address_hash H b' = address_hash H b \<and> get_total_staked s2 = get_total_staked s \<and>
    get_total_stakers s2 = get_total_stakers s \<and> transferred H staker b' amount s s2"
proof -
  from stake_Ok [OF assms(1)] obtain token w lu ev where t: "st_xlm_token s = Some token"
    and w: "h_token_transfer H (st_world s) token staker (h_self H) amount = Some w"
    and s1: "s1 = s\<lparr>st_stakes := (st_stakes s)(staker \<mapsto> fresh_stake_record H e amount b),
            st_total_staked := Some (get_total_staked s + amount),
            st_total_stakers := Some (get_total_stakers s + 1),
            st_live_until := lu, st_events := ev, st_world := w\<rparr>"
    by blast
  have r: "st_stakes s1 staker = Some (fresh_stake_record H e amount b)" "st_xlm_token s1 = Some token"
    using t by (simp_all add: s1)
  from withdraw_Ok [OF assms(2)] r obtain w' points lu ev where
    h: "address_hash H b' = address_hash H b"
    and w': "h_token_transfer H (st_world s1) token (h_self H) b' amount = Some w'"
    and s2: "s2 = (exited staker (fresh_stake_record H e amount b) s1)
      \<lparr>st_points := banked staker points (st_points s1), st_live_until := lu, st_events := ev, st_world := w'\<rparr>"
    by (auto simp: fresh_stake_record_def)
  have "transferred H staker (h_self H) amount s s1"
    by (rule transfer_moves [OF assms(3,4) w t]) (simp_all add: s1)
  moreover have "transferred H (h_self H) b' amount s1 s2"
    by (rule transfer_moves [OF assms(3) assms(5) [symmetric] w' r(2)]) (simp_all add: s2 exited_def)
  ultimately have "transferred H staker b' amount s s2"
    using assms(4,5) by (blast intro: transferred_trans)
  with h assms(6) show ?thesis
    by (simp add: s1 s2 exited_def get_total_staked_def get_total_stakers_def fresh_stake_record_def
        saturating_sub_u32_def)
qed

theorem stake_withdraw_roundtrip_witness:
  "transferred ref_host 11 21 10000 (state_of deployment)
     (state_of (withdraw ref_host (on_day 9 [11]) 11 21
       (state_of (stake ref_host (on_day 1 [11]) 11 10000 21 (state_of deployment)))))"
proof -
  have ok: "is_ok (stake ref_host (on_day 1 [11]) 11 10000 21 (state_of deployment))"
    by code_simp
  have ok2: "is_ok (withdraw ref_host (on_day 9 [11]) 11 21
      (state_of (stake ref_host (on_day 1 [11]) 11 10000 21 (state_of deployment))))"
    by code_simp
  have n: "0 \<le> get_total_stakers (state_of deployment)" by code_simp
  show ?thesis
    using stake_withdraw_roundtrip [OF is_ok_result [OF ok] is_ok_result [OF ok2] ref_host_sac_law _ _ n]
    by simp
qed

end
