(* ===== verification/Stake_Custody.thy ===== *)
theory Stake_Custody
  imports Access_Control
begin

text \<open>
  Who can do what to somebody else's stake. A call that the staker has not signed leaves the terms of
  the stake as they are; what the admin, the oracle, the co-signer and everybody else can change
  about the record is listed, field by field. The claim handlers that anyone may call only
  move the record's claim links.
\<close>

section \<open>What a call without the staker's signature keeps\<close>

text \<open>The terms of a stake: its amount, the committed beneficiary, and when it was made.\<close>

definition stake_terms :: "stake_record \<Rightarrow> int \<times> bytes \<times> int \<times> int" where
  "stake_terms r =
     (sr_amount r, sr_beneficiary_hash r, sr_staked_at_ledger r, sr_staked_at_timestamp r)"

definition by_a_signer :: "env \<Rightarrow> 'w state \<Rightarrow> bool" where
  "by_a_signer e s \<longleftrightarrow> by_admin e s \<or> (\<exists>cos. st_co_signer s = Some cos \<and> e_auth e cos)"

definition kept :: "env \<Rightarrow> 'w state \<Rightarrow> stake_record \<Rightarrow> stake_record \<Rightarrow> bool" where
  "kept e s r r' \<longleftrightarrow>
     stake_terms r' = stake_terms r \<and>
     (sr_suspended r' \<noteq> sr_suspended r \<longrightarrow> by_admin e s) \<and>
     (sr_penalty_locked_until_ledger r' \<noteq> sr_penalty_locked_until_ledger r \<longrightarrow> by_admin e s) \<and>
     (sr_withdrawn r' \<noteq> sr_withdrawn r \<longrightarrow> by_a_signer e s)"

definition in_custody :: "env \<Rightarrow> address \<Rightarrow> 'w state \<Rightarrow> 'w state \<Rightarrow> bool" where
  "in_custody e w s s' \<longleftrightarrow>
     (case st_stakes s w of
        None \<Rightarrow> st_stakes s' w = None
      | Some r \<Rightarrow> (case st_stakes s' w of None \<Rightarrow> False | Some r' \<Rightarrow> kept e s r r')) \<and>
     (get_points_balance s' w \<noteq> get_points_balance s w \<longrightarrow> by_a_signer e s)"

lemma kept_refl [simp]: "kept e s r r"
  by (simp add: kept_def)

lemma untouched:
  assumes "st_stakes s' w = st_stakes s w" "st_points s' w = st_points s w"
  shows "in_custody e w s s'"
  using assms by (simp add: in_custody_def get_points_balance_def split: option.splits)

lemma updated:
  assumes "st_stakes s x = Some r" "st_stakes s' = (st_stakes s)(x \<mapsto> r')" "kept e s r r'"
    and "st_points s' = st_points s"
  shows "in_custody e w s s'"
  using assms by (simp add: in_custody_def get_points_balance_def split: option.splits)

section \<open>The entry points\<close>

lemma owner_calls:
  "stake H e x amount b s = Ok (u, s') \<Longrightarrow> \<not> e_auth e w \<Longrightarrow> in_custody e w s s'"
  "set_beneficiary H e x b s = Ok (u, s') \<Longrightarrow> \<not> e_auth e w \<Longrightarrow> in_custody e w s s'"
  "withdraw H e x b s = Ok (u, s') \<Longrightarrow> \<not> e_auth e w \<Longrightarrow> in_custody e w s s'"
  "emergency_exit H e x s = Ok (u, s') \<Longrightarrow> \<not> e_auth e w \<Longrightarrow> in_custody e w s s'"
  "approve_claim H e k s = Ok (u, s') \<Longrightarrow> \<not> e_auth e w \<Longrightarrow> in_custody e w s s'"
  "claim_stream H e k b s = Ok (n, s') \<Longrightarrow> \<not> e_auth e w \<Longrightarrow> in_custody e w s s'"
  by (auto dest!: stake_Ok set_beneficiary_Ok withdraw_Ok emergency_exit_Ok approve_claim_Ok
      claim_stream_Ok simp: exited_def banked_def activated_def forfeited_def streamed_to_def
      intro!: untouched)

lemma admin_calls:
  "suspend_stake H e x s = Ok (u, s') \<Longrightarrow> in_custody e w s s'"
  "unsuspend_stake H e x cid s = Ok (u, s') \<Longrightarrow> in_custody e w s s'"
  "cancel_claim H e k s = Ok (u, s') \<Longrightarrow> in_custody e w s s'"
  by (auto dest!: suspend_stake_Ok unsuspend_stake_Ok cancel_claim_Ok
      simp: cancelled_def released_def kept_def stake_terms_def by_admin_def by_a_signer_def
      intro!: updated)

lemma release_custody:
  assumes "try_release_queued_claim H e k s = Ok (u, s')"
  shows "in_custody e w s s'"
  using try_release_queued_claim_Ok [OF assms]
proof (elim exE conjE)
  fix c r lu ev
  assume r: "st_stakes s (cl_wallet c) = Some r"
    and s': "s' = (admitted e k (admitted_claim e (cl_wallet c) (cl_tx_hash c) (cl_entitlement c)
        (cl_tier c) (cl_hack_timestamp c) r) r 0 s)\<lparr>st_live_until := lu, st_events := ev\<rparr>"
  show ?thesis
    by (rule updated [OF r, of s' "r\<lparr>sr_active_claim_id := Some k, sr_reserved_claim_id := None\<rparr>"])
      (simp_all add: s' admitted_def kept_def stake_terms_def)
qed

lemma released_custody:
  assumes "st_stakes s (cl_wallet c) = Some r"
    and "s' = (released k c status r amount s)\<lparr>st_live_until := lu, st_events := ev\<rparr>"
  shows "in_custody e w s s'"
  by (rule updated [OF assms(1), of s' "r\<lparr>sr_active_claim_id := None\<rparr>"])
    (simp_all add: assms(2) released_def kept_def stake_terms_def)

lemma sweep_custody:
  "expire_pending_approval H e k s = Ok (u, s') \<Longrightarrow> in_custody e w s s'"
  "expire_stale_claim H e k s = Ok (u, s') \<Longrightarrow> in_custody e w s s'"
  by (blast dest: expire_pending_approval_Ok expire_stale_claim_Ok intro: released_custody)+

lemma queue_expiry_custody:
  assumes "expire_queued_claim H e k s = Ok (u, s')"
  shows "in_custody e w s s'"
proof -
  from expire_queued_claim_Ok [OF assms] obtain c r lu ev where
    r: "st_stakes s (cl_wallet c) = Some r"
    and s': "s' = s\<lparr>st_stakes := (st_stakes s)(cl_wallet c \<mapsto> r\<lparr>sr_reserved_claim_id := None\<rparr>),
      st_claims := (st_claims s)(k \<mapsto> c\<lparr>cl_status := Expired\<rparr>), st_live_until := lu, st_events := ev\<rparr>"
    by blast
  show ?thesis
    by (rule updated [OF r, of s' "r\<lparr>sr_reserved_claim_id := None\<rparr>"])
      (simp_all add: s' kept_def stake_terms_def)
qed

lemma submission_custody:
  assumes "submit_claim H e cl wallet tx ent tier hack dl sig s = Ok (k, s')"
  shows "in_custody e w s s'"
  using submit_claim_Ok [OF assms]
proof (elim exE conjE)
  fix r blocked orc lu ev
  assume chk: "submit_checks H e cl wallet tx ent tier hack dl sig s = Ok r"
    and s': "if blocked
      then s' = (queued k (new_claim wallet tx hack ent (sr_amount r) tier Reserved) r s)
        \<lparr>st_live_until := lu, st_events := ev\<rparr>
      else s' = (admitted e k (admitted_claim e wallet tx ent tier hack r) r
          (if cl = orc then 1 else 0) s)\<lparr>st_live_until := lu, st_events := ev\<rparr>"
  from submit_checks_Ok [OF chk] have r: "st_stakes s wallet = Some r" by blast
  show ?thesis
    by (rule updated [OF r, of s' "if blocked then r\<lparr>sr_reserved_claim_id := Some k\<rparr>
          else r\<lparr>sr_active_claim_id := Some k, sr_reserved_claim_id := None\<rparr>"])
      (use s' in \<open>auto simp: queued_def admitted_def kept_def stake_terms_def split: if_splits\<close>)
qed

lemma vault_calls:
  "deploy_to_vault H e a mn s = Ok (n, s') \<Longrightarrow> in_custody e w s s'"
  "auto_deploy_liquidity H e s = Ok (n, s') \<Longrightarrow> in_custody e w s s'"
  "provide_liquidity H e sh mn s = Ok (n, s') \<Longrightarrow> in_custody e w s s'"
  "ensure_liquidity H e s = Ok (n, s') \<Longrightarrow> in_custody e w s s'"
  "extract_yield H e sh mn s = Ok (n, s') \<Longrightarrow> in_custody e w s s'"
  "withdraw_yield H e a s = Ok (u, s') \<Longrightarrow> in_custody e w s s'"
  by (auto dest!: deploy_to_vault_Ok auto_deploy_liquidity_Ok provide_liquidity_Ok
      ensure_liquidity_Ok extract_yield_Ok withdraw_yield_Ok simp: after_redeem_def intro!: untouched)

lemma recordless_calls:
  "unlock_pending_claim H e k s = Ok (u, s') \<Longrightarrow> in_custody e w s s'"
  "cancel_pending_override H e cl wallet tx s = Ok (u, s') \<Longrightarrow> in_custody e w s s'"
  "revoke_approval H e cl wallet tx ent tier hack dl s = Ok (u, s') \<Longrightarrow> in_custody e w s s'"
  by (auto dest!: unlock_pending_claim_Ok cancel_pending_override_Ok revoke_approval_Ok
      intro!: untouched)

text \<open>An override burns the wallet's points and forfeits its stake, on the signers' word alone.\<close>

lemma override_custody:
  assumes "approve_override H e cl wallet tx ent tier s = Ok (u, s')"
  shows "in_custody e w s s'"
proof -
  from approve_override_Ok [OF assms] have signed: "by_a_signer e s"
    by (auto simp: by_a_signer_def by_admin_def)
  from approve_override_Ok [OF assms] consider
    (executed) k req s1 where "execute_override H e k req s = Ok s1" "s' = remove_override k s1"
  | (recorded) ovs lu where "s' = s\<lparr>st_overrides := ovs, st_live_until := lu\<rparr>"
    by blast
  then show ?thesis
  proof cases
    case executed
    from execute_override_Ok [OF executed(1)] obtain r lu ev where
      r: "st_stakes s (ov_wallet req) = Some r"
      and s1: "s1 = (overridden e k req r s)\<lparr>st_live_until := lu, st_events := ev\<rparr>"
      by blast
    have "st_stakes s' = (st_stakes s)(ov_wallet req \<mapsto> override_record k r)"
      by (simp add: executed(2) s1 overridden_def remove_override_def)
    with r signed show ?thesis
      by (auto simp: in_custody_def kept_def override_record_def stake_terms_def split: option.splits)
  qed (auto intro: untouched)
qed

lemma configuration_custody:
  assumes "exec H e c s = Ok (r, s')" "reconfigures c"
  shows "in_custody e w s s'"
  using assms
  by (cases c)
    (auto simp: returns_eq_Ok reconfigures_def intro!: untouched
      dest!: transfer_admin_Ok pause_Ok unpause_Ok set_pool_cap_Ok set_oracle_Ok
        set_oracle_pubkey_Ok set_oracle_identity_Ok set_co_signer_Ok set_vault_Ok
        set_treasury_Ok set_deploy_bps_Ok)

lemmas custody_of_calls =
  owner_calls admin_calls release_custody sweep_custody queue_expiry_custody submission_custody vault_calls recordless_calls override_custody

lemma exec_custody:
  assumes "exec H e c s = Ok (r, s')" "\<not> e_auth e w"
  shows "in_custody e w s s'"
proof (cases "reconfigures c")
  case True
  with assms(1) show ?thesis by (rule configuration_custody)
next
  case False
  with assms show ?thesis
    by (cases c) (auto simp: returns_eq_Ok reconfigures_def dest: custody_of_calls)
qed

text \<open>
  C7. Nobody but the staker changes the terms of a stake. Whatever call is accepted that the wallet has
  not signed, its stake record neither appears nor disappears, and keeps its amount, its committed
  beneficiary and the time it was made. Suspension and the penalty lock change only by the admin's
  hand; the record is forfeited or restored, and points are lost, only by a call that the admin or
  the co-signer has signed (a cancellation, or an approved override).
\<close>

theorem only_the_staker_changes_a_stake:
  assumes "exec H e c s = Ok (r, s')" "\<not> e_auth e w"
  shows "(st_stakes s w = None \<longrightarrow> st_stakes s' w = None) \<and>
    (\<forall>rec. st_stakes s w = Some rec \<longrightarrow> (\<exists>rec'. st_stakes s' w = Some rec' \<and>
       sr_amount rec' = sr_amount rec \<and> sr_beneficiary_hash rec' = sr_beneficiary_hash rec \<and>
       sr_staked_at_ledger rec' = sr_staked_at_ledger rec \<and>
       sr_staked_at_timestamp rec' = sr_staked_at_timestamp rec \<and>
       (sr_suspended rec' = sr_suspended rec \<or> by_admin e s) \<and>
       (sr_penalty_locked_until_ledger rec' = sr_penalty_locked_until_ledger rec \<or> by_admin e s) \<and>
       (sr_withdrawn rec' = sr_withdrawn rec \<or> by_a_signer e s))) \<and>
    (get_points_balance s' w = get_points_balance s w \<or> by_a_signer e s)"
  using exec_custody [OF assms]
  by (auto simp: in_custody_def kept_def stake_terms_def split: option.splits)

text \<open>The admin submits a claim for staker 11, whose stake keeps its terms.\<close>

definition filed_for_11 :: "(ret \<times> mock_world state) outcome" where
  "filed_for_11 = exec ref_host (on_day 100 [1]) (SubmitClaim 1 11 [9] 4000 3 (99 * 86400) 0 [])
     (after staked_run)"

definition stake_of_11 :: "mock_world state \<Rightarrow> bool" where
  "stake_of_11 s = (case st_stakes s 11 of Some r \<Rightarrow> sr_amount r = 10000 | None \<Rightarrow> False)"

theorem only_the_staker_changes_a_stake_witness:
  "\<exists>rec'. st_stakes (state_of filed_for_11) 11 = Some rec' \<and> sr_amount rec' = 10000"
proof -
  have "is_ok filed_for_11 \<and> stake_of_11 (after staked_run)" by code_simp
  then have ok: "filed_for_11 = Ok (result_of filed_for_11, state_of filed_for_11)"
    and "stake_of_11 (after staked_run)"
    by (auto intro: is_ok_result)
  then obtain r where r: "st_stakes (after staked_run) 11 = Some r" "sr_amount r = 10000"
    by (auto simp: stake_of_11_def split: option.splits)
  have unsigned: "\<not> e_auth (on_day 100 [1]) 11" by simp
  from only_the_staker_changes_a_stake [OF ok [unfolded filed_for_11_def] unsigned] r
  show ?thesis by (auto simp: filed_for_11_def)
qed

end
