(* ===== verification/Vault_Properties.thy ===== *)
theory Vault_Properties
  imports Claim_Ledger
begin

text \<open>
  The yield layer: what a deployment may take out of the pool, when the two permissionless
  rebalancing calls come to rest, how a redemption is booked, and why yield never comes out of
  principal or of an admitted claim's reserve.
\<close>

section \<open>Deployment\<close>

lemma deposit_moves_liquid:
  assumes "deposited H v amount gained w s" "vault_law H token" "st_xlm_token s = Some token"
    and "v \<noteq> h_self H"
  shows "liquid_of H (s\<lparr>st_world := w\<rparr>) = liquid_of H s - amount"
  using assms unfolding deposited_def vault_law_def by (auto simp: liquid_of_def)

lemma deploy_ceiling_le:
  assumes "deploy_ceiling s = Ok ceiling" "0 \<le> get_total_staked s"
    and "0 \<le> get_deploy_bps s" "get_deploy_bps s \<le> MAX_DEPLOY_BPS"
  shows "ceiling * BPS_DENOMINATOR \<le> MAX_DEPLOY_BPS * get_total_staked s"
proof -
  have "ceiling = (get_total_staked s * get_deploy_bps s) div BPS_DENOMINATOR"
    using assms by (simp add: deploy_ceiling_def mul_div_i128_eq_Ok sdiv_nonneg_eq
        DEPLOY_BPS_DENOMINATOR_def BPS_DENOMINATOR_def)
  then have "ceiling * BPS_DENOMINATOR \<le> get_total_staked s * get_deploy_bps s"
    by (simp add: BPS_DENOMINATOR_def)
  also have "\<dots> \<le> get_total_staked s * MAX_DEPLOY_BPS"
    using assms by (intro mult_left_mono) simp_all
  finally show ?thesis by (simp add: mult.commute)
qed

text \<open>What the two deployment calls have in common, when they deploy at all.\<close>

definition after_deposit :: "int \<Rightarrow> int \<Rightarrow> 'w \<Rightarrow> 'w state \<Rightarrow> 'w state" where
  "after_deposit amount gained w s =
     s\<lparr>st_total_deployed_shares := Some (get_total_deployed_shares s + gained),
       st_total_deployed_xlm := Some (get_total_deployed_xlm s + amount), st_world := w\<rparr>"

definition deploys :: "'w host \<Rightarrow> address \<Rightarrow> int \<Rightarrow> int \<Rightarrow> 'w \<Rightarrow> 'w state \<Rightarrow> bool" where
  "deploys H v amount gained w s \<longleftrightarrow>
     st_vault s = Some v \<and> deposited H v amount gained w s \<and>
     (\<exists>ceiling. deploy_ceiling s = Ok ceiling \<and> get_total_deployed_xlm s + amount \<le> ceiling) \<and>
     get_total_allocated s \<le> liquid_of H s - amount"

lemma deploysI:
  assumes "st_vault s = Some v" "deposited H v amount gained w s" "deploy_ceiling s = Ok ceiling"
    and "get_total_deployed_xlm s + amount \<le> ceiling" "liquid_balance H s = Ok liquid"
    and "get_total_allocated s \<le> liquid - amount"
  shows "deploys H v amount gained w s"
  using assms by (auto simp: deploys_def liquid_balance_eq_Ok liquid_of_def)

lemma deployment_effect:
  assumes "exec H e c s = Ok (r, s')" "c = DeployToVault a mn \<or> c = AutoDeployLiquidity"
  shows "s' = s \<or> (\<exists>v amount gained w lu ev. deploys H v amount gained w s \<and>
     s' = (after_deposit amount gained w s)\<lparr>st_live_until := lu, st_events := ev\<rparr>)"
  using assms(2)
proof
  assume "c = DeployToVault a mn"
  with assms(1) obtain g where "deploy_to_vault H e a mn s = Ok (g, s')"
    by (auto simp: returns_eq_Ok)
  from deploy_to_vault_Ok [OF this] obtain v liquid ceiling w lu ev where
    "st_vault s = Some v" "liquid_balance H s = Ok liquid" "deploy_ceiling s = Ok ceiling"
    "get_total_deployed_xlm s + a \<le> ceiling" "get_total_allocated s \<le> liquid - a"
    "deposited H v a g w s"
    and s': "s' = s\<lparr>st_total_deployed_shares := Some (get_total_deployed_shares s + g),
            st_total_deployed_xlm := Some (get_total_deployed_xlm s + a),
            st_live_until := lu, st_events := ev, st_world := w\<rparr>"
    by blast
  then have "deploys H v a g w s" by (intro deploysI)
  moreover have "s' = (after_deposit a g w s)\<lparr>st_live_until := lu, st_events := ev\<rparr>"
    by (simp add: s' after_deposit_def)
  ultimately show ?thesis by blast
next
  assume "c = AutoDeployLiquidity"
  with assms(1) obtain g where "auto_deploy_liquidity H e s = Ok (g, s')"
    by (auto simp: returns_eq_Ok)
  from auto_deploy_liquidity_Ok [OF this] consider "s' = s"
    | v liquid ceiling amount w lu ev where
      "st_vault s = Some v" "liquid_balance H s = Ok liquid" "deploy_ceiling s = Ok ceiling"
      "amount = min (liquid - get_total_allocated s) (ceiling - get_total_deployed_xlm s)"
      "deposited H v amount g w s"
      "s' = s\<lparr>st_total_deployed_shares := Some (get_total_deployed_shares s + g),
            st_total_deployed_xlm := Some (get_total_deployed_xlm s + amount),
            st_live_until := lu, st_events := ev, st_world := w\<rparr>"
    by blast
  then show ?thesis
  proof cases
    case 1
    then show ?thesis ..
  next
    case 2
    then have "deploys H v amount g w s" by (intro deploysI) (assumption | linarith)+
    moreover have "s' = (after_deposit amount g w s)\<lparr>st_live_until := lu, st_events := ev\<rparr>"
      by (simp add: 2(6) after_deposit_def)
    ultimately show ?thesis by blast
  qed
qed

lemma after_deposit_simps [simp]:
  "get_total_deployed_xlm (after_deposit a g w s) = get_total_deployed_xlm s + a"
  "get_total_deployed_shares (after_deposit a g w s) = get_total_deployed_shares s + g"
  "get_total_staked (after_deposit a g w s) = get_total_staked s"
  "get_total_allocated (after_deposit a g w s) = get_total_allocated s"
  "liquid_of H (after_deposit a g w s) = liquid_of H (s\<lparr>st_world := w\<rparr>)"
  by (simp_all add: after_deposit_def get_total_deployed_xlm_def get_total_deployed_shares_def
      get_total_staked_def get_total_allocated_def liquid_of_def split: option.split)

text \<open>Events and TTLs are read by no accounting.\<close>

lemma bookkeeping_free [simp]:
  "get_total_deployed_xlm (s\<lparr>st_live_until := lu, st_events := ev\<rparr>) = get_total_deployed_xlm s"
  "get_total_deployed_shares (s\<lparr>st_live_until := lu, st_events := ev\<rparr>) = get_total_deployed_shares s"
  "get_total_staked (s\<lparr>st_live_until := lu, st_events := ev\<rparr>) = get_total_staked s"
  "get_total_allocated (s\<lparr>st_live_until := lu, st_events := ev\<rparr>) = get_total_allocated s"
  "liquid_of H (s\<lparr>st_live_until := lu, st_events := ev\<rparr>) = liquid_of H s"
  by (simp_all add: get_total_deployed_xlm_def get_total_deployed_shares_def get_total_staked_def
      get_total_allocated_def liquid_of_def split: option.split)

text \<open>
  C23. Deployment is bounded: whichever call deploys, at most 80% of the staked principal is in the
  vault afterwards, what stays liquid covers every reserved claim, and liquid plus deployed XLM is
  what it was before.
\<close>

theorem deployment_is_bounded:
  assumes "exec H e c s = Ok (r, s')" "c = DeployToVault a mn \<or> c = AutoDeployLiquidity"
    and "reachable H s" "0 \<le> get_total_staked s"
    and "st_xlm_token s = Some token" "vault_law H token" "st_vault s \<noteq> Some (h_self H)"
  shows "s' = s \<or>
     get_total_deployed_xlm s' * BPS_DENOMINATOR \<le> MAX_DEPLOY_BPS * get_total_staked s' \<and>
     get_total_allocated s' \<le> liquid_of H s' \<and>
     liquid_of H s' + get_total_deployed_xlm s' = liquid_of H s + get_total_deployed_xlm s"
proof -
  have cfg: "config_bounds s" using assms(3) by (rule bounds.in_every_reachable_state)
  from deployment_effect [OF assms(1,2)] show ?thesis
  proof (elim disjE exE conjE)
    fix v amount gained w lu ev
    assume d: "deploys H v amount gained w s"
      and s': "s' = (after_deposit amount gained w s)\<lparr>st_live_until := lu, st_events := ev\<rparr>"
    from d obtain ceiling where c: "deploy_ceiling s = Ok ceiling"
        "get_total_deployed_xlm s + amount \<le> ceiling"
      and l: "get_total_allocated s \<le> liquid_of H s - amount"
      by (auto simp: deploys_def)
    have liq: "liquid_of H (s\<lparr>st_world := w\<rparr>) = liquid_of H s - amount"
      using deposit_moves_liquid [OF _ assms(6,5)] d assms(7) by (auto simp: deploys_def)
    have "(get_total_deployed_xlm s + amount) * BPS_DENOMINATOR \<le> ceiling * BPS_DENOMINATOR"
      using c(2) by (simp add: BPS_DENOMINATOR_def)
    also have "\<dots> \<le> MAX_DEPLOY_BPS * get_total_staked s"
      using deploy_ceiling_le [OF c(1) assms(4)] cfg by (simp add: config_bounds_def)
    finally show ?thesis using liq l by (simp add: s')
  qed simp
qed

definition position_sample :: "mock_world state \<Rightarrow> bool" where
  "position_sample s \<longleftrightarrow> st_xlm_token s = Some 50 \<and> st_vault s = Some 60 \<and> st_treasury s = Some 70 \<and>
     get_total_staked s = 20000 \<and> get_total_deployed_xlm s = 8000 \<and> liquid_of ref_host s = 12000"

lemma position_sample_deployed: "position_sample (after deployed_run)"
  by code_simp

theorem deployment_is_bounded_witness:
  "get_total_deployed_xlm (state_of (exec ref_host (on_day 3 [9]) AutoDeployLiquidity (after deployed_run)))
     * BPS_DENOMINATOR \<le> MAX_DEPLOY_BPS *
   get_total_staked (state_of (exec ref_host (on_day 3 [9]) AutoDeployLiquidity (after deployed_run)))"
proof -
  have ok: "is_ok (exec ref_host (on_day 3 [9]) AutoDeployLiquidity (after deployed_run))"
    by code_simp
  have pos: "position_sample (after deployed_run)" by (rule position_sample_deployed)
  have "state_of (exec ref_host (on_day 3 [9]) AutoDeployLiquidity (after deployed_run)) = after deployed_run
     \<or> get_total_deployed_xlm (state_of (exec ref_host (on_day 3 [9]) AutoDeployLiquidity (after deployed_run)))
         * BPS_DENOMINATOR \<le> MAX_DEPLOY_BPS *
       get_total_staked (state_of (exec ref_host (on_day 3 [9]) AutoDeployLiquidity (after deployed_run)))"
    using deployment_is_bounded [OF is_ok_result [OF ok] _
        after_reachable [OF deployed_run_ok deployed_run_envs] _ _ ref_host_vault_law] pos
    by (auto simp: position_sample_def)
  then show ?thesis
    using pos by (auto simp: position_sample_def BPS_DENOMINATOR_def MAX_DEPLOY_BPS_def)
qed

section \<open>The two rebalancing calls\<close>

lemma sdiv_nonneg: "0 \<le> a \<Longrightarrow> 0 < b \<Longrightarrow> 0 \<le> (a::int) sdiv b"
  by (simp add: sdiv_nonneg_eq pos_imp_zdiv_nonneg_iff)

lemma in_i128_shrink: "in_i128 a \<Longrightarrow> 0 \<le> b \<Longrightarrow> b \<le> a \<Longrightarrow> in_i128 b \<and> in_i128 (- b)"
  by (simp add: in_i128_def i128_min_def i128_max_def)

lemma auto_deploy_in_range:
  assumes "auto_deploy_liquidity H e s = Ok (g, s')" "liquid_balance H s = Ok liquid"
    and "deploy_ceiling s = Ok ceiling" "get_total_allocated s < liquid"
  shows "in_i128 (liquid - get_total_allocated s) \<and> in_i128 (ceiling - get_total_deployed_xlm s)"
  using assms
  by (auto simp: auto_deploy_liquidity_def and_then_eq_Ok sub_i128_eq_Ok Let_def
      require_not_paused_eq_Ok split: if_splits)

lemma nothing_short:
  assumes "st_xlm_token s = Some token" "deploy_ceiling s = Ok ceiling"
    and "in_i128 (get_total_allocated s - liquid_of H s)" "get_total_allocated s \<le> liquid_of H s"
    and "in_i128 (get_total_deployed_xlm s - ceiling)" "get_total_deployed_xlm s \<le> ceiling"
  shows "ensure_liquidity H e s = Ok (0, s)"
proof -
  have "liquidity_shortfall H s = Ok 0"
    using assms by (simp add: liquidity_shortfall_eq_Ok max_def)
  then show ?thesis by (simp add: ensure_liquidity_def Let_def)
qed

lemma nothing_idle:
  assumes "\<not> is_paused s" "0 < get_total_deployed_shares s" "0 < get_total_deployed_xlm s"
    and "liquid_balance H s = Ok liquid" "in_i128 (liquid - get_total_allocated s)"
    and "deploy_ceiling s = Ok ceiling" "in_i128 (ceiling - get_total_deployed_xlm s)"
    and "liquid \<le> get_total_allocated s \<or> ceiling \<le> get_total_deployed_xlm s"
  shows "auto_deploy_liquidity H e s = Ok (0, s)"
proof -
  have "sub_i128 liquid (get_total_allocated s) = Ok (liquid - get_total_allocated s)"
    "sub_i128 ceiling (get_total_deployed_xlm s) = Ok (ceiling - get_total_deployed_xlm s)"
    using assms by (simp_all add: sub_i128_eq_Ok)
  with assms show ?thesis
    by (auto simp: auto_deploy_liquidity_def require_not_paused_def Let_def max_def)
qed

lemma auto_deploy_effect:
  assumes "auto_deploy_liquidity H e s = Ok (g, s')"
    and "get_total_deployed_xlm s' \<noteq> get_total_deployed_xlm s"
  shows "\<exists>v liquid ceiling amount w lu ev.
     \<not> is_paused s \<and> 0 < get_total_deployed_shares s \<and> 0 < get_total_deployed_xlm s \<and>
     st_vault s = Some v \<and> liquid_balance H s = Ok liquid \<and> deploy_ceiling s = Ok ceiling \<and>
     amount = min (liquid - get_total_allocated s) (ceiling - get_total_deployed_xlm s) \<and>
     0 < amount \<and> 0 \<le> g \<and> deposited H v amount g w s \<and>
     s' = (after_deposit amount g w s)\<lparr>st_live_until := lu, st_events := ev\<rparr>"
proof -
  from auto_deploy_liquidity_Ok [OF assms(1)] assms(2) obtain v liquid ceiling amount expected mn w lu ev
    where pre: "\<not> is_paused s" "0 < get_total_deployed_shares s" "0 < get_total_deployed_xlm s"
    and fx: "st_vault s = Some v" "liquid_balance H s = Ok liquid" "deploy_ceiling s = Ok ceiling"
      "amount = min (liquid - get_total_allocated s) (ceiling - get_total_deployed_xlm s)" "0 < amount"
    and ex: "mul_div_i128 amount (get_total_deployed_shares s) (get_total_deployed_xlm s) = Ok expected"
      "mul_div_i128 expected (BPS_DENOMINATOR - MAX_REBALANCE_SLIPPAGE_BPS) BPS_DENOMINATOR = Ok mn"
      "mn \<le> g"
    and d: "deposited H v amount g w s"
    and s': "s' = s\<lparr>st_total_deployed_shares := Some (get_total_deployed_shares s + g),
                st_total_deployed_xlm := Some (get_total_deployed_xlm s + amount),
                st_live_until := lu, st_events := ev, st_world := w\<rparr>"
    by blast
  have "0 \<le> expected" using ex(1) pre fx(5) by (auto simp: mul_div_i128_eq_Ok intro!: sdiv_nonneg)
  then have "0 \<le> mn"
    using ex(2) by (auto simp: mul_div_i128_eq_Ok BPS_DENOMINATOR_def MAX_REBALANCE_SLIPPAGE_BPS_def
        intro!: sdiv_nonneg)
  moreover have "s' = (after_deposit amount g w s)\<lparr>st_live_until := lu, st_events := ev\<rparr>"
    by (simp add: s' after_deposit_def)
  ultimately show ?thesis using pre fx d ex(3) by fastforce
qed

text \<open>
  C27. The permissionless calls come to rest: once \<open>auto_deploy_liquidity\<close> has deployed something, a
  second call and a call of \<open>ensure_liquidity\<close>, at whatever time and by whomever, move nothing, so
  the two never push the same XLM back and forth.
\<close>

theorem rebalancers_come_to_rest:
  assumes "auto_deploy_liquidity H e s = Ok (g, s1)"
    and "get_total_deployed_xlm s1 \<noteq> get_total_deployed_xlm s"
    and "st_xlm_token s = Some token" "vault_law H token" "st_vault s \<noteq> Some (h_self H)"
  shows "auto_deploy_liquidity H e2 s1 = Ok (0, s1) \<and> ensure_liquidity H e3 s1 = Ok (0, s1)"
proof -
  from auto_deploy_effect [OF assms(1,2)] obtain v liquid ceiling amount w lu ev
    where pre: "\<not> is_paused s" "0 < get_total_deployed_shares s" "0 < get_total_deployed_xlm s"
    and fx: "st_vault s = Some v" "liquid_balance H s = Ok liquid" "deploy_ceiling s = Ok ceiling"
    and amt: "amount = min (liquid - get_total_allocated s) (ceiling - get_total_deployed_xlm s)"
      "0 < amount" "0 \<le> g"
    and d: "deposited H v amount g w s"
    and s1: "s1 = (after_deposit amount g w s)\<lparr>st_live_until := lu, st_events := ev\<rparr>"
    by blast
  have rng: "in_i128 (liquid - get_total_allocated s)" "in_i128 (ceiling - get_total_deployed_xlm s)"
    using auto_deploy_in_range [OF assms(1) fx(2,3)] amt by auto
  have l0: "liquid_of H s = liquid" using fx(2) by (auto simp: liquid_balance_eq_Ok liquid_of_def)
  have l1: "liquid_of H s1 = liquid - amount"
    using deposit_moves_liquid [OF d assms(4,3)] fx(1) assms(5) l0 by (simp add: s1)
  have tok1: "st_xlm_token s1 = Some token" using assms(3) by (simp add: s1 after_deposit_def)
  have lb1: "liquid_balance H s1 = Ok (liquid - amount)"
    using l1 tok1 by (simp add: liquid_balance_eq_Ok liquid_of_def)
  have c1: "deploy_ceiling s1 = Ok ceiling"
    using fx(3) by (simp add: deploy_ceiling_def s1 get_deploy_bps_def) (simp add: after_deposit_def)
  have p1: "\<not> is_paused s1" using pre(1) by (simp add: s1 after_deposit_def is_paused_def)
  have in1: "in_i128 (liquid - amount - get_total_allocated s)" "in_i128 (get_total_allocated s - (liquid - amount))"
    using in_i128_shrink [OF rng(1), of "liquid - amount - get_total_allocated s"] amt by simp_all
  have in2: "in_i128 (ceiling - (get_total_deployed_xlm s + amount))"
    "in_i128 (get_total_deployed_xlm s + amount - ceiling)"
    using in_i128_shrink [OF rng(2), of "ceiling - (get_total_deployed_xlm s + amount)"] amt by simp_all
  have "auto_deploy_liquidity H e2 s1 = Ok (0, s1)"
    by (rule nothing_idle [OF p1 _ _ lb1 _ c1]) (use pre amt in1 in2 in \<open>auto simp: s1\<close>)
  moreover have "ensure_liquidity H e3 s1 = Ok (0, s1)"
    by (rule nothing_short [OF tok1 c1]) (use amt in1 in2 l1 in \<open>simp_all add: s1\<close>)
  ultimately show ?thesis ..
qed

definition auto_deployed :: "mock_world state" where
  "auto_deployed = state_of (auto_deploy_liquidity ref_host (on_day 3 []) (after deployed_run))"

theorem rebalancers_come_to_rest_witness:
  "get_total_deployed_xlm auto_deployed = 10000 \<and>
   auto_deploy_liquidity ref_host (on_day 4 []) auto_deployed = Ok (0, auto_deployed) \<and>
   ensure_liquidity ref_host (on_day 5 []) auto_deployed = Ok (0, auto_deployed)"
proof -
  have ok: "is_ok (auto_deploy_liquidity ref_host (on_day 3 []) (after deployed_run))"
    and d: "get_total_deployed_xlm auto_deployed = 10000"
    by code_simp+
  from d have moved: "get_total_deployed_xlm auto_deployed \<noteq> get_total_deployed_xlm (after deployed_run)"
    using position_sample_deployed by (simp add: position_sample_def)
  have "st_xlm_token (after deployed_run) = Some 50" "st_vault (after deployed_run) \<noteq> Some (h_self ref_host)"
    using position_sample_deployed by (simp_all add: position_sample_def)
  from rebalancers_come_to_rest [OF is_ok_result [OF ok, folded auto_deployed_def] moved this(1)
      ref_host_vault_law this(2)] d
  show ?thesis by simp
qed

section \<open>Redemption\<close>

text \<open>What the pool controls beyond what it owes to stakers and admitted claims.\<close>

definition surplus :: "'w host \<Rightarrow> 'w state \<Rightarrow> int" where
  "surplus H s = liquid_of H s + get_total_deployed_xlm s - (get_total_staked s + get_total_allocated s)"

lemma redeem_in_range:
  assumes "redeem H v shares mn s = Ok ((received, princ), s1)" "received < princ"
  shows "in_i128 (princ - received)"
  using assms
  by (auto simp: redeem_def and_then_eq_Ok if_Err_eq_Ok sub_i128_eq_Ok mul_div_i128_eq_Ok
      vault_withdraw_eq_Ok liquid_balance_eq_Ok Let_def split: if_split_asm)

lemma redeem_books:
  assumes "redeem H v shares mn s = Ok ((received, princ), s1)"
    and "0 \<le> get_total_staked s" "in_i128 (get_total_staked s)"
  shows "get_total_staked s1 = get_total_staked s - max 0 (princ - received) \<and>
     get_total_deployed_xlm s1 = get_total_deployed_xlm s - princ \<and>
     liquid_of H s1 = liquid_of H s + received \<and> get_total_allocated s1 = get_total_allocated s \<and>
     st_xlm_token s1 = st_xlm_token s \<and> mn \<le> received"
proof -
  from redeem_Ok [OF assms(1)] obtain w ev where r: "redeemed H v shares mn received princ w s"
    and s1: "s1 = (after_redeem shares received princ s)\<lparr>st_events := ev, st_world := w\<rparr>"
    by blast
  have "get_total_staked s1 = get_total_staked s - max 0 (princ - received)"
  proof (cases "received < princ")
    case True
    have "in_i128 (get_total_staked s - (princ - received))"
      using redeem_in_range [OF assms(1) True] assms(2,3) True
      by (simp add: in_i128_def i128_min_def i128_max_def)
    with True show ?thesis
      by (simp add: s1 after_redeem_def get_total_staked_def saturating_sub_i128_exact)
  next
    case False
    then show ?thesis by (simp add: s1 after_redeem_def get_total_staked_def)
  qed
  moreover have "get_total_deployed_xlm s1 = get_total_deployed_xlm s - princ"
    by (simp add: s1 after_redeem_def get_total_deployed_xlm_def)
  moreover have "liquid_of H s1 = liquid_of H s + received"
  proof -
    have "liquid_of H s1 = liquid_of H (s\<lparr>st_world := w\<rparr>)"
      by (simp add: s1 after_redeem_def liquid_of_def split: option.split)
    also have "\<dots> = liquid_of H s + received"
      using r by (simp add: redeemed_def)
    finally show ?thesis .
  qed
  moreover have "get_total_allocated s1 = get_total_allocated s" "st_xlm_token s1 = st_xlm_token s"
    by (simp_all add: s1 after_redeem_def get_total_allocated_def)
  moreover have "mn \<le> received" using r by (simp add: redeemed_def)
  ultimately show ?thesis by blast
qed

lemma provide_liquidity_redeems:
  assumes "provide_liquidity H e shares mn s = Ok (received, s')"
  shows "\<exists>v princ s1 lu ev. redeem H v shares mn s = Ok ((received, princ), s1) \<and>
     s' = s1\<lparr>st_live_until := lu, st_events := ev\<rparr>"
proof -
  from assms obtain v princ s1 where r: "redeem H v shares mn s = Ok ((received, princ), s1)"
    and s': "s' = publish (EvLiquidityProvided v shares received) (bump_instance_ttl H e s1)"
    by (auto simp: provide_liquidity_def ok_simps)
  from s' have "\<exists>lu ev. s' = s1\<lparr>st_live_until := lu, st_events := ev\<rparr>"
    by (auto simp: publish_def bump_instance_ttl_def touch_def)
  with r show ?thesis by blast
qed

lemma ensure_liquidity_cases:
  assumes "ensure_liquidity H e s = Ok (received, s')"
  shows "\<exists>short. liquidity_shortfall H s = Ok short \<and> (short = 0 \<and> received = 0 \<and> s' = s \<or>
     (\<exists>shares mn v princ s1 lu ev. short \<noteq> 0 \<and>
       0 < get_total_deployed_shares s \<and> 0 < get_total_deployed_xlm s \<and>
       shares = min ((short * get_total_deployed_shares s) sdiv get_total_deployed_xlm s)
                  (get_total_deployed_shares s) \<and>
       mn = (((get_total_deployed_xlm s * shares) sdiv get_total_deployed_shares s) *
              (BPS_DENOMINATOR - MAX_REBALANCE_SLIPPAGE_BPS)) sdiv BPS_DENOMINATOR \<and>
       redeem H v shares mn s = Ok ((received, princ), s1) \<and>
       s' = s1\<lparr>st_live_until := lu, st_events := ev\<rparr>))"
proof -
  from assms obtain short where short: "liquidity_shortfall H s = Ok short"
    by (auto simp: ensure_liquidity_def and_then_eq_Ok Let_def)
  show ?thesis
  proof (cases "short = 0")
    case True
    with assms short show ?thesis by (simp add: ensure_liquidity_def)
  next
    case False
    define shares where "shares = min ((short * get_total_deployed_shares s) sdiv
        get_total_deployed_xlm s) (get_total_deployed_shares s)"
    define mn where "mn = (((get_total_deployed_xlm s * shares) sdiv get_total_deployed_shares s) *
        (BPS_DENOMINATOR - MAX_REBALANCE_SLIPPAGE_BPS)) sdiv BPS_DENOMINATOR"
    from assms short False have "0 < get_total_deployed_shares s \<and> 0 < get_total_deployed_xlm s \<and>
       (\<exists>v res. redeem H v shares mn s = Ok res \<and>
         (case res of ((x, _), s1) \<Rightarrow> Ok (x, publish (EvLiquidityAutoRebalanced v shares x)
            (bump_instance_ttl H e s1))) = Ok (received, s'))"
      by (clarsimp simp: ensure_liquidity_def Let_def and_then_eq_Ok mul_div_i128_eq_Ok ok_or_eq_Ok
          get_vault_def if_Err_eq_Ok shares_def mn_def not_le) blast
    then obtain v princ s1 where d: "0 < get_total_deployed_shares s" "0 < get_total_deployed_xlm s"
      and r: "redeem H v shares mn s = Ok ((received, princ), s1)"
      and s': "s' = publish (EvLiquidityAutoRebalanced v shares received) (bump_instance_ttl H e s1)"
      by (auto split: prod.splits)
    from s' have "\<exists>lu ev. s' = s1\<lparr>st_live_until := lu, st_events := ev\<rparr>"
      by (auto simp: publish_def bump_instance_ttl_def touch_def)
    with short d r False show ?thesis
      unfolding shares_def mn_def by blast
  qed
qed

text \<open>
  C25. A redemption is booked exactly: the call returns what the vault really paid out, a payout
  below the principal it stood for is written off \<open>total_staked\<close> to the last stroop, one above it
  leaves \<open>total_staked\<close> alone, and no reserved claim loses its reserve.
\<close>

theorem redemption_is_booked_exactly:
  assumes "exec H e c s = Ok (r, s')" "c = ProvideLiquidity shares mn \<or> c = EnsureLiquidity"
    and "0 \<le> get_total_staked s" "in_i128 (get_total_staked s)"
  shows "\<exists>received princ. r = RInt received \<and> liquid_of H s' = liquid_of H s + received \<and>
     get_total_deployed_xlm s' = get_total_deployed_xlm s - princ \<and>
     get_total_staked s' = get_total_staked s - max 0 (princ - received) \<and>
     get_total_allocated s' = get_total_allocated s \<and> surplus H s \<le> surplus H s'"
proof -
  from assms(1,2) obtain x where r: "r = RInt x"
    and call: "provide_liquidity H e shares mn s = Ok (x, s') \<or> ensure_liquidity H e s = Ok (x, s')"
    by (auto simp: returns_eq_Ok)
  from call have "x = 0 \<and> s' = s \<or> (\<exists>v sh m princ s1 lu ev. redeem H v sh m s = Ok ((x, princ), s1) \<and>
      s' = s1\<lparr>st_live_until := lu, st_events := ev\<rparr>)"
  proof
    assume "provide_liquidity H e shares mn s = Ok (x, s')"
    from provide_liquidity_redeems [OF this] show ?thesis by blast
  next
    assume "ensure_liquidity H e s = Ok (x, s')"
    from ensure_liquidity_cases [OF this] show ?thesis by blast
  qed
  then consider (still) "x = 0" "s' = s"
    | (redeemed) v sh m princ s1 lu ev where "redeem H v sh m s = Ok ((x, princ), s1)"
      "s' = s1\<lparr>st_live_until := lu, st_events := ev\<rparr>"
    by blast
  then show ?thesis
  proof cases
    case still
    then show ?thesis using r by (intro exI [of _ 0]) simp
  next
    case redeemed
    from redeem_books [OF redeemed(1) assms(3,4)] r show ?thesis
      by (intro exI [of _ x] exI [of _ princ]) (simp add: redeemed(2) surplus_def)
  qed
qed

text \<open>The vault has lost a tenth of its value when 3000 shares are redeemed.\<close>

definition after_loss :: "mock_world state" where
  "after_loss = (after deployed_run)\<lparr>st_world := (st_world (after deployed_run))\<lparr>mw_rate_bps := 9000\<rparr>\<rparr>"

definition loss_redeemed :: "mock_world state" where
  "loss_redeemed = state_of (exec ref_host (on_day 3 [1]) (ProvideLiquidity 3000 2000) after_loss)"

theorem redemption_is_booked_exactly_witness:
  "get_total_staked loss_redeemed = 19700 \<and> surplus ref_host after_loss \<le> surplus ref_host loss_redeemed"
proof -
  have ok: "is_ok (exec ref_host (on_day 3 [1]) (ProvideLiquidity 3000 2000) after_loss)"
    and staked: "get_total_staked loss_redeemed = 19700" and before: "get_total_staked after_loss = 20000"
    by code_simp+
  from redemption_is_booked_exactly [OF is_ok_result [OF ok, folded loss_redeemed_def]] staked before
  show ?thesis by (auto simp: in_i128_def i128_min_def i128_max_def)
qed

text \<open>
  C26. Anyone may call \<open>ensure_liquidity\<close>, also while the pool is paused, so what it can do is bounded
  by the contract itself: it redeems at most the principal the pool is short of, and the payout is
  at least 95% of that principal, rounding aside.
\<close>

theorem public_redemption_is_bounded:
  assumes "ensure_liquidity H e s = Ok (received, s')"
    and "0 \<le> get_total_staked s" "in_i128 (get_total_staked s)"
  shows "\<exists>short princ. liquidity_shortfall H s = Ok short \<and>
     get_total_deployed_xlm s' = get_total_deployed_xlm s - princ \<and>
     liquid_of H s' = liquid_of H s + received \<and> 0 \<le> princ \<and> princ \<le> short \<and>
     (BPS_DENOMINATOR - MAX_REBALANCE_SLIPPAGE_BPS) * princ - BPS_DENOMINATOR < BPS_DENOMINATOR * received"
proof -
  from ensure_liquidity_cases [OF assms(1)] obtain short where short: "liquidity_shortfall H s = Ok short"
    and cases: "short = 0 \<and> received = 0 \<and> s' = s \<or>
     (\<exists>shares mn v princ s1 lu ev. short \<noteq> 0 \<and>
       0 < get_total_deployed_shares s \<and> 0 < get_total_deployed_xlm s \<and>
       shares = min ((short * get_total_deployed_shares s) sdiv get_total_deployed_xlm s)
                  (get_total_deployed_shares s) \<and>
       mn = (((get_total_deployed_xlm s * shares) sdiv get_total_deployed_shares s) *
              (BPS_DENOMINATOR - MAX_REBALANCE_SLIPPAGE_BPS)) sdiv BPS_DENOMINATOR \<and>
       redeem H v shares mn s = Ok ((received, princ), s1) \<and>
       s' = s1\<lparr>st_live_until := lu, st_events := ev\<rparr>)"
    by blast
  from cases show ?thesis
  proof (elim disjE conjE exE)
    assume "short = 0" "received = 0" "s' = s"
    with short show ?thesis
      by (intro exI [of _ 0]) (simp add: BPS_DENOMINATOR_def)
  next
    fix shares mn v princ s1 lu ev
    let ?S = "get_total_deployed_shares s" and ?X = "get_total_deployed_xlm s"
    assume pos: "0 < ?S" "0 < ?X"
      and sh: "shares = min ((short * ?S) sdiv ?X) ?S"
      and mn: "mn = (((?X * shares) sdiv ?S) * (BPS_DENOMINATOR - MAX_REBALANCE_SLIPPAGE_BPS)) sdiv BPS_DENOMINATOR"
      and red: "redeem H v shares mn s = Ok ((received, princ), s1)"
      and s': "s' = s1\<lparr>st_live_until := lu, st_events := ev\<rparr>"
    from redeem_Ok [OF red] have p: "0 < shares" "princ = (?X * shares) sdiv ?S"
      by (auto simp: redeemed_def)
    have princ: "princ = (?X * shares) div ?S" "0 \<le> princ"
      using p pos by (simp_all add: sdiv_nonneg_eq pos_imp_zdiv_nonneg_iff)
    have short0: "0 \<le> short" using short by (auto simp: liquidity_shortfall_eq_Ok)
    have "shares \<le> (short * ?S) div ?X"
      using sh pos short0 by (simp add: sdiv_nonneg_eq)
    then have "shares * ?X \<le> (short * ?S) div ?X * ?X"
      using pos(2) by (intro mult_right_mono) simp_all
    also have "\<dots> \<le> short * ?S"
      using pos(2) by (simp add: minus_mod_eq_div_mult [symmetric])
    finally have "shares * ?X \<le> short * ?S" .
    then have "(?X * shares) div ?S \<le> short"
      using pos(1) by (metis mult.commute nonzero_mult_div_cancel_right order_less_irrefl zdiv_mono1)
    moreover have "mn = (princ * (BPS_DENOMINATOR - MAX_REBALANCE_SLIPPAGE_BPS)) div BPS_DENOMINATOR"
      using mn p(2) princ(2)
      by (simp add: sdiv_nonneg_eq BPS_DENOMINATOR_def MAX_REBALANCE_SLIPPAGE_BPS_def)
    moreover note redeem_books [OF red assms(2,3)]
    ultimately show ?thesis
      using short princ
      by (intro exI [of _ short] exI [of _ princ])
        (auto simp: s' BPS_DENOMINATOR_def MAX_REBALANCE_SLIPPAGE_BPS_def)
  qed
qed

text \<open>The admin has lowered the deployment line to 20%, so 4000 of the 8000 deployed must come back.\<close>

definition lowered_line :: "mock_world state" where
  "lowered_line = after (deployed_run @ [(on_day 3 [1], SetDeployBps 2000), (on_day 3 [1], Pause)])"

definition pulled_back :: "(int \<times> mock_world state) outcome" where
  "pulled_back = ensure_liquidity ref_host (on_day 3 []) lowered_line"

theorem public_redemption_is_bounded_witness:
  "result_of pulled_back = 4000 \<and>
   (\<exists>short princ. liquidity_shortfall ref_host lowered_line = Ok short \<and> princ \<le> short \<and>
      9500 * princ - 10000 < 10000 * result_of pulled_back)"
proof -
  have ok: "is_ok pulled_back" and got: "result_of pulled_back = 4000"
    and staked: "get_total_staked lowered_line = 20000"
    by code_simp+
  have call: "ensure_liquidity ref_host (on_day 3 []) lowered_line = Ok (result_of pulled_back, state_of pulled_back)"
    unfolding pulled_back_def [symmetric] by (rule is_ok_result [OF ok])
  from public_redemption_is_bounded [OF call] got staked
  show ?thesis
    by (auto simp: in_i128_def i128_min_def i128_max_def BPS_DENOMINATOR_def MAX_REBALANCE_SLIPPAGE_BPS_def)
qed

section \<open>Yield\<close>

lemma extract_yield_redeems:
  assumes "extract_yield H e shares mn s = Ok (y, s')"
  shows "\<exists>v a received princ s1. redeem H v shares mn s = Ok ((received, princ), s1) \<and>
     st_treasury s = Some a \<and> y = max 0 (received - princ) \<and>
     (y = 0 \<and> (\<exists>lu ev. s' = s1\<lparr>st_live_until := lu, st_events := ev\<rparr>) \<or>
      0 < y \<and> (\<exists>token w' lu ev. st_xlm_token s1 = Some token \<and>
        h_token_transfer H (st_world s1) token (h_self H) a y = Some w' \<and>
        s' = s1\<lparr>st_total_extracted_yield := Some (get_total_extracted_yield s1 + y),
               st_live_until := lu, st_events := ev, st_world := w'\<rparr>))"
proof -
  from assms obtain admin v a received princ s1 where
    pre: "st_admin s = Some admin" "e_auth e admin" "st_vault s = Some v" "st_treasury s = Some a"
    and r: "redeem H v shares mn s = Ok ((received, princ), s1)"
    by (auto simp: extract_yield_def and_then_eq_Ok get_admin_def get_vault_def get_treasury_def
        unwrap_eq_Ok ok_or_eq_Ok require_auth_eq_Ok)
  show ?thesis
  proof (cases "princ < received")
    case True
    with assms pre r obtain token w' where y: "y = received - princ"
      and t: "st_xlm_token s1 = Some token"
        "h_token_transfer H (st_world s1) token (h_self H) a (received - princ) = Some w'"
      and s': "s' = (publish (EvYieldExtracted a shares received y) (bump_instance_ttl H e
         (set_total_extracted_yield (get_total_extracted_yield s1 + (received - princ)) s1)))
         \<lparr>st_world := w'\<rparr>"
      by (auto simp: extract_yield_def and_then_eq_Ok get_admin_def get_vault_def get_treasury_def
          require_auth_def add_i128_eq_Ok sub_i128_eq_Ok token_transfer_eq_Ok Let_def
          get_xlm_token_def unwrap_eq_Ok publish_def bump_instance_ttl_def touch_def
          set_total_extracted_yield_def)
    from s' have "\<exists>lu ev. s' = s1\<lparr>st_total_extracted_yield := Some (get_total_extracted_yield s1 + y),
               st_live_until := lu, st_events := ev, st_world := w'\<rparr>"
      by (auto simp: publish_def bump_instance_ttl_def touch_def set_total_extracted_yield_def y)
    with pre r y t True show ?thesis by fastforce
  next
    case False
    with assms pre r have y: "y = 0" and
      s': "s' = publish (EvYieldExtracted a shares received y) (bump_instance_ttl H e s1)"
      by (auto simp: extract_yield_def and_then_eq_Ok get_admin_def get_vault_def get_treasury_def
          require_auth_def Let_def)
    from s' have "\<exists>lu ev. s' = s1\<lparr>st_live_until := lu, st_events := ev\<rparr>"
      by (auto simp: publish_def bump_instance_ttl_def touch_def)
    with pre r y False show ?thesis by fastforce
  qed
qed

lemma paid_out:
  assumes "sac_law H" "st_xlm_token s = Some token" "a \<noteq> h_self H"
    and "h_token_transfer H (st_world s) token (h_self H) a amount = Some w"
  shows "liquid_of H (s\<lparr>st_world := w\<rparr>) = liquid_of H s - amount"
proof -
  have "h_token_balance H w token (h_self H) = h_token_balance H (st_world s) token (h_self H) - amount"
    using assms(1) [unfolded sac_law_def, rule_format, OF assms(3) [symmetric] assms(4)] by simp
  with assms(2) show ?thesis by (simp add: liquid_of_def)
qed

text \<open>
  C24. The treasury is paid from gains only: extracting yield leaves the pool's surplus exactly as it
  was, a loss being written off and a gain being all that leaves, and a withdrawal of liquid yield
  takes no more than the surplus and is deducted from it; neither touches an admitted claim's
  reserve.
\<close>

theorem yield_never_touches_principal:
  assumes "exec H e c s = Ok (r, s')" "c = ExtractYield shares mn \<or> c = WithdrawYield amount"
    and "0 \<le> get_total_staked s" "in_i128 (get_total_staked s)"
    and "sac_law H" "st_treasury s \<noteq> Some (h_self H)"
  shows "surplus H s' = surplus H s - (if c = WithdrawYield amount then amount else 0) \<and>
     (c = WithdrawYield amount \<longrightarrow> 0 < amount \<and> amount \<le> surplus H s) \<and>
     get_total_allocated s' = get_total_allocated s"
  using assms(2)
proof
  assume c: "c = ExtractYield shares mn"
  with assms(1) obtain y where "extract_yield H e shares mn s = Ok (y, s')"
    by (auto simp: returns_eq_Ok)
  from extract_yield_redeems [OF this] obtain v a received princ s1
    where r: "redeem H v shares mn s = Ok ((received, princ), s1)" and a: "st_treasury s = Some a"
    and y: "y = max 0 (received - princ)"
    and s': "y = 0 \<and> (\<exists>lu ev. s' = s1\<lparr>st_live_until := lu, st_events := ev\<rparr>) \<or>
      0 < y \<and> (\<exists>token w' lu ev. st_xlm_token s1 = Some token \<and>
        h_token_transfer H (st_world s1) token (h_self H) a y = Some w' \<and>
        s' = s1\<lparr>st_total_extracted_yield := Some (get_total_extracted_yield s1 + y),
               st_live_until := lu, st_events := ev, st_world := w'\<rparr>)"
    by blast
  note books = redeem_books [OF r assms(3,4)]
  have "surplus H s' = surplus H s1 - y \<and> get_total_allocated s' = get_total_allocated s1"
    using s'
  proof (elim disjE conjE exE)
    fix lu ev assume "y = 0" "s' = s1\<lparr>st_live_until := lu, st_events := ev\<rparr>"
    then show ?thesis by (simp add: surplus_def)
  next
    fix token w' lu ev
    assume t: "st_xlm_token s1 = Some token" "h_token_transfer H (st_world s1) token (h_self H) a y = Some w'"
      and s2: "s' = s1\<lparr>st_total_extracted_yield := Some (get_total_extracted_yield s1 + y),
               st_live_until := lu, st_events := ev, st_world := w'\<rparr>"
    have "liquid_of H s' = liquid_of H (s1\<lparr>st_world := w'\<rparr>)"
      by (simp add: s2 liquid_of_def split: option.split)
    with paid_out [OF assms(5) t(1) _ t(2)] a assms(6) have "liquid_of H s' = liquid_of H s1 - y"
      by auto
    then show ?thesis
      by (simp add: surplus_def) (simp add: s2 get_total_staked_def get_total_allocated_def
          get_total_deployed_xlm_def)
  qed
  with books y c show ?thesis by (auto simp: surplus_def)
next
  assume c: "c = WithdrawYield amount"
  with assms(1) have "withdraw_yield H e amount s = Ok ((), s')"
    by (auto simp: returns_eq_Ok)
  from withdraw_yield_Ok [OF this] obtain a yb token w lu ev where
    a: "0 < amount" "st_treasury s = Some a" "yield_balance H s = Ok yb" "amount \<le> yb"
    and t: "st_xlm_token s = Some token" "h_token_transfer H (st_world s) token (h_self H) a amount = Some w"
    and s': "s' = s\<lparr>st_total_extracted_yield := Some (get_total_extracted_yield s + amount),
            st_live_until := lu, st_events := ev, st_world := w\<rparr>"
    by blast
  have "liquid_of H s' = liquid_of H (s\<lparr>st_world := w\<rparr>)"
    by (simp add: s' liquid_of_def split: option.split)
  with paid_out [OF assms(5) t(1) _ t(2)] a assms(6) have "liquid_of H s' = liquid_of H s - amount"
    by auto
  moreover have "amount \<le> surplus H s"
    using a by (auto simp: yield_balance_eq_Ok surplus_def split: if_splits)
  ultimately show ?thesis
    using a(1) c by (simp add: surplus_def) (simp add: s' get_total_staked_def
        get_total_allocated_def get_total_deployed_xlm_def)
qed

text \<open>The vault has gained a tenth when 3000 shares are redeemed for their yield.\<close>

definition after_gain :: "mock_world state" where
  "after_gain = (after deployed_run)\<lparr>st_world := (st_world (after deployed_run))
     \<lparr>mw_rate_bps := 11000, mw_balances := (mw_balances (st_world (after deployed_run)))(60 \<mapsto> 9000)\<rparr>\<rparr>"

definition yield_extracted :: "mock_world state" where
  "yield_extracted = state_of (exec ref_host (on_day 3 [1]) (ExtractYield 3000 3000) after_gain)"

theorem yield_never_touches_principal_witness:
  "liquid_of ref_host yield_extracted = 15000 \<and>
   surplus ref_host yield_extracted = surplus ref_host after_gain"
proof -
  have ok: "is_ok (exec ref_host (on_day 3 [1]) (ExtractYield 3000 3000) after_gain)"
    and l: "liquid_of ref_host yield_extracted = 15000"
    and staked: "get_total_staked after_gain = 20000" and tr: "st_treasury after_gain = Some 70"
    by code_simp+
  from yield_never_touches_principal [OF is_ok_result [OF ok, folded yield_extracted_def], of 3000 3000 0]
    ref_host_sac_law l staked tr
  show ?thesis by (simp add: in_i128_def i128_min_def i128_max_def)
qed

end
