(* ===== verification/Token_Flow.thy ===== *)
theory Token_Flow
  imports Vault_Properties Staking_Properties
begin

text \<open>
  Where the pool's tokens go. \<open>assets\<close> is what the pool controls, liquid or deployed at cost;
  \<open>token_flow\<close> is the one table of what each call may add to it or take from it. Redemptions are
  left out: what they gain or lose against cost is booked as \<open>Vault_Properties\<close> shows.
\<close>

section \<open>The table\<close>

definition assets :: "'w host \<Rightarrow> 'w state \<Rightarrow> int" where
  "assets H s = liquid_of H s + get_total_deployed_xlm s"

definition stake_held :: "'w state \<Rightarrow> address \<Rightarrow> int" where
  "stake_held s staker = (case st_stakes s staker of None \<Rightarrow> 0 | Some r \<Rightarrow> sr_amount r)"

fun token_flow :: "pool_call \<Rightarrow> ret \<Rightarrow> 'w state \<Rightarrow> int" where
  "token_flow (Stake _ amount _) _ s = amount"
| "token_flow (Withdraw staker _) _ s = - stake_held s staker"
| "token_flow (EmergencyExit staker) _ s = - stake_held s staker"
| "token_flow (ClaimStream _ _) (RInt amount) s = - amount"
| "token_flow (WithdrawYield amount) _ s = - amount"
| "token_flow _ _ _ = 0"

text \<open>The party a call pays or is paid by is not the pool itself.\<close>

fun outside_party :: "'w host \<Rightarrow> pool_call \<Rightarrow> 'w state \<Rightarrow> bool" where
  "outside_party H (Stake staker _ _) s \<longleftrightarrow> staker \<noteq> h_self H"
| "outside_party H (Withdraw _ b) s \<longleftrightarrow> b \<noteq> h_self H"
| "outside_party H (EmergencyExit staker) s \<longleftrightarrow> staker \<noteq> h_self H"
| "outside_party H (ClaimStream _ b) s \<longleftrightarrow> b \<noteq> h_self H"
| "outside_party H (WithdrawYield _) s \<longleftrightarrow> st_treasury s \<noteq> Some (h_self H)"
| "outside_party H (ExtractYield _ _) s \<longleftrightarrow> st_treasury s \<noteq> Some (h_self H)"
| "outside_party H (DeployToVault _ _) s \<longleftrightarrow> st_vault s \<noteq> Some (h_self H)"
| "outside_party H AutoDeployLiquidity s \<longleftrightarrow> st_vault s \<noteq> Some (h_self H)"
| "outside_party H _ s \<longleftrightarrow> True"

section \<open>Calls that move no tokens\<close>

lemma assets_cong:
  assumes "st_world s' = st_world s" "st_xlm_token s' = st_xlm_token s"
    and "st_total_deployed_xlm s' = st_total_deployed_xlm s"
  shows "assets H s' = assets H s"
  using assms by (cases "st_xlm_token s") (simp_all add: assets_def liquid_of_def get_total_deployed_xlm_def)

lemma assets_moved:
  assumes "st_world s' = w" "st_xlm_token s' = st_xlm_token s"
    and "st_total_deployed_xlm s' = st_total_deployed_xlm s"
    and "liquid_of H (s\<lparr>st_world := w\<rparr>) = liquid_of H s + x"
  shows "assets H s' = assets H s + x"
  using assms by (cases "st_xlm_token s") (simp_all add: assets_def liquid_of_def get_total_deployed_xlm_def)

lemma override_moves_nothing:
  assumes "approve_override H e cl wallet tx ent tier s = Ok (u, s')"
  shows "assets H s' = assets H s"
  using approve_override_Ok [OF assms]
  by (elim exE conjE disjE)
    (auto dest!: execute_override_Ok simp: overridden_def forfeited_def remove_override_def
      intro!: assets_cong)

lemma submit_moves_nothing:
  assumes "submit_claim H e cl wallet tx ent tier hack dl sig s = Ok (k, s')"
  shows "assets H s' = assets H s"
proof (rule assets_cong)
  from submit_claim_Ok [OF assms]
  show "st_world s' = st_world s" "st_xlm_token s' = st_xlm_token s"
    "st_total_deployed_xlm s' = st_total_deployed_xlm s"
    by (elim exE conjE; simp add: queued_def admitted_def split: if_splits)+
qed

lemma claim_calls_move_nothing:
  "try_release_queued_claim H e k s = Ok (u, s') \<Longrightarrow> assets H s' = assets H s"
  "expire_queued_claim H e k s = Ok (u, s') \<Longrightarrow> assets H s' = assets H s"
  "unlock_pending_claim H e k s = Ok (u, s') \<Longrightarrow> assets H s' = assets H s"
  "approve_claim H e k s = Ok (u, s') \<Longrightarrow> assets H s' = assets H s"
  "expire_pending_approval H e k s = Ok (u, s') \<Longrightarrow> assets H s' = assets H s"
  "expire_stale_claim H e k s = Ok (u, s') \<Longrightarrow> assets H s' = assets H s"
  "cancel_claim H e k s = Ok (u, s') \<Longrightarrow> assets H s' = assets H s"
  by (rule assets_cong; auto dest!: try_release_queued_claim_Ok expire_queued_claim_Ok
      unlock_pending_claim_Ok approve_claim_Ok expire_pending_approval_Ok expire_stale_claim_Ok
      cancel_claim_Ok simp: admitted_def activated_def forfeited_def released_def cancelled_def)+

lemma quiet_calls_move_nothing:
  "set_beneficiary H e st b s = Ok (u, s') \<Longrightarrow> assets H s' = assets H s"
  "suspend_stake H e a s = Ok (u, s') \<Longrightarrow> assets H s' = assets H s"
  "unsuspend_stake H e a j s = Ok (u, s') \<Longrightarrow> assets H s' = assets H s"
  "cancel_pending_override H e cl wallet tx s = Ok (u, s') \<Longrightarrow> assets H s' = assets H s"
  "revoke_approval H e cl wallet tx ent tier hack dl s = Ok (u, s') \<Longrightarrow> assets H s' = assets H s"
  by (rule assets_cong; auto dest!: set_beneficiary_Ok suspend_stake_Ok unsuspend_stake_Ok
      cancel_pending_override_Ok revoke_approval_Ok)+

lemma reconfiguration_moves_nothing:
  assumes "exec H e c s = Ok (r, s')" "reconfigures c"
  shows "assets H s' = assets H s"
  using assms
  by (cases c; intro assets_cong)
    (auto simp: returns_eq_Ok reconfigures_def
      dest!: transfer_admin_Ok pause_Ok unpause_Ok set_pool_cap_Ok set_oracle_Ok
        set_oracle_pubkey_Ok set_oracle_identity_Ok set_co_signer_Ok set_vault_Ok
        set_treasury_Ok set_deploy_bps_Ok)

section \<open>Calls that move tokens\<close>

lemma stake_flow:
  assumes "stake H e staker amount b s = Ok (u, s')" "sac_law H" "staker \<noteq> h_self H"
  shows "assets H s' = assets H s + amount"
proof -
  from stake_Ok [OF assms(1)] obtain token w where t: "st_xlm_token s = Some token"
    and w: "h_token_transfer H (st_world s) token staker (h_self H) amount = Some w"
    and s': "st_world s' = w" "st_xlm_token s' = st_xlm_token s"
      "st_total_deployed_xlm s' = st_total_deployed_xlm s"
    by auto
  have "liquid_of H (s\<lparr>st_world := w\<rparr>) = liquid_of H s + amount"
    using sac_lawD(2) [OF assms(2,3) w] t by (simp add: liquid_of_def)
  with s' show ?thesis by (intro assets_moved)
qed

text \<open>A payment out of the pool, whoever makes it.\<close>

lemma payment_flow:
  assumes "st_xlm_token s = Some token"
    and "h_token_transfer H (st_world s) token (h_self H) b amount = Some w"
    and "st_world s' = w" "st_xlm_token s' = st_xlm_token s"
    and "st_total_deployed_xlm s' = st_total_deployed_xlm s"
    and "sac_law H" "b \<noteq> h_self H"
  shows "assets H s' = assets H s - amount"
  using assets_moved [OF assms(3-5), of H "- amount"] paid_out [OF assms(6,1,7,2)] by simp

lemma withdraw_flow:
  assumes "withdraw H e staker b s = Ok (u, s')" "sac_law H" "b \<noteq> h_self H"
  shows "assets H s' = assets H s - stake_held s staker"
proof -
  from withdraw_Ok [OF assms(1)] obtain r token w where r: "st_stakes s staker = Some r"
    and t: "st_xlm_token s = Some token"
      "h_token_transfer H (st_world s) token (h_self H) b (sr_amount r) = Some w"
    and s': "st_world s' = w" "st_xlm_token s' = st_xlm_token s"
      "st_total_deployed_xlm s' = st_total_deployed_xlm s"
    by (auto simp: exited_def)
  from payment_flow [OF t s' assms(2,3)] r show ?thesis by (simp add: stake_held_def)
qed

lemma emergency_exit_flow:
  assumes "emergency_exit H e staker s = Ok (u, s')" "sac_law H" "staker \<noteq> h_self H"
  shows "assets H s' = assets H s - stake_held s staker"
proof -
  from emergency_exit_Ok [OF assms(1)] obtain r token w where r: "st_stakes s staker = Some r"
    and t: "st_xlm_token s = Some token"
      "h_token_transfer H (st_world s) token (h_self H) staker (sr_amount r) = Some w"
    and s': "st_world s' = w" "st_xlm_token s' = st_xlm_token s"
      "st_total_deployed_xlm s' = st_total_deployed_xlm s"
    by (auto simp: exited_def)
  from payment_flow [OF t s' assms(2,3)] r show ?thesis by (simp add: stake_held_def)
qed

lemma stream_flow:
  assumes "claim_stream H e k b s = Ok (amount, s')" "sac_law H" "b \<noteq> h_self H"
  shows "assets H s' = assets H s - amount"
proof -
  from claim_stream_Ok [OF assms(1)] obtain token w where
    t: "st_xlm_token s = Some token"
      "h_token_transfer H (st_world s) token (h_self H) b amount = Some w"
    and s': "st_world s' = w" "st_xlm_token s' = st_xlm_token s"
      "st_total_deployed_xlm s' = st_total_deployed_xlm s"
    by (elim exE conjE) (simp add: streamed_to_def)
  from payment_flow [OF t s' assms(2,3)] show ?thesis .
qed

lemma withdraw_yield_flow:
  assumes "withdraw_yield H e amount s = Ok (u, s')" "sac_law H" "st_treasury s \<noteq> Some (h_self H)"
  shows "assets H s' = assets H s - amount"
proof -
  from withdraw_yield_Ok [OF assms(1)] obtain a token w where a: "st_treasury s = Some a"
    and t: "st_xlm_token s = Some token"
      "h_token_transfer H (st_world s) token (h_self H) a amount = Some w"
    and s': "st_world s' = w" "st_xlm_token s' = st_xlm_token s"
      "st_total_deployed_xlm s' = st_total_deployed_xlm s"
    by auto
  from a assms(3) have "a \<noteq> h_self H" by simp
  from payment_flow [OF t s' assms(2) this] show ?thesis .
qed

lemma deployment_flow:
  assumes "exec H e c s = Ok (r, s')" "c = DeployToVault a mn \<or> c = AutoDeployLiquidity"
    and "st_xlm_token s = Some token" "vault_law H token" "st_vault s \<noteq> Some (h_self H)"
  shows "assets H s' = assets H s"
  using deployment_effect [OF assms(1,2)]
proof (elim disjE exE conjE)
  fix v amount gained w lu ev
  assume d: "deploys H v amount gained w s"
    and s': "s' = (after_deposit amount gained w s)\<lparr>st_live_until := lu, st_events := ev\<rparr>"
  from d assms(5) have dep: "deposited H v amount gained w s" and v: "v \<noteq> h_self H"
    by (auto simp: deploys_def)
  from deposit_moves_liquid [OF dep assms(4,3) v] show ?thesis
    by (simp add: s' assets_def)
qed simp

section \<open>Who may be paid\<close>

text \<open>
  The party whose money a paying call hands out, and who has to sign for it: the staker, the
  owner of the claim, or the admin for what is neither a staker's nor reserved for a claim.
\<close>

fun entitled :: "'w host \<Rightarrow> env \<Rightarrow> pool_call \<Rightarrow> 'w state \<Rightarrow> bool" where
  "entitled H e (Withdraw staker _) s \<longleftrightarrow> e_auth e staker"
| "entitled H e (EmergencyExit staker) s \<longleftrightarrow> e_auth e staker"
| "entitled H e (ClaimStream k _) s \<longleftrightarrow> (\<exists>c. st_claims s k = Some c \<and> e_auth e (cl_wallet c))"
| "entitled H e (WithdrawYield amount) s \<longleftrightarrow> by_admin e s \<and> amount \<le> surplus H s"
| "entitled H e _ s \<longleftrightarrow> False"

lemma payments_authorized:
  assumes "exec H e c s = Ok (r, s')" "token_flow c r s < 0"
  shows "entitled H e c s"
proof (cases c)
  case (WithdrawYield amount)
  with assms(1) have "withdraw_yield H e amount s = Ok ((), s')" by (auto simp: returns_eq_Ok)
  from withdraw_yield_Ok [OF this] WithdrawYield show ?thesis
    by (auto simp: by_admin_def yield_balance_eq_Ok surplus_def split: if_splits)
next
  case (Stake staker amount b)
  with assms have False by (auto simp: returns_eq_Ok dest!: stake_Ok)
  then show ?thesis ..
qed (use assms in \<open>auto simp: returns_eq_Ok dest!: withdraw_Ok emergency_exit_Ok claim_stream_Ok\<close>)

lemma token_flow_exact:
  assumes "exec H e c s = Ok (r, s')" "\<not> redeems c"
    and "sac_law H" "st_xlm_token s = Some token" "vault_law H token" "outside_party H c s"
  shows "assets H s' = assets H s + token_flow c r s"
proof (cases "reconfigures c")
  case True
  then have "token_flow c r s = 0" by (cases c) (simp_all add: reconfigures_def)
  with reconfiguration_moves_nothing [OF assms(1) True] show ?thesis by simp
next
  case False
  show ?thesis
  proof (cases "\<exists>a mn. c = DeployToVault a mn \<or> c = AutoDeployLiquidity")
    case True
    then obtain a mn where c: "c = DeployToVault a mn \<or> c = AutoDeployLiquidity" by blast
    with assms(6) have "st_vault s \<noteq> Some (h_self H)" by auto
    from deployment_flow [OF assms(1) c assms(4,5) this] c show ?thesis by auto
  next
    case not_deploy: False
    show ?thesis
      using assms False not_deploy
      by (cases c)
        (auto simp: returns_eq_Ok reconfigures_def redeems_def
          dest: quiet_calls_move_nothing claim_calls_move_nothing submit_moves_nothing
            override_moves_nothing stake_flow withdraw_flow emergency_exit_flow stream_flow
            withdraw_yield_flow)
  qed
qed

text \<open>
  C4. Tokens leave the pool in four ways only. Every call changes what the pool controls, liquid or
  deployed, by exactly what one table says: a stake adds its amount; a withdrawal, an emergency
  exit, a collection and a withdrawal of yield take the stake held, the amount collected, the
  yield asked for; no other call moves a token in or out, whoever makes it. And whenever the
  pool's assets shrink, the staker or the owner of the claim signed for it, or the admin took no
  more than the surplus over stakes and reserves. (Redemptions from the vault are the subject of
  the two theorems on redemption and yield. The token keeps \<open>sac_law\<close>, a deposit into the vault takes
  exactly its amount of the pool's own token, and the party paid or paying is not the pool itself.)
\<close>

theorem tokens_move_only_as_listed:
  assumes "exec H e c s = Ok (r, s')" "\<not> redeems c"
    and "sac_law H" "st_xlm_token s = Some token" "vault_law H token" "outside_party H c s"
  shows "assets H s' = assets H s + token_flow c r s \<and>
    (assets H s' < assets H s \<longrightarrow> entitled H e c s)"
  using token_flow_exact [OF assms] payments_authorized [OF assms(1)] by auto

theorem tokens_move_only_as_listed_witness:
  "assets ref_host (state_of (exec ref_host (on_day 9 [11]) (EmergencyExit 11) (after staked_run)))
     = assets ref_host (after staked_run) - 10000"
proof -
  have ok: "is_ok (exec ref_host (on_day 9 [11]) (EmergencyExit 11) (after staked_run))"
    and held: "stake_held (after staked_run) 11 = 10000" and token: "st_xlm_token (after staked_run) = Some 50"
    by code_simp+
  from tokens_move_only_as_listed [OF is_ok_result [OF ok] _ ref_host_sac_law token ref_host_vault_law] held
  show ?thesis by (auto simp: redeems_def)
qed

end
