(* ===== verification/Event_Schema.thy ===== *)
theory Event_Schema
  imports Pool_Storage
begin

text \<open>
  The shape of the published events: for each \<^verbatim>\<open>#[contractevent]\<close> struct of
  \<^verbatim>\<open>stake.rs\<close>, \<^verbatim>\<open>claim.rs\<close> and \<^verbatim>\<open>vault.rs\<close> its name, the fields
  marked \<^verbatim>\<open>#[topic]\<close>, which indexers can filter by, and the remaining fields. A log
  entry determines the event it was published from.
\<close>

record event_struct =
  es_name :: string
  es_topics :: "(string \<times> scval) list"
  es_data :: "(string \<times> scval) list"

definition event_struct ::
  "string \<Rightarrow> (string \<times> scval) list \<Rightarrow> (string \<times> scval) list \<Rightarrow> event_struct option" where
  "event_struct name topics data = Some \<lparr>es_name = name, es_topics = topics, es_data = data\<rparr>"

fun stake_event :: "pool_event \<Rightarrow> event_struct option" where
  "stake_event (EvStaked staker amount) =
     event_struct ''Staked'' [(''staker'', SvAddress staker)] [(''amount'', SvI128 amount)]"
| "stake_event (EvWithdrawn staker amount) =
     event_struct ''Withdrawn'' [(''staker'', SvAddress staker)] [(''amount'', SvI128 amount)]"
| "stake_event (EvEmergencyExit staker amount) =
     event_struct ''EmergencyExit'' [(''staker'', SvAddress staker)] [(''amount'', SvI128 amount)]"
| "stake_event _ = None"

fun claim_event :: "pool_event \<Rightarrow> event_struct option" where
  "claim_event (EvClaimSubmitted wallet claim_id entitlement) =
     event_struct ''ClaimSubmitted'' [(''wallet'', SvAddress wallet)]
       [(''claim_id'', SvBytes claim_id), (''entitlement'', SvI128 entitlement)]"
| "claim_event (EvClaimQueued wallet claim_id entitlement) =
     event_struct ''ClaimQueued'' [(''wallet'', SvAddress wallet)]
       [(''claim_id'', SvBytes claim_id), (''entitlement'', SvI128 entitlement)]"
| "claim_event (EvClaimQueueReleased wallet claim_id) =
     event_struct ''ClaimQueueReleased'' [(''wallet'', SvAddress wallet)] [(''claim_id'', SvBytes claim_id)]"
| "claim_event (EvClaimQueueExpired wallet claim_id) =
     event_struct ''ClaimQueueExpired'' [(''wallet'', SvAddress wallet)] [(''claim_id'', SvBytes claim_id)]"
| "claim_event (EvClaimUnlocked wallet claim_id) =
     event_struct ''ClaimUnlocked'' [(''wallet'', SvAddress wallet)] [(''claim_id'', SvBytes claim_id)]"
| "claim_event (EvClaimApproved wallet claim_id points_burned) =
     event_struct ''ClaimApproved'' [(''wallet'', SvAddress wallet)]
       [(''claim_id'', SvBytes claim_id), (''points_burned'', SvI128 points_burned)]"
| "claim_event (EvClaimExpired wallet claim_id released) =
     event_struct ''ClaimExpired'' [(''wallet'', SvAddress wallet)]
       [(''claim_id'', SvBytes claim_id), (''released'', SvI128 released)]"
| "claim_event (EvClaimStreamed wallet amount) =
     event_struct ''ClaimStreamed'' [(''wallet'', SvAddress wallet)] [(''amount'', SvI128 amount)]"
| "claim_event (EvClaimCancelled wallet claim_id) =
     event_struct ''ClaimCancelled'' [(''wallet'', SvAddress wallet)] [(''claim_id'', SvBytes claim_id)]"
| "claim_event (EvOverrideExecuted wallet claim_id points_burned) =
     event_struct ''OverrideExecuted'' [(''wallet'', SvAddress wallet)]
       [(''claim_id'', SvBytes claim_id), (''points_burned'', SvI128 points_burned)]"
| "claim_event (EvOverrideCancelled claim_id) =
     event_struct ''OverrideCancelled'' [(''claim_id'', SvBytes claim_id)] []"
| "claim_event (EvApprovalRevoked wallet approval_hash) =
     event_struct ''ApprovalRevoked'' [(''wallet'', SvAddress wallet)]
       [(''approval_hash'', SvBytes approval_hash)]"
| "claim_event _ = None"

fun vault_event :: "pool_event \<Rightarrow> event_struct option" where
  "vault_event (EvDeployed vault xlm_amount shares_gained) =
     event_struct ''Deployed'' [(''vault'', SvAddress vault)]
       [(''xlm_amount'', SvI128 xlm_amount), (''shares_gained'', SvI128 shares_gained)]"
| "vault_event (EvLiquidityProvided vault shares_redeemed xlm_received) =
     event_struct ''LiquidityProvided'' [(''vault'', SvAddress vault)]
       [(''shares_redeemed'', SvI128 shares_redeemed), (''xlm_received'', SvI128 xlm_received)]"
| "vault_event (EvLiquidityAutoRebalanced vault shares_redeemed xlm_received) =
     event_struct ''LiquidityAutoRebalanced'' [(''vault'', SvAddress vault)]
       [(''shares_redeemed'', SvI128 shares_redeemed), (''xlm_received'', SvI128 xlm_received)]"
| "vault_event (EvLiquidityAutoDeployed vault xlm_amount shares_gained) =
     event_struct ''LiquidityAutoDeployed'' [(''vault'', SvAddress vault)]
       [(''xlm_amount'', SvI128 xlm_amount), (''shares_gained'', SvI128 shares_gained)]"
| "vault_event (EvYieldExtracted treasury shares_redeemed xlm_received yield_amount) =
     event_struct ''YieldExtracted'' [(''treasury'', SvAddress treasury)]
       [(''shares_redeemed'', SvI128 shares_redeemed), (''xlm_received'', SvI128 xlm_received),
        (''yield_amount'', SvI128 yield_amount)]"
| "vault_event (EvYieldWithdrawn treasury amount) =
     event_struct ''YieldWithdrawn'' [(''treasury'', SvAddress treasury)] [(''amount'', SvI128 amount)]"
| "vault_event (EvDeploymentShortfall vault principal_expected xlm_received) =
     event_struct ''DeploymentShortfall'' [(''vault'', SvAddress vault)]
       [(''principal_expected'', SvI128 principal_expected), (''xlm_received'', SvI128 xlm_received)]"
| "vault_event _ = None"

text \<open>Every event is declared in exactly one of the three modules.\<close>

definition published_as :: "pool_event \<Rightarrow> event_struct" where
  "published_as ev =
     (case stake_event ev of Some t \<Rightarrow> t
      | None \<Rightarrow> (case claim_event ev of Some t \<Rightarrow> t | None \<Rightarrow> the (vault_event ev)))"

lemma declared_once:
  "(stake_event ev \<noteq> None) = (claim_event ev = None \<and> vault_event ev = None)"
  "stake_event ev \<noteq> None \<or> claim_event ev \<noteq> None \<or> vault_event ev \<noteq> None"
  by (cases ev; simp add: event_struct_def)+

text \<open>Read back from the log: a decoder by name, and the round trip.\<close>

definition decode_event :: "event_struct \<Rightarrow> pool_event option" where
  "decode_event t =
     (case (es_topics t, es_data t) of
        ([(_, SvAddress a)], [(_, SvI128 x)]) \<Rightarrow>
          (if es_name t = ''Staked'' then Some (EvStaked a x)
           else if es_name t = ''Withdrawn'' then Some (EvWithdrawn a x)
           else if es_name t = ''EmergencyExit'' then Some (EvEmergencyExit a x)
           else if es_name t = ''ClaimStreamed'' then Some (EvClaimStreamed a x)
           else if es_name t = ''YieldWithdrawn'' then Some (EvYieldWithdrawn a x)
           else None)
      | ([(_, SvAddress a)], [(_, SvBytes k), (_, SvI128 x)]) \<Rightarrow>
          (if es_name t = ''ClaimSubmitted'' then Some (EvClaimSubmitted a k x)
           else if es_name t = ''ClaimQueued'' then Some (EvClaimQueued a k x)
           else if es_name t = ''ClaimApproved'' then Some (EvClaimApproved a k x)
           else if es_name t = ''ClaimExpired'' then Some (EvClaimExpired a k x)
           else if es_name t = ''OverrideExecuted'' then Some (EvOverrideExecuted a k x)
           else None)
      | ([(_, SvAddress a)], [(_, SvBytes k)]) \<Rightarrow>
          (if es_name t = ''ClaimQueueReleased'' then Some (EvClaimQueueReleased a k)
           else if es_name t = ''ClaimQueueExpired'' then Some (EvClaimQueueExpired a k)
           else if es_name t = ''ClaimUnlocked'' then Some (EvClaimUnlocked a k)
           else if es_name t = ''ClaimCancelled'' then Some (EvClaimCancelled a k)
           else if es_name t = ''ApprovalRevoked'' then Some (EvApprovalRevoked a k)
           else None)
      | ([(_, SvAddress a)], [(_, SvI128 x), (_, SvI128 y)]) \<Rightarrow>
          (if es_name t = ''Deployed'' then Some (EvDeployed a x y)
           else if es_name t = ''LiquidityProvided'' then Some (EvLiquidityProvided a x y)
           else if es_name t = ''LiquidityAutoRebalanced'' then Some (EvLiquidityAutoRebalanced a x y)
           else if es_name t = ''LiquidityAutoDeployed'' then Some (EvLiquidityAutoDeployed a x y)
           else if es_name t = ''DeploymentShortfall'' then Some (EvDeploymentShortfall a x y)
           else None)
      | ([(_, SvAddress a)], [(_, SvI128 x), (_, SvI128 y), (_, SvI128 z)]) \<Rightarrow>
          (if es_name t = ''YieldExtracted'' then Some (EvYieldExtracted a x y z) else None)
      | ([(_, SvBytes k)], []) \<Rightarrow>
          (if es_name t = ''OverrideCancelled'' then Some (EvOverrideCancelled k) else None)
      | _ \<Rightarrow> None)"

lemma decode_published [simp]: "decode_event (published_as ev) = Some ev"
  by (cases ev) (simp_all add: published_as_def event_struct_def decode_event_def)

lemma published_as_inject: "published_as ev = published_as ev' \<longleftrightarrow> ev = ev'"
  by (metis decode_published option.inject)

end
