(* ===== verification/Event_Log.thy ===== *)
theory Event_Log
  imports Token_Flow Storage_Writes Event_Schema
begin

text \<open>
  The events the contract publishes, read as an account. \<open>event_flow\<close> is what an event says
  came into the pool's liquid XLM, \<open>drift\<close> the difference between that XLM and what the log
  accounts for. Every write of the storage and every call keeps the drift, so a reader of the
  log alone can follow the pool's liquid XLM.
\<close>

section \<open>The account\<close>

fun event_flow :: "pool_event \<Rightarrow> int" where
  "event_flow (EvStaked _ amount) = amount"
| "event_flow (EvWithdrawn _ amount) = - amount"
| "event_flow (EvEmergencyExit _ amount) = - amount"
| "event_flow (EvClaimStreamed _ amount) = - amount"
| "event_flow (EvDeployed _ amount _) = - amount"
| "event_flow (EvLiquidityAutoDeployed _ amount _) = - amount"
| "event_flow (EvLiquidityProvided _ _ received) = received"
| "event_flow (EvLiquidityAutoRebalanced _ _ received) = received"
| "event_flow (EvYieldExtracted _ _ received yield_amount) = received - yield_amount"
| "event_flow (EvYieldWithdrawn _ amount) = - amount"
| "event_flow _ = 0"

definition accounted :: "pool_event list \<Rightarrow> int" where
  "accounted evs = sum_list (map event_flow evs)"

definition drift :: "'w host \<Rightarrow> 'w state \<Rightarrow> int" where
  "drift H s = liquid_of H s - accounted (st_events s)"

lemma accounted_append [simp]: "accounted (xs @ ys) = accounted xs + accounted ys"
  by (simp add: accounted_def)

lemma drift_publish [simp]: "drift H (publish ev s) = drift H s - event_flow ev"
  by (simp add: drift_def publish_def liquid_of_def accounted_def split: option.split)

lemma drift_writes [simp]:
  "drift H (bump_instance_ttl H' e s) = drift H s" "drift H (set_admin a s) = drift H s"
  "drift H (set_oracle_address a s) = drift H s" "drift H (set_oracle_key pk s) = drift H s"
  "drift H (set_co_signer_address a s) = drift H s" "drift H (set_pool_cap_value v s) = drift H s"
  "drift H (set_total_staked v s) = drift H s" "drift H (set_total_allocated v s) = drift H s"
  "drift H (set_total_stakers v s) = drift H s" "drift H (set_paused b s) = drift H s"
  "drift H (set_daily_outflow d v s) = drift H s"
  "drift H (set_daily_entitlement d v n s) = drift H s"
  "drift H (set_vault_address a s) = drift H s" "drift H (set_treasury_address a s) = drift H s"
  "drift H (set_deploy_bps_value v s) = drift H s"
  "drift H (set_total_deployed_shares v s) = drift H s"
  "drift H (set_total_deployed_xlm v s) = drift H s"
  "drift H (set_total_extracted_yield v s) = drift H s"
  by (simp_all add: drift_def liquid_of_def write_defs split: option.split)

lemma drift_entries [simp]:
  "drift H (set_stake H' e a r s) = drift H s" "drift H (set_claim H' e k c s) = drift H s"
  "drift H (set_override H' e k req s) = drift H s" "drift H (remove_override k s) = drift H s"
  "drift H (set_points_balance H' e a v s) = drift H s"
  "drift H (set_approval_revoked H' e k s) = drift H s"
  by (simp_all add: drift_def liquid_of_def write_defs split: option.split)

text \<open>What a reader of the published structs adds up, without access to the contract's storage.\<close>

definition indexed_flow :: "event_struct list \<Rightarrow> int" where
  "indexed_flow log =
     sum_list (map (\<lambda>t. case decode_event t of Some ev \<Rightarrow> event_flow ev | None \<Rightarrow> 0) log)"

lemma indexed_flow_published [simp]: "indexed_flow (map published_as evs) = accounted evs"
  by (simp add: indexed_flow_def accounted_def comp_def)

section \<open>Calls without a transfer\<close>

lemma helpers_keep_drift [dest!]:
  "bank_points H e staker points s = Ok s' \<Longrightarrow> drift H s' = drift H s"
  "activate_claim H e r c s = Ok ((p, r', c'), s') \<Longrightarrow> drift H s' = drift H s"
  "admit_claim H e wallet tx k ent tier hack r counted s = Ok s' \<Longrightarrow> drift H s' = drift H s"
  by (auto simp: bank_points_def activate_claim_def admit_claim_def control_simps
      split: if_splits prod.splits)

lemma quiet_calls_keep_drift:
  "set_beneficiary H e staker b s = Ok (u, s') \<Longrightarrow> drift H s' = drift H s"
  "transfer_admin H e a s = Ok (u, s') \<Longrightarrow> drift H s' = drift H s"
  "pause e s = Ok (u, s') \<Longrightarrow> drift H s' = drift H s"
  "unpause e s = Ok (u, s') \<Longrightarrow> drift H s' = drift H s"
  "suspend_stake H e a s = Ok (u, s') \<Longrightarrow> drift H s' = drift H s"
  "set_pool_cap H e cap s = Ok (u, s') \<Longrightarrow> drift H s' = drift H s"
  "set_oracle H e a s = Ok (u, s') \<Longrightarrow> drift H s' = drift H s"
  "set_oracle_pubkey H e pk s = Ok (u, s') \<Longrightarrow> drift H s' = drift H s"
  "set_oracle_identity H e a pk s = Ok (u, s') \<Longrightarrow> drift H s' = drift H s"
  "set_co_signer H e a s = Ok (u, s') \<Longrightarrow> drift H s' = drift H s"
  "set_vault H e a s = Ok (u, s') \<Longrightarrow> drift H s' = drift H s"
  "set_treasury H e a s = Ok (u, s') \<Longrightarrow> drift H s' = drift H s"
  "set_deploy_bps H e bps s = Ok (u, s') \<Longrightarrow> drift H s' = drift H s"
  by (auto simp: set_beneficiary_def transfer_admin_def pause_def unpause_def suspend_stake_def
      set_pool_cap_def set_oracle_def set_oracle_pubkey_def set_oracle_identity_def
      set_co_signer_def set_vault_def set_treasury_def set_deploy_bps_def control_simps)

lemma drift_cong:
  assumes "st_world s' = st_world s" "st_xlm_token s' = st_xlm_token s" "st_events s' = st_events s"
  shows "drift H s' = drift H s"
  using assms by (simp add: drift_def liquid_of_def split: option.split)

lemma unsuspend_keeps_drift:
  "unsuspend_stake H e wallet cid s = Ok (u, s') \<Longrightarrow> drift H s' = drift H s"
  by (rule drift_cong) (auto dest!: unsuspend_stake_Ok)

lemma claim_calls_keep_drift:
  "expire_queued_claim H e k s = Ok (u, s') \<Longrightarrow> drift H s' = drift H s"
  "unlock_pending_claim H e k s = Ok (u, s') \<Longrightarrow> drift H s' = drift H s"
  "approve_claim H e k s = Ok (u, s') \<Longrightarrow> drift H s' = drift H s"
  "expire_pending_approval H e k s = Ok (u, s') \<Longrightarrow> drift H s' = drift H s"
  "expire_stale_claim H e k s = Ok (u, s') \<Longrightarrow> drift H s' = drift H s"
  "revoke_approval H e caller wallet tx ent tier hack dl s = Ok (u, s') \<Longrightarrow> drift H s' = drift H s"
  "cancel_pending_override H e caller wallet tx s = Ok (u, s') \<Longrightarrow> drift H s' = drift H s"
  by (auto simp: expire_queued_claim_def unlock_pending_claim_def approve_claim_def
      expire_pending_approval_def expire_stale_claim_def revoke_approval_def
      cancel_pending_override_def control_simps)

lemma submission_keeps_drift:
  "submit_claim H e caller wallet tx ent tier hack dl sig s = Ok (k, s') \<Longrightarrow> drift H s' = drift H s"
  by (auto simp: submit_claim_def queue_claim_def control_simps split: if_splits)

lemma release_keeps_drift:
  assumes "try_release_queued_claim H e k s = Ok (u, s')"
  shows "drift H s' = drift H s"
  using assms
  by (cases "get_daily_entitlement (current_day e) s")
    (auto simp: try_release_queued_claim_def control_simps)

lemma cancellation_keeps_drift:
  assumes "cancel_claim H e k s = Ok (u, s')"
  shows "drift H s' = drift H s"
  using assms
  by (cases "cl_status (the (get_claim s k)) = Active") (auto simp: cancel_claim_def control_simps)

lemma override_helpers_keep_drift [dest!]:
  "release_prior existing s = Ok (x, s') \<Longrightarrow> drift H s' = drift H s"
  "activate_override H e r c s = Ok ((p, r', c'), s') \<Longrightarrow> drift H s' = drift H s"
  "execute_override H e k req s = Ok s' \<Longrightarrow> drift H s' = drift H s"
proof -
  show prior: "release_prior existing s = Ok (x, s') \<Longrightarrow> drift H s' = drift H s" for existing x s s'
    by (cases existing) (auto simp: release_prior_def control_simps split: if_splits)
  show act: "activate_override H e r c s = Ok ((p, r', c'), s') \<Longrightarrow> drift H s' = drift H s"
    for r c s p r' c' s'
    by (cases "sr_withdrawn r") (auto simp: activate_override_def control_simps)
  show "execute_override H e k req s = Ok s' \<Longrightarrow> drift H s' = drift H s"
    by (auto simp: execute_override_def control_simps split: prod.splits if_split_asm
        dest!: prior act)
qed

lemma override_keeps_drift:
  "approve_override H e caller wallet tx ent tier s = Ok (u, s') \<Longrightarrow> drift H s' = drift H s"
  by (auto simp: approve_override_def control_simps split: if_splits)

section \<open>Calls with a transfer\<close>

lemma transfer_drift:
  assumes "sac_law H"
  shows "token_transfer H token (h_self H) b amount s = Ok s' \<Longrightarrow> get_xlm_token s = Ok token \<Longrightarrow>
      b \<noteq> h_self H \<Longrightarrow> drift H s' = drift H s - amount"
    "token_transfer H token a (h_self H) amount s = Ok s' \<Longrightarrow> get_xlm_token s = Ok token \<Longrightarrow>
      a \<noteq> h_self H \<Longrightarrow> drift H s' = drift H s + amount"
  using sac_lawD [OF assms, of "h_self H" b] sac_lawD [OF assms, of a "h_self H"]
  by (auto simp: token_transfer_eq_Ok get_xlm_token_def unwrap_eq_Ok drift_def liquid_of_def
      del: callees_write)

lemma staking_keeps_drift:
  assumes "sac_law H"
  shows "stake H e staker amount b s = Ok (u, s') \<Longrightarrow> staker \<noteq> h_self H \<Longrightarrow> drift H s' = drift H s"
    "withdraw H e staker b s = Ok (u, s') \<Longrightarrow> b \<noteq> h_self H \<Longrightarrow> drift H s' = drift H s"
    "emergency_exit H e staker s = Ok (u, s') \<Longrightarrow> staker \<noteq> h_self H \<Longrightarrow> drift H s' = drift H s"
    "pay_stream H e k c b amount s = Ok (x, s') \<Longrightarrow> b \<noteq> h_self H \<Longrightarrow> drift H s' = drift H s"
  by (auto simp: stake_def withdraw_def emergency_exit_def pay_stream_def control_simps
      dest: transfer_drift [OF assms] del: callees_write)

lemma stream_keeps_drift:
  "claim_stream H e k b s = Ok (x, s') \<Longrightarrow> sac_law H \<Longrightarrow> b \<noteq> h_self H \<Longrightarrow> drift H s' = drift H s"
  by (auto simp: claim_stream_def control_simps dest: staking_keeps_drift(4))

section \<open>Calls of the vault\<close>

lemma deposit_drift:
  assumes "vault_deposit H au v [amount] [amount] s = Ok s'" "authorize_deposit H v d m a s = Ok au'"
    and "st_xlm_token s = Some token" "vault_law H token" "v \<noteq> h_self H"
  shows "drift H s' = drift H s - amount"
proof -
  from assms(1) obtain w where w: "h_vault_deposit H au (st_world s) v [amount] [amount] (h_self H) True = Some w"
    and s': "s' = s\<lparr>st_world := w\<rparr>"
    by (auto simp: vault_deposit_eq_Ok)
  from vault_lawD [OF assms(4,5) w] assms(3) show ?thesis
    by (simp add: s' drift_def liquid_of_def)
qed

lemma deployments_keep_drift:
  assumes "st_xlm_token s = Some token" "vault_law H token" "st_vault s \<noteq> Some (h_self H)"
  shows "deploy_to_vault H e amount mn s = Ok (x, s') \<Longrightarrow> drift H s' = drift H s"
    "auto_deploy_liquidity H e s = Ok (x, s') \<Longrightarrow> drift H s' = drift H s"
proof -
  note deposit = deposit_drift [OF _ _ assms(1,2)]
  show "deploy_to_vault H e amount mn s = Ok (x, s') \<Longrightarrow> drift H s' = drift H s"
    using assms(3)
    by (auto simp: deploy_to_vault_def get_vault_def control_simps dest!: deposit del: callees_write)
  show "auto_deploy_liquidity H e s = Ok (x, s') \<Longrightarrow> drift H s' = drift H s"
    using assms(3)
    by (auto simp: auto_deploy_liquidity_def get_vault_def control_simps split: if_split_asm
        dest!: deposit del: callees_write)
qed

lemma withdrawal_drift:
  assumes "vault_withdraw H au v shares mins s = Ok s'"
    and "liquid_balance H s = Ok before" "liquid_balance H s' = Ok later"
  shows "drift H s' = drift H s + (later - before)"
  using assms
  by (auto simp: vault_withdraw_eq_Ok liquid_balance_eq_Ok drift_def liquid_of_def del: callees_write)

lemma redeem_drift:
  "redeem H v shares mn s = Ok ((x, p), s') \<Longrightarrow> drift H s' = drift H s + x"
  by (auto simp: redeem_def control_simps sub_i128_eq_Ok dest: withdrawal_drift split: if_splits
      del: callees_write)

lemma redemptions_keep_drift:
  "provide_liquidity H e shares mn s = Ok (x, s') \<Longrightarrow> drift H s' = drift H s"
  "ensure_liquidity H e s = Ok (x, s') \<Longrightarrow> drift H s' = drift H s"
  by (auto simp: provide_liquidity_def ensure_liquidity_def control_simps dest: redeem_drift
      split: if_splits)

lemma extraction_keeps_drift:
  assumes "extract_yield H e shares mn s = Ok (y, s')" "sac_law H" "st_treasury s \<noteq> Some (h_self H)"
  shows "drift H s' = drift H s"
proof -
  note pay = transfer_drift(1) [OF assms(2)]
  from assms(1,3) show ?thesis
    by (auto simp: extract_yield_def get_treasury_def control_simps sub_i128_eq_Ok
        dest!: redeem_drift pay split: if_splits del: callees_write)
qed

lemma yield_withdrawal_keeps_drift:
  assumes "withdraw_yield H e amount s = Ok (u, s')" "sac_law H" "st_treasury s \<noteq> Some (h_self H)"
  shows "drift H s' = drift H s"
  using assms(1,3)
  by (auto simp: withdraw_yield_def get_treasury_def control_simps dest: transfer_drift(1) [OF assms(2)]
      del: callees_write)

section \<open>Every call and every run\<close>

lemma call_keeps_drift:
  assumes "exec H e c s = Ok (r, s')" "sac_law H" "st_xlm_token s = Some token" "vault_law H token"
    and "outside_party H c s"
  shows "drift H s' = drift H s"
  using assms
  by (cases c)
    (auto simp: returns_eq_Ok dest: quiet_calls_keep_drift unsuspend_keeps_drift claim_calls_keep_drift
      submission_keeps_drift release_keeps_drift cancellation_keeps_drift override_keeps_drift
      staking_keeps_drift stream_keeps_drift deployments_keep_drift redemptions_keep_drift
      extraction_keeps_drift yield_withdrawal_keeps_drift)

text \<open>Every call of a run pays, or is paid by, somebody other than the pool itself.\<close>

fun pays_outside :: "'w host \<Rightarrow> (env \<times> pool_call) list \<Rightarrow> 'w state \<Rightarrow> bool" where
  "pays_outside H [] s = True"
| "pays_outside H ((e, c) # cs) s \<longleftrightarrow> outside_party H c s \<and> pays_outside H cs (state_of (exec H e c s))"

text \<open>The token is set once, by the constructor.\<close>

lemma exec_keeps_token:
  assumes "exec H e c s = Ok (r, s')"
  shows "st_xlm_token s' = st_xlm_token s"
proof -
  have "cfg_token (config_of s') = cfg_token (config_of s)"
  proof (cases "reconfigures c")
    case True
    with admin_call_config [OF assms True] show ?thesis
      by (cases c) (auto simp: reconfigures_def reconfigured_def)
  next
    case False
    with other_call_config [OF assms False] show ?thesis by simp
  qed
  then show ?thesis by (simp add: config_of_def)
qed

lemma run_keeps_drift:
  assumes "run H cs s = Ok (u, s')" "sac_law H" "st_xlm_token s = Some token" "vault_law H token"
    and "pays_outside H cs s"
  shows "drift H s' = drift H s"
  using assms
proof (induction H cs s rule: run.induct)
  case (2 H e c cs s)
  then obtain r s1 where ok: "exec H e c s = Ok (r, s1)" and rest: "run H cs s1 = Ok (u, s')"
    by (auto simp: and_then_eq_Ok)
  with 2 exec_keeps_token [OF ok] have "drift H s' = drift H s1" by (auto simp: state_of_Ok)
  moreover from 2 have "drift H s1 = drift H s" by (auto intro: call_keeps_drift [OF ok])
  ultimately show ?case by simp
qed simp

lemma run_writes: "run H cs s = Ok (u, s') \<Longrightarrow> writes H s s'"
proof (induction H cs s rule: run.induct)
  case (2 H e c cs s)
  then obtain r s1 where "exec H e c s = Ok (r, s1)" and rest: "run H cs s1 = Ok (u, s')"
    by (auto simp: and_then_eq_Ok)
  from exec_writes [OF this(1)] 2 this show ?case by (auto intro: rtranclp_trans)
qed simp

text \<open>
  C5. The published events account for every stroop of liquid XLM. Over any sequence of accepted
  calls, by whatever callers and through every entry point, the log grows at its end only, and
  the pool's liquid XLM changes by exactly what a reader who decodes the published structs (name,
  topics and data fields) adds up: stakes and redemptions in; withdrawals, exits, collections,
  deployments and yield out. No transfer goes unpublished, none is published twice, and no event
  states an amount other than the one moved. (The token keeps \<open>sac_law\<close>, a deposit into the vault takes
  exactly its amount of the pool's own token, and no call pays, or is paid by, the pool itself.)
\<close>

theorem events_account_for_liquid:
  assumes "run H cs s = Ok (u, s')"
    and "sac_law H" "st_xlm_token s = Some token" "vault_law H token" "pays_outside H cs s"
  shows "\<exists>new. st_events s' = st_events s @ new \<and> liquid_of H s' = liquid_of H s + indexed_flow (map published_as new)"
proof -
  from writes_append_events [OF run_writes [OF assms(1)]] obtain new
    where "st_events s' = st_events s @ new" by blast
  with run_keeps_drift [OF assms] show ?thesis by (auto simp: drift_def)
qed

text \<open>Two stakes, a claim, its approval and a collection on the reference host.\<close>

theorem events_account_for_liquid_witness:
  "\<exists>new. st_events (after small_claim_run) = st_events (state_of deployment) @ new \<and>
     liquid_of ref_host (after small_claim_run) = liquid_of ref_host (state_of deployment)
       + indexed_flow (map published_as new)"
proof -
  have ok: "is_ok (run ref_host small_claim_run (state_of deployment))"
    and outside: "pays_outside ref_host small_claim_run (state_of deployment)"
    and token: "st_xlm_token (state_of deployment) = Some 50"
    by code_simp+
  show ?thesis
    unfolding after_def
    by (rule events_account_for_liquid [OF is_ok_result [OF ok] ref_host_sac_law token ref_host_vault_law outside])
qed

end
