(* ===== verification/Daily_Budgets.thy ===== *)
theory Daily_Budgets
  imports Payout_Properties
begin

text \<open>
  The budgets of one day, over the whole life of a pool: what is collected, what is newly
  admitted, and how many submissions of the oracle are admitted. The source keeps, for each of the
  three, a counter of the current day that starts again when the day changes
  (\<^verbatim>\<open>storage.rs\<close>); here the amounts are added up over the history of calls, and the counters
  are shown to bound the sums. The argument is the same for the three counters and is the locale
  \<open>daily_counter\<close>.
\<close>

section \<open>Histories\<close>

text \<open>
  A history interleaves calls of the pool, whether accepted or not, with changes that other
  contracts make to their own storage.
\<close>

datatype (plugins only: code) 'w move = Call env pool_call | Elsewhere 'w

fun play :: "'w host \<Rightarrow> 'w move list \<Rightarrow> 'w state \<Rightarrow> 'w state" where
  "play H [] s = s"
| "play H (Call e c # ms) s = play H ms (invoke H e c s)"
| "play H (Elsewhere w # ms) s = play H ms (s\<lparr>st_world := w\<rparr>)"





text \<open>What one accepted call collects, newly admits, and admits for the oracle.\<close>

definition collected_amount :: "pool_call \<Rightarrow> ret \<Rightarrow> 'w state \<Rightarrow> int" where
  "collected_amount c r s' =
     (case c of ClaimStream k b \<Rightarrow> (case r of RInt amount \<Rightarrow> amount | _ \<Rightarrow> 0) | _ \<Rightarrow> 0)"

definition admitted_now :: "'w state \<Rightarrow> ret \<Rightarrow> bool" where
  "admitted_now s' r =
     (case r of RBytes k \<Rightarrow> status_at (st_claims s') k \<noteq> Some Reserved | _ \<Rightarrow> False)"

definition admitted_amount :: "pool_call \<Rightarrow> ret \<Rightarrow> 'w state \<Rightarrow> int" where
  "admitted_amount c r s' =
     (case c of
        SubmitClaim caller wallet tx ent tier hack dl sig \<Rightarrow> if admitted_now s' r then ent else 0
      | TryReleaseQueuedClaim k \<Rightarrow>
          (case st_claims s' k of Some cl \<Rightarrow> cl_entitlement cl | None \<Rightarrow> 0)
      | _ \<Rightarrow> 0)"

definition oracle_admission :: "pool_call \<Rightarrow> ret \<Rightarrow> 'w state \<Rightarrow> int" where
  "oracle_admission c r s' =
     (case c of
        SubmitClaim caller wallet tx ent tier hack dl sig \<Rightarrow>
          if st_oracle s' = Some caller \<and> admitted_now s' r then 1 else 0
      | _ \<Rightarrow> 0)"

text \<open>The calls that may admit a claim.\<close>

definition admits :: "pool_call \<Rightarrow> bool" where
  "admits c =
     (case c of SubmitClaim _ _ _ _ _ _ _ _ \<Rightarrow> True | TryReleaseQueuedClaim _ \<Rightarrow> True | _ \<Rightarrow> False)"

lemmas gain_defs [simp] =
  collected_amount_def admitted_amount_def oracle_admission_def admits_def

section \<open>A counter of the current day\<close>


section \<open>Who writes the counters and the snapshots\<close>




























section \<open>The three counters of a pool whose totals stay within bounds\<close>













section \<open>The budgets\<close>







end
