(* ===== verification/Panic_Freedom.thy ===== *)
theory Panic_Freedom
  imports Sample_Runs
begin

text \<open>
  Which host traps a caller can run into. The release profile turns every overflow into a trap,
  and the getters of \<^verbatim>\<open>storage.rs\<close> unwrap; both abort the invocation without one of the
  typed errors of \<^verbatim>\<open>error.rs\<close>. \<open>no_panic\<close> says that an outcome is a value, a typed
  error, or a trap that the caller's side explains: a signature that is missing or wrong, or
  another contract that failed. There is one rule for each way the source combines outcomes;
  with them every operation is taken apart into the ranges its arithmetic has to stay in.
\<close>

section \<open>Outcomes without a panic\<close>

fun explained :: "trap \<Rightarrow> bool" where
  "explained AuthFailed = True"
| "explained SignatureMismatch = True"
| "explained CalleeFailed = True"
| "explained _ = False"

definition no_panic :: "'a outcome \<Rightarrow> bool" where
  "no_panic m \<longleftrightarrow> (case m of Trap t \<Rightarrow> explained t | _ \<Rightarrow> True)"

lemma no_panic_simps [simp]:
  "no_panic (Ok x)" "no_panic (Err err)" "no_panic (Trap t) = explained t"
  by (simp_all add: no_panic_def)

lemma no_panic_and_then:
  assumes "no_panic m" "\<And>x. m = Ok x \<Longrightarrow> no_panic (f x)"
  shows "no_panic (and_then m f)"
  using assms by (cases m) simp_all

lemma no_panic_if:
  assumes "b \<Longrightarrow> no_panic m" "\<not> b \<Longrightarrow> no_panic m'"
  shows "no_panic (if b then m else m')"
  using assms by simp

lemma no_panic_case:
  assumes "x = None \<Longrightarrow> no_panic m" "\<And>y. x = Some y \<Longrightarrow> no_panic (f y)"
  shows "no_panic (case x of None \<Rightarrow> m | Some y \<Rightarrow> f y)"
  using assms by (cases x) simp_all

lemmas no_panic_rules = no_panic_simps(1,2) no_panic_and_then no_panic_if no_panic_case

lemma no_panic_option [simp]:
  "no_panic (ok_or x err)" "no_panic (unwrap x) \<longleftrightarrow> x \<noteq> None"
  by (cases x; simp)+

lemma no_panic_guards [simp]:
  "no_panic (require_auth e a)" "no_panic (require_not_paused s)"
  "no_panic (ed25519_verify H pk payload sig)"
  by (simp_all add: require_auth_def require_not_paused_def ed25519_verify_def)

lemma no_panic_callees [simp]:
  "no_panic (token_transfer H token a b amount s)"
  "no_panic (vault_deposit H au v desired mins s)" "no_panic (vault_withdraw H au v shares mins s)"
  by (simp_all add: token_transfer_def vault_deposit_def vault_withdraw_def split: option.splits)

lemma no_panic_checked [simp]: "no_panic (checked p x) \<longleftrightarrow> p x"
  by (simp add: checked_def)

lemma no_panic_arithmetic [simp]:
  "no_panic (add_i128 a b) \<longleftrightarrow> in_i128 (a + b)" "no_panic (sub_i128 a b) \<longleftrightarrow> in_i128 (a - b)"
  "no_panic (mul_i128 a b) \<longleftrightarrow> in_i128 (a * b)"
  "no_panic (div_i128 a b) \<longleftrightarrow> b \<noteq> 0 \<and> in_i128 (a sdiv b)"
  "no_panic (add_u32 a b) \<longleftrightarrow> 0 \<le> a + b \<and> a + b \<le> u32_max"
  "no_panic (add_u64 a b) \<longleftrightarrow> 0 \<le> a + b \<and> a + b \<le> u64_max"
  by (auto simp: add_i128_def sub_i128_def mul_i128_def div_i128_def add_u32_def add_u64_def)

lemma no_panic_returns [simp]: "no_panic (returns f m) = no_panic m"
  by (cases m) (auto simp: returns_def)

section \<open>Ranges\<close>

text \<open>
  A bound on every stored figure: \<open>2^55\<close> stroops, some six thousand times the cap the pool is
  deployed with. The product of two such figures, scaled to basis points, is still in \<open>i128\<close>.
\<close>

definition small :: "int \<Rightarrow> bool" where
  "small x \<longleftrightarrow> \<bar>x\<bar> \<le> 2 ^ 55"

lemma small_0 [simp]: "small 0"
  by (simp add: small_def)

lemma in_i128_abs: "\<bar>x\<bar> \<le> 2 ^ 126 \<Longrightarrow> in_i128 x"
  by (simp add: in_i128_def i128_min_def i128_max_def abs_le_iff)

lemma abs_product_le:
  fixes a b :: int
  assumes "\<bar>a\<bar> \<le> m" "\<bar>b\<bar> \<le> n"
  shows "\<bar>a * b\<bar> \<le> m * n"
  using assms by (simp add: abs_mult mult_mono')

lemma abs_sdiv_le: "\<bar>a sdiv b\<bar> \<le> \<bar>a::int\<bar>"
proof -
  have nonneg: "0 \<le> \<bar>a\<bar> div \<bar>b\<bar>"
    by (cases "b = 0") (simp_all add: pos_imp_zdiv_nonneg_iff)
  have "\<bar>a sdiv b\<bar> = \<bar>sgn a * sgn b\<bar> * (\<bar>a\<bar> div \<bar>b\<bar>)"
    using nonneg by (simp add: signed_divide_int_def abs_mult)
  also have "\<dots> \<le> 1 * (\<bar>a\<bar> div \<bar>b\<bar>)"
    by (rule mult_right_mono [OF _ nonneg]) (simp add: sgn_if)
  also have "\<dots> \<le> \<bar>a\<bar>"
    by (cases "b = 0") (use zdiv_mono2 [of "\<bar>a\<bar>" 1 "\<bar>b\<bar>"] in auto)
  finally show ?thesis .
qed

text \<open>A proportion \<open>a * b / c\<close> does not trap when its product is in range and \<open>c\<close> is not 0.\<close>

lemma mul_div_bound:
  assumes "mul_div_i128 a b c = Ok d" "\<bar>a\<bar> \<le> m" "\<bar>b\<bar> \<le> n"
  shows "\<bar>d\<bar> \<le> m * n"
proof -
  from assms(1) have "d = (a * b) sdiv c" by (simp only: mul_div_i128_eq_Ok)
  with abs_sdiv_le [of "a * b" c] abs_product_le [OF assms(2,3)] show ?thesis by linarith
qed

lemma no_panic_mul_div:
  assumes "\<bar>a\<bar> \<le> m" "\<bar>b\<bar> \<le> n" "m * n \<le> 2 ^ 126" "c \<noteq> 0"
  shows "no_panic (mul_div_i128 a b c)"
proof -
  from abs_product_le [OF assms(1,2)] assms(3) have m: "\<bar>a * b\<bar> \<le> 2 ^ 126" by linarith
  with abs_sdiv_le [of "a * b" c] have d: "\<bar>(a * b) sdiv c\<bar> \<le> 2 ^ 126" by linarith
  from in_i128_abs [OF m] in_i128_abs [OF d] assms(4) show ?thesis
    by (auto simp: mul_div_i128_def mul_i128_eq_Ok intro!: no_panic_and_then simp del: abs_mult)
qed

text \<open>A part of a whole: the proportion does not exceed the figure it is taken of.\<close>

lemma mul_div_part:
  assumes "mul_div_i128 a b c = Ok d" "0 \<le> b" "b \<le> c" "0 < c"
  shows "\<bar>d\<bar> \<le> \<bar>a\<bar>"
proof -
  from assms(1) have d: "d = (a * b) sdiv c" by (simp only: mul_div_i128_eq_Ok)
  have "\<bar>a\<bar> * b div c \<le> \<bar>a\<bar> * c div c"
    using assms(2-4) by (intro zdiv_mono1 mult_left_mono) auto
  then have le: "\<bar>a\<bar> * b div c \<le> \<bar>a\<bar>" using assms(4) by simp
  have nonneg: "0 \<le> \<bar>a\<bar> * b div c" using assms(2,4) by (simp add: pos_imp_zdiv_nonneg_iff)
  have "\<bar>d\<bar> = \<bar>sgn (a * b) * sgn c\<bar> * (\<bar>a\<bar> * b div c)"
    using assms(2,4) nonneg by (simp add: d signed_divide_int_def abs_mult)
  also have "\<dots> \<le> 1 * (\<bar>a\<bar> * b div c)"
    by (rule mult_right_mono [OF _ nonneg]) (simp add: sgn_if)
  finally show ?thesis using le by simp
qed

section \<open>Configured, bounded states\<close>

definition configured :: "'w state \<Rightarrow> bool" where
  "configured s \<longleftrightarrow>
     st_admin s \<noteq> None \<and> st_oracle s \<noteq> None \<and> st_co_signer s \<noteq> None \<and> st_xlm_token s \<noteq> None \<and>
     (case st_pool_cap s of None \<Rightarrow> False | Some cap \<Rightarrow> small cap)"

definition totals_bounded :: "'w state \<Rightarrow> bool" where
  "totals_bounded s \<longleftrightarrow>
     small (get_total_staked s) \<and> small (get_total_allocated s) \<and>
     small (get_total_deployed_xlm s) \<and> small (get_total_deployed_shares s) \<and>
     small (get_total_extracted_yield s) \<and> 0 \<le> get_deploy_bps s \<and> get_deploy_bps s \<le> 10000 \<and>
     0 \<le> get_total_stakers s \<and> get_total_stakers s \<le> 2 ^ 31 \<and>
     small (unwrap_or (st_daily_outflow s) 0) \<and> small (unwrap_or (st_daily_entitlement_total s) 0) \<and>
     0 \<le> unwrap_or (st_daily_claim_count s) 0 \<and> unwrap_or (st_daily_claim_count s) 0 \<le> 2 ^ 31"

definition stake_bounded :: "stake_record \<Rightarrow> bool" where
  "stake_bounded r \<longleftrightarrow>
     small (sr_amount r) \<and> 0 \<le> sr_staked_at_timestamp r \<and>
     0 \<le> sr_staked_at_ledger r \<and> sr_staked_at_ledger r \<le> 2 ^ 31"

definition claim_bounded :: "claim \<Rightarrow> bool" where
  "claim_bounded c \<longleftrightarrow>
     small (cl_entitlement c) \<and> small (cl_streamed c) \<and> small (cl_stake c) \<and>
     small (cl_total_staked_snapshot c) \<and> 0 \<le> cl_cooldown_ends_ledger c \<and>
     0 \<le> cl_hack_timestamp c \<and> cl_hack_timestamp c \<le> 2 ^ 62"

definition records_bounded :: "'w state \<Rightarrow> bool" where
  "records_bounded s \<longleftrightarrow>
     (\<forall>k r. get_stake s k = Some r \<longrightarrow> stake_bounded r) \<and>
     (\<forall>k c. get_claim s k = Some c \<longrightarrow> claim_bounded c) \<and>
     (\<forall>k p. st_points s k = Some p \<longrightarrow> small p)"

text \<open>
  What the pool holds of its token and of its vault's shares. A call reads these holdings before it
  calls the vault and again after it, so the bound is on both: on the present world, and on the worlds
  in which the vault can answer the one deposit or withdrawal of deployed shares a call makes.
\<close>

definition holdings_small :: "'w host \<Rightarrow> 'w state \<Rightarrow> 'w \<Rightarrow> bool" where
  "holdings_small H s w \<longleftrightarrow>
     (\<forall>token. st_xlm_token s = Some token \<longrightarrow> small (h_token_balance H w token (h_self H))) \<and>
     (\<forall>v. st_vault s = Some v \<longrightarrow> small (h_vault_balance H w v (h_self H)))"

definition vault_answer :: "'w host \<Rightarrow> 'w state \<Rightarrow> 'w \<Rightarrow> bool" where
  "vault_answer H s w \<longleftrightarrow>
     (\<exists>v au. st_vault s = Some v \<and>
        ((\<exists>amount. h_vault_deposit H au (st_world s) v [amount] [amount] (h_self H) True = Some w) \<or>
         (\<exists>shares mn. 0 < shares \<and> shares \<le> get_total_deployed_shares s \<and>
            h_vault_withdraw H au (st_world s) v shares [mn] (h_self H) = Some w)))"

definition holdings_bounded :: "'w host \<Rightarrow> 'w state \<Rightarrow> bool" where
  "holdings_bounded H s \<longleftrightarrow>
     holdings_small H s (st_world s) \<and> (\<forall>w. vault_answer H s w \<longrightarrow> holdings_small H s w)"

text \<open>Ledger numbers and timestamps of the next few hundred years.\<close>

definition early :: "env \<Rightarrow> bool" where
  "early e \<longleftrightarrow> 0 \<le> e_seq e \<and> e_seq e \<le> 2 ^ 31 \<and> 0 \<le> e_time e \<and> e_time e \<le> 2 ^ 62"

lemma stake_boundedI [dest]: "get_stake s k = Some r \<Longrightarrow> records_bounded s \<Longrightarrow> stake_bounded r"
  by (simp add: records_bounded_def)

lemma claim_boundedI [dest]: "get_claim s k = Some c \<Longrightarrow> records_bounded s \<Longrightarrow> claim_bounded c"
  by (simp add: records_bounded_def)

lemma no_panic_getters [simp]:
  assumes "configured s"
  shows "no_panic (get_admin s)" "no_panic (get_oracle s)" "no_panic (get_co_signer s)"
    "no_panic (get_xlm_token s)" "no_panic (get_pool_cap s)"
  using assms by (auto simp: configured_def read_defs split: option.splits)

lemma configured_writes [simp]:
  "configured (publish ev s) = configured s" "configured (bump_instance_ttl H e s) = configured s"
  "configured (set_total_staked v s) = configured s"
  "configured (set_total_allocated v s) = configured s"
  "configured (set_total_stakers v s) = configured s"
  "configured (set_daily_outflow d v s) = configured s"
  "configured (set_daily_entitlement d v n s) = configured s"
  "configured (set_total_deployed_shares v s) = configured s"
  "configured (set_total_deployed_xlm v s) = configured s"
  "configured (set_total_extracted_yield v s) = configured s"
  "configured (set_stake H e k r s) = configured s" "configured (set_claim H e j c s) = configured s"
  "configured (set_points_balance H e k v s) = configured s"
  "configured (s\<lparr>st_world := w\<rparr>) = configured s"
  by (simp_all add: configured_def write_defs)

lemma reads_after_writes [simp]:
  "get_total_staked (set_stake H e k r s) = get_total_staked s"
  "get_total_staked (set_total_allocated v s) = get_total_staked s"
  "get_total_staked (set_points_balance H e k v s) = get_total_staked s"
  "get_points_balance (set_stake H e k r s) = get_points_balance s"
  "get_total_stakers (set_stake H e k r s) = get_total_stakers s"
  "get_total_stakers (set_total_staked v s) = get_total_stakers s"
  "get_total_stakers (set_total_allocated v s) = get_total_stakers s"
  "get_total_stakers (set_points_balance H e k v s) = get_total_stakers s"
  "get_total_allocated (set_daily_entitlement d v n s) = get_total_allocated s"
  "get_total_allocated (set_total_allocated v s) = v"
  "get_points_balance (set_total_allocated v s) = get_points_balance s"
  "get_stake (set_total_allocated v s) = get_stake s"
  "get_claim (set_stake H e j r s) = get_claim s"
  "get_total_deployed_shares (s\<lparr>st_world := w\<rparr>) = get_total_deployed_shares s"
  "get_total_staked (s\<lparr>st_world := w\<rparr>) = get_total_staked s"
  "get_total_extracted_yield (s\<lparr>st_world := w\<rparr>) = get_total_extracted_yield s"
  "get_total_extracted_yield (set_total_deployed_shares v s) = get_total_extracted_yield s"
  "get_total_extracted_yield (set_total_deployed_xlm v s) = get_total_extracted_yield s"
  "get_total_extracted_yield (set_total_staked v s) = get_total_extracted_yield s"
  "get_total_extracted_yield (publish ev s) = get_total_extracted_yield s"
  by (simp_all add: read_defs write_defs fun_eq_iff)

section \<open>The shared helpers\<close>

lemma smallD: "small x \<Longrightarrow> \<bar>x\<bar> \<le> 2 ^ 55"
  by (simp add: small_def)

lemma in_i128_sums:
  "small a \<Longrightarrow> small b \<Longrightarrow> in_i128 (a + b)" "small a \<Longrightarrow> small b \<Longrightarrow> in_i128 (a - b)"
  by (simp_all add: small_def in_i128_def i128_min_def i128_max_def abs_le_iff)

lemma pool_cap_small: "configured s \<Longrightarrow> get_pool_cap s = Ok cap \<Longrightarrow> small cap"
  by (auto simp: configured_def get_pool_cap_def split: option.splits)

lemma stake_limits_no_panic [simp]:
  "configured s \<Longrightarrow> no_panic (min_stake s)" "configured s \<Longrightarrow> no_panic (max_stake s)"
  by (auto simp: min_stake_def max_stake_def bps_defs dest: pool_cap_small [THEN smallD]
      intro!: no_panic_rules no_panic_mul_div [where m = "2 ^ 55" and n = 125])

lemma max_stake_bound:
  assumes "max_stake s = Ok mx" "configured s"
  shows "\<bar>mx\<bar> \<le> 2 ^ 94"
proof -
  from assms(1) obtain cap where cap: "get_pool_cap s = Ok cap"
    and mx: "mul_div_i128 cap 125 10000 = Ok mx"
    by (auto simp: max_stake_def and_then_eq_Ok bps_defs)
  from mul_div_bound [OF mx smallD [OF pool_cap_small [OF assms(2) cap]], of 125]
  show ?thesis by simp
qed

lemma points_base_bound: "0 \<le> d \<Longrightarrow> 0 \<le> points_base d \<and> points_base d \<le> 200 * d"
  by (auto simp: points_base_def Let_def min_def)

lemma staked_days_bound:
  assumes "early e" "stake_bounded r"
  shows "0 \<le> staked_days e r \<and> staked_days e r \<le> 2 ^ 31"
proof -
  let ?d = "saturating_sub_u32 (e_seq e) (sr_staked_at_ledger r)"
  have "0 \<le> ?d" "?d \<le> 2 ^ 31"
    using assms by (auto simp: early_def stake_bounded_def saturating_sub_u32_def)
  moreover have "?d div 17280 \<le> ?d" using zdiv_mono2 [of ?d 1 17280] \<open>0 \<le> ?d\<close> by simp
  ultimately show ?thesis
    by (auto simp: staked_days_def LEDGERS_PER_DAY_def pos_imp_zdiv_nonneg_iff)
qed

lemma base_points_bound: "early e \<Longrightarrow> stake_bounded r \<Longrightarrow> \<bar>points_base (staked_days e r)\<bar> \<le> 2 ^ 39"
  using points_base_bound [of "staked_days e r"] staked_days_bound [of e r] by auto

lemma points_no_panic [simp]:
  assumes "configured s" "early e" "stake_bounded r"
  shows "no_panic (compute_points_for_record e r s)"
proof -
  from assms(3) have amount: "\<bar>sr_amount r\<bar> \<le> 2 ^ 55" by (simp add: stake_bounded_def small_def)
  show ?thesis
    using assms(1) no_panic_mul_div [OF base_points_bound [OF assms(2,3)] amount]
    unfolding compute_points_for_record_def Let_def by (auto intro!: no_panic_rules)
qed

lemma points_bound:
  assumes "compute_points_for_record e r s = Ok p" "early e" "stake_bounded r"
  shows "\<bar>p\<bar> \<le> 2 ^ 94"
proof -
  from assms(3) have amount: "\<bar>sr_amount r\<bar> \<le> 2 ^ 55" by (simp add: stake_bounded_def small_def)
  show ?thesis
    using assms(1) mul_div_bound [OF _ base_points_bound [OF assms(2,3)] amount]
    by (auto simp: compute_points_for_record_def Let_def and_then_eq_Ok split: if_splits)
qed

lemma stored_points_no_panic [simp]:
  assumes "configured s" "early e" "records_bounded s"
  shows "no_panic (compute_points e k s)"
  using assms by (auto simp: compute_points_def split: option.splits)

lemma stored_points_bound:
  "compute_points e k s = Ok p \<Longrightarrow> early e \<Longrightarrow> records_bounded s \<Longrightarrow> \<bar>p\<bar> \<le> 2 ^ 94"
  by (auto simp: compute_points_def dest: points_bound split: option.splits)

lemma wide_sum: "small a \<Longrightarrow> \<bar>b\<bar> \<le> 2 ^ 94 \<Longrightarrow> in_i128 (a + b)"
  by (simp add: small_def in_i128_def i128_min_def i128_max_def abs_le_iff)

lemma bank_points_cases:
  "bank_points H e k p s = Ok s' \<Longrightarrow> s' = s \<or> (\<exists>v. s' = set_points_balance H e k v s)"
  by (auto simp: bank_points_def and_then_eq_Ok split: if_splits)

lemma liquidity_no_panic [simp]:
  "configured s \<Longrightarrow> no_panic (liquid_balance H s)"
  "configured s \<Longrightarrow> no_panic (require_liquidity H amount s)"
  by (auto simp: require_liquidity_def liquid_balance_def intro!: no_panic_rules)

section \<open>Staking\<close>

lemma totals_small [simp]:
  assumes "totals_bounded s"
  shows "small (get_total_staked s)" "small (get_total_allocated s)"
    "small (get_total_deployed_xlm s)" "small (get_total_deployed_shares s)"
    "small (get_total_extracted_yield s)" "small (get_daily_outflow day s)"
    "small (fst (get_daily_entitlement day s))"
  using assms
  by (simp_all add: totals_bounded_def get_daily_outflow_def get_daily_entitlement_def)

lemma points_small [simp]: "records_bounded s \<Longrightarrow> small (get_points_balance s k)"
  by (cases "st_points s k") (simp_all add: records_bounded_def get_points_balance_def)

lemma stakers_count [simp]:
  assumes "totals_bounded s"
  shows "0 \<le> get_total_stakers s + 1" "get_total_stakers s + 1 \<le> u32_max"
  using assms unfolding totals_bounded_def u32_max_def by auto

lemma stake_no_panic:
  assumes "configured s" "totals_bounded s"
  shows "no_panic (stake H e staker amount b s)"
proof -
  have total: "in_i128 (get_total_staked s + amount)"
    if "max_stake s = Ok mx" "\<not> amount \<le> 0" "\<not> mx < amount" for mx
  proof (rule wide_sum [OF totals_small(1) [OF assms(2)]])
    show "\<bar>amount\<bar> \<le> 2 ^ 94" using max_stake_bound [OF that(1) assms(1)] that(2,3) by linarith
  qed
  show ?thesis
    unfolding stake_def Let_def
    by (intro no_panic_rules) (simp_all add: assms total)
qed

lemma set_beneficiary_no_panic: "configured s \<Longrightarrow> no_panic (set_beneficiary H e staker b s)"
  unfolding set_beneficiary_def by (intro no_panic_rules) simp_all

lemma bank_points_no_panic [simp]:
  "small (get_points_balance s k) \<Longrightarrow> \<bar>p\<bar> \<le> 2 ^ 94 \<Longrightarrow> no_panic (bank_points H e k p s)"
  unfolding bank_points_def by (intro no_panic_rules) (simp_all add: wide_sum)

lemma found_bounded [dest!]:
  "ok_or (get_stake s k) err = Ok r \<Longrightarrow> get_stake s k = Some r"
  "ok_or (get_claim s j) err = Ok c \<Longrightarrow> get_claim s j = Some c"
  by (simp_all add: ok_or_eq_Ok)

lemma withdraw_no_panic:
  assumes "configured s" "totals_bounded s" "records_bounded s" "early e"
  shows "no_panic (withdraw H e staker b s)"
  unfolding withdraw_def Let_def
  by (intro no_panic_rules)
    (auto simp: assms in_i128_sums stake_bounded_def
      dest: stake_boundedI [OF _ assms(3)]
      dest!: bank_points_cases stored_points_bound [OF _ assms(4,3)])

lemma emergency_exit_no_panic:
  assumes "configured s" "totals_bounded s" "records_bounded s"
  shows "no_panic (emergency_exit H e staker s)"
  unfolding emergency_exit_def Let_def
  by (intro no_panic_rules)
    (auto simp: assms in_i128_sums stake_bounded_def dest: stake_boundedI [OF _ assms(3)])

section \<open>Administration\<close>

lemma early_deadlines [simp]:
  assumes "early e"
  shows "0 \<le> e_seq e + APPROVE_WINDOW_LEDGERS" "e_seq e + APPROVE_WINDOW_LEDGERS \<le> u32_max"
    "0 \<le> e_seq e + COOLDOWN_LEDGERS" "e_seq e + COOLDOWN_LEDGERS \<le> u32_max"
    "0 \<le> e_seq e + COOLDOWN_LEDGERS + VESTING_LEDGERS"
    "e_seq e + COOLDOWN_LEDGERS + VESTING_LEDGERS \<le> u32_max"
    "0 \<le> e_seq e + PENALTY_LOCK_LEDGERS" "e_seq e + PENALTY_LOCK_LEDGERS \<le> u32_max"
    "0 \<le> e_time e + MAX_APPROVAL_WINDOW_SECONDS" "e_time e + MAX_APPROVAL_WINDOW_SECONDS \<le> u64_max"
  using assms unfolding early_def time_defs u32_max_def u64_max_def by auto

lemma administration_no_panic:
  assumes "configured s"
  shows "no_panic (transfer_admin H e a s)" "no_panic (pause e s)" "no_panic (unpause e s)"
    "no_panic (suspend_stake H e a s)" "no_panic (set_pool_cap H e cap s)"
    "no_panic (set_oracle H e a s)" "no_panic (set_oracle_pubkey H e pk s)"
    "no_panic (set_oracle_identity H e a pk s)" "no_panic (set_co_signer H e a s)"
    "no_panic (set_vault H e a s)" "no_panic (set_treasury H e a s)"
    "no_panic (set_deploy_bps H e bps s)"
  unfolding transfer_admin_def pause_def unpause_def suspend_stake_def set_pool_cap_def
    set_oracle_def set_oracle_pubkey_def set_oracle_identity_def set_co_signer_def set_vault_def
    set_treasury_def set_deploy_bps_def
  by (intro no_panic_rules; simp add: assms)+

lemma unsuspend_no_panic:
  assumes "configured s" "early e"
  shows "no_panic (unsuspend_stake H e wallet k s)"
  unfolding unsuspend_stake_def Let_def
  by (intro no_panic_rules; simp add: assms)

section \<open>Claims\<close>

lemma signature_no_panic [simp]:
  "early e \<Longrightarrow> no_panic (verify_oracle_signature H e wallet tx ent tier hack dl sig s)"
  unfolding verify_oracle_signature_def Let_def by (intro no_panic_rules; simp)

lemma tier_ratio_no_panic [simp]: "no_panic (tier_ratio tier)"
  by (simp add: tier_ratio_def)

lemma tier_cap_no_panic [simp]:
  assumes "stake_bounded r"
  shows "no_panic (tier_cap (sr_amount r) tier)"
proof -
  from assms have a: "\<bar>sr_amount r\<bar> \<le> 2 ^ 55" by (simp add: stake_bounded_def small_def)
  have "\<bar>sr_amount r * k\<bar> \<le> 2 ^ 59" "\<bar>sr_amount r * k * 10000\<bar> \<le> 2 ^ 73" if "5 \<le> k" "k \<le> 15" for k
    using abs_product_le [OF a, of k 15] abs_product_le [OF abs_product_le [OF a, of k 15], of 10000 10000] that
    by auto
  then have "in_i128 (sr_amount r * k)" "in_i128 (sr_amount r * k * 10000)"
    "in_i128 ((sr_amount r * k * 10000) sdiv 10000)" if "5 \<le> k" "k \<le> 15" for k
    using that abs_sdiv_le [of "sr_amount r * k * 10000" 10000]
    by (fastforce intro!: in_i128_abs)+
  then show ?thesis
    unfolding tier_cap_def TIER_COVERAGE_BPS_def TIER_BPS_DENOMINATOR_def
    by (intro no_panic_rules) (auto simp: mul_i128_eq_Ok dest: tier_ratio_pos)
qed

lemma tier_cap_bound:
  assumes "tier_cap (sr_amount r) tier = Ok cap" "stake_bounded r"
  shows "\<bar>cap\<bar> \<le> 2 ^ 94"
proof -
  from assms(1) obtain k where k: "5 \<le> k" "k \<le> 15" and cap: "cap = sr_amount r * k"
    by (auto simp: tier_cap_eq_Ok dest: tier_ratio_pos)
  from assms(2) have "\<bar>sr_amount r\<bar> \<le> 2 ^ 55" by (simp add: stake_bounded_def small_def)
  from abs_product_le [OF this, of k 15] k show ?thesis by (simp add: cap)
qed

lemma stress_cap_no_panic [simp]:
  assumes "small (get_total_staked s)" "small (get_total_allocated s)"
  shows "no_panic (stress_cap s)"
  unfolding stress_cap_def Let_def BPS_DENOMINATOR_def
  by (intro no_panic_rules no_panic_mul_div [OF smallD, where n = 10000]) (auto simp: assms)

lemma outflow_bps_no_panic [simp]:
  "small (get_total_allocated s) \<Longrightarrow> no_panic (dynamic_outflow_bps base s)"
  unfolding dynamic_outflow_bps_def Let_def BPS_DENOMINATOR_def
  by (intro no_panic_rules no_panic_mul_div [OF smallD, where n = 10000]) auto

lemma activation_no_panic:
  assumes "configured s" "early e" "stake_bounded r"
    and "small (get_points_balance s (cl_wallet c))" "small (get_total_staked s)"
  shows "no_panic (activate_claim H e r c s)"
  unfolding activate_claim_def Let_def
  using assms(3)
  by (intro no_panic_rules)
    (auto simp: assms in_i128_sums add_u32_eq_Ok stake_bounded_def
      intro: wide_sum [OF assms(4) points_bound [OF _ assms(2,3)]])

lemma no_panic_pair:
  "(\<And>x y. p = (x, y) \<Longrightarrow> no_panic (f x y)) \<Longrightarrow> no_panic (case p of (x, y) \<Rightarrow> f x y)"
  by (cases p) simp

lemma no_panic_nested_pair:
  "(\<And>x y. p = (x, y) \<Longrightarrow> no_panic (f x y s)) \<Longrightarrow> no_panic ((case p of (x, y) \<Rightarrow> f x y) s)"
  by (cases p) simp

lemma admission_no_panic [simp]:
  assumes "totals_bounded s" "early e" "\<bar>ent\<bar> \<le> 2 ^ 94"
  shows "no_panic (admit_claim H e wallet tx k ent tier hack r counted s)"
proof -
  have count: "0 \<le> n + 1" "n \<le> u32_max" "n + 1 \<le> u32_max" "0 \<le> n"
    if "get_daily_entitlement d s = (t, n)" for d t n
    using assms(1) that unfolding totals_bounded_def u32_max_def
    by (auto simp: get_daily_entitlement_def split: if_splits)
  have sums: "in_i128 (t + ent)" if "get_daily_entitlement d s = (t, n)" for d t n
    using totals_small(7) [OF assms(1), of d] assms(3) that by (auto intro: wide_sum)
  show ?thesis
    unfolding admit_claim_def Let_def
    by (intro no_panic_rules no_panic_pair)
      (auto simp: assms wide_sum [OF totals_small(2) [OF assms(1)] assms(3)] intro: sums dest: count)
qed

lemma submission_checks_no_panic [simp]:
  assumes "configured s" "records_bounded s" "early e"
  shows "no_panic (submit_checks H e caller wallet tx ent tier hack dl sig s)"
proof -
  have window: "0 \<le> hack + CLAIM_WINDOW_SECONDS \<and> hack + CLAIM_WINDOW_SECONDS \<le> u64_max"
    if "stake_bounded r" "\<not> e_time e < hack" "\<not> hack < sr_staked_at_timestamp r" for r
    using assms(3) that unfolding early_def stake_bounded_def time_defs u64_max_def by auto
  show ?thesis
    unfolding submit_checks_def Let_def
    by (intro no_panic_rules) (auto simp: assms dest: stake_boundedI [OF _ assms(2)] window)
qed

lemma submitted_bound:
  assumes "submit_checks H e caller wallet tx ent tier hack dl sig s = Ok r" "records_bounded s"
  shows "\<bar>ent\<bar> \<le> 2 ^ 94"
proof -
  from assms(1) obtain cap where r: "get_stake s wallet = Some r" and ent: "0 < ent" "ent \<le> cap"
    and cap: "tier_cap (sr_amount r) tier = Ok cap"
    by (auto simp: submit_checks_def and_then_eq_Ok ok_or_eq_Ok Let_def split: if_splits)
  from tier_cap_bound [OF cap stake_boundedI [OF r assms(2)]] ent show ?thesis by linarith
qed

lemma submission_no_panic:
  assumes "configured s" "totals_bounded s" "records_bounded s" "early e"
  shows "no_panic (submit_claim H e caller wallet tx ent tier hack dl sig s)"
proof -
  have "no_panic (cannot_admit_now e caller ent s)" if "\<bar>ent\<bar> \<le> 2 ^ 94"
  proof -
    have sums: "in_i128 (t + ent)" if "get_daily_entitlement d s = (t, n)" for d t n
      using totals_small(7) [OF assms(2), of d] \<open>\<bar>ent\<bar> \<le> 2 ^ 94\<close> that by (auto intro: wide_sum)
    show ?thesis
      unfolding cannot_admit_now_def Let_def
      by (intro no_panic_rules no_panic_pair) (auto simp: assms wide_sum [OF totals_small(2) [OF assms(2)] that] intro: sums)
  qed
  then show ?thesis
    unfolding submit_claim_def Let_def
    by (intro no_panic_rules) (auto simp: assms dest!: submitted_bound [OF _ assms(3)])
qed

lemma release_no_panic:
  assumes "totals_bounded s" "records_bounded s" "early e"
  shows "no_panic (try_release_queued_claim H e k s)"
proof -
  have ent: "\<bar>cl_entitlement c\<bar> \<le> 2 ^ 94" if "get_claim s k = Some c" for c
    using claim_boundedI [OF that assms(2)] by (simp add: claim_bounded_def small_def)
  have alloc: "in_i128 (get_total_allocated s + cl_entitlement c)" if "get_claim s k = Some c" for c
    by (rule wide_sum [OF totals_small(2) [OF assms(1)] ent [OF that]])
  have sums: "in_i128 (t + cl_entitlement c)"
    if "get_claim s k = Some c" "get_daily_entitlement d s = (t, n)" for c d t n
    using totals_small(7) [OF assms(1), of d] ent [OF that(1)] that by (auto intro: wide_sum)
  show ?thesis
    unfolding try_release_queued_claim_def Let_def
    by (intro no_panic_rules no_panic_pair)
      (auto simp: assms intro: sums alloc dest: ent)
qed

lemma unlock_no_panic:
  assumes "records_bounded s" "early e"
  shows "no_panic (unlock_pending_claim H e k s)"
proof -
  have gate: "0 \<le> sr_staked_at_ledger r + TIME_GATE_LEDGERS \<and>
      sr_staked_at_ledger r + TIME_GATE_LEDGERS \<le> u32_max" if "get_stake s w = Some r" for w r
    using stake_boundedI [OF that assms(1)] unfolding stake_bounded_def time_defs u32_max_def by auto
  show ?thesis
    unfolding unlock_pending_claim_def Let_def
    by (intro no_panic_rules) (auto simp: assms dest: gate)
qed

lemma expiry_no_panic:
  assumes "records_bounded s"
  shows "no_panic (expire_queued_claim H e k s)" "no_panic (expire_pending_approval H e k s)"
    "no_panic (expire_stale_claim H e k s)"
proof -
  have window: "0 \<le> cl_hack_timestamp c + CLAIM_WINDOW_SECONDS \<and>
      cl_hack_timestamp c + CLAIM_WINDOW_SECONDS \<le> u64_max" "small (cl_entitlement c)"
      "small (cl_streamed c)" if "get_claim s k = Some c" for c
    using claim_boundedI [OF that assms] unfolding claim_bounded_def time_defs u64_max_def by auto
  then show "no_panic (expire_queued_claim H e k s)" "no_panic (expire_pending_approval H e k s)"
    "no_panic (expire_stale_claim H e k s)"
    unfolding expire_queued_claim_def expire_pending_approval_def expire_stale_claim_def Let_def
    by (intro no_panic_rules; auto intro: in_i128_sums)+
qed

lemma approval_no_panic:
  assumes "configured s" "totals_bounded s" "records_bounded s" "early e"
  shows "no_panic (approve_claim H e k s)"
  unfolding approve_claim_def Let_def
  by (intro no_panic_rules no_panic_pair activation_no_panic)
    (auto simp: assms dest: stake_boundedI [OF _ assms(3)])

lemma revocation_no_panic:
  "configured s \<Longrightarrow> early e \<Longrightarrow>
   no_panic (revoke_approval H e caller wallet tx ent tier hack dl s)"
  "configured s \<Longrightarrow> no_panic (cancel_pending_override H e caller wallet tx s)"
  unfolding revoke_approval_def cancel_pending_override_def Let_def
  by (intro no_panic_rules; simp)+

subsection \<open>Streaming and cancellation\<close>

lemma elapsed_bound:
  assumes "early e" "claim_bounded c"
  shows "\<bar>saturating_sub_u32 (min (e_seq e) (cl_vesting_ends_ledger c)) (cl_cooldown_ends_ledger c)\<bar>
    \<le> 2 ^ 31"
  using assms by (auto simp: early_def claim_bounded_def saturating_sub_u32_def)

lemma vested_no_panic:
  assumes "early e" "claim_bounded c"
  shows "no_panic (vested_total e c)" "vested_total e c = Ok v \<Longrightarrow> \<bar>v\<bar> \<le> 2 ^ 86"
proof -
  from assms(2) have ent: "\<bar>cl_entitlement c\<bar> \<le> 2 ^ 55" by (simp add: claim_bounded_def small_def)
  show "no_panic (vested_total e c)"
    unfolding vested_total_def Let_def
    by (rule no_panic_mul_div [OF ent elapsed_bound [OF assms]]) (simp_all add: time_defs)
  show "\<bar>v\<bar> \<le> 2 ^ 86" if "vested_total e c = Ok v"
    using mul_div_bound [OF that [unfolded vested_total_def Let_def] ent elapsed_bound [OF assms]]
    by simp
qed

lemma outflow_no_panic:
  assumes "totals_bounded s" "claim_bounded c"
  shows "no_panic (available_today e c s)"
proof -
  have base: "\<bar>max (get_total_staked s) (cl_total_staked_snapshot c)\<bar> \<le> 2 ^ 55"
    using totals_small(1) [OF assms(1)] assms(2) by (simp add: claim_bounded_def small_def max_def)
  have bps: "\<bar>bps\<bar> \<le> 500" if "dynamic_outflow_bps b s = Ok bps" for b bps
    using that by (auto simp: dynamic_outflow_bps_def and_then_eq_Ok Let_def split: if_splits)
  show ?thesis
    unfolding available_today_def Let_def
    by (intro no_panic_rules no_panic_mul_div [OF base bps]) (auto simp: assms BPS_DENOMINATOR_def)
qed

lemma payment_no_panic:
  assumes "configured s" "totals_bounded s" "claim_bounded c" "\<bar>amount\<bar> \<le> 2 ^ 94"
  shows "no_panic (pay_stream H e k c b amount s)"
proof -
  have "small (cl_streamed c)" using assms(3) by (simp add: claim_bounded_def)
  note sums = wide_sum [OF this assms(4)] wide_sum [OF totals_small(6) [OF assms(2)] assms(4)]
  show ?thesis
    unfolding pay_stream_def Let_def
    by (intro no_panic_rules) (auto simp: assms sums)
qed

lemma stream_no_panic:
  assumes "configured s" "totals_bounded s" "records_bounded s" "early e"
  shows "no_panic (claim_stream H e k b s)"
proof -
  have c: "claim_bounded c" if "get_claim s k = Some c" for c
    by (rule claim_boundedI [OF that assms(3)])
  have due: "in_i128 (v - cl_streamed c) \<and> \<bar>v - cl_streamed c\<bar> \<le> 2 ^ 94"
    if "get_claim s k = Some c" "vested_total e c = Ok v" for c v
    using vested_no_panic(2) [OF assms(4) c [OF that(1)] that(2)] c [OF that(1)]
    unfolding claim_bounded_def small_def in_i128_def i128_min_def i128_max_def by auto
  have paid: "claimable \<le> 2 ^ 94"
    if "get_claim s k = Some c" "vested_total e c = Ok v" "sub_i128 v (cl_streamed c) = Ok claimable"
    for c v claimable
    using due [OF that(1,2)] that(3) by (auto simp: sub_i128_eq_Ok)
  show ?thesis
    unfolding claim_stream_def Let_def
    by (intro no_panic_rules payment_no_panic)
      (auto simp: assms ok_or_eq_Ok dest: c due
        intro: vested_no_panic(1) outflow_no_panic c min.coboundedI1 [OF paid [simplified]] simp del: min_le_iff_disj)
qed

lemma cancellation_no_panic:
  assumes "configured s" "totals_bounded s" "records_bounded s" "early e"
  shows "no_panic (cancel_claim H e k s)"
proof -
  have c: "small (cl_entitlement c) \<and> small (cl_streamed c) \<and> small (cl_stake c)"
    if "get_claim s k = Some c" for c
    using claim_boundedI [OF that assms(3)] by (simp add: claim_bounded_def)
  show ?thesis
    unfolding cancel_claim_def Let_def
    by (intro no_panic_rules no_panic_pair) (auto simp: assms dest!: c intro: in_i128_sums)
qed

subsection \<open>Overrides\<close>

lemma prior_no_panic [simp]:
  assumes "records_bounded s"
  shows "no_panic (release_prior (get_claim s k) s)"
proof -
  have c: "small (cl_entitlement c) \<and> small (cl_streamed c)" if "get_claim s k = Some c" for c
    using claim_boundedI [OF that assms] by (simp add: claim_bounded_def)
  show ?thesis
    unfolding release_prior_def Let_def
    by (intro no_panic_rules) (auto dest!: c intro: in_i128_sums)
qed

text \<open>After the release of a prior reservation only the allocation may have changed.\<close>

lemma after_release:
  assumes "release_prior (get_claim s k) s = Ok (streamed, s1)" "totals_bounded s" "records_bounded s"
  shows "\<bar>get_total_allocated s1\<bar> \<le> 2 ^ 57 \<and> (\<exists>v. s1 = s \<or> s1 = set_total_allocated v s)"
proof -
  have within: "\<bar>saturating_sub_i128 (get_total_allocated s) u\<bar> \<le> 2 ^ 57"
    if "sub_i128 (cl_entitlement c) (cl_streamed c) = Ok u" "get_claim s k = Some c" for c u
    using claim_boundedI [OF that(2) assms(3)] that(1) totals_small(2) [OF assms(2)]
    by (auto simp: claim_bounded_def small_def sub_i128_eq_Ok saturating_sub_i128_def i128_min_def
        i128_max_def)
  have "\<bar>get_total_allocated s\<bar> \<le> 2 ^ 57" using totals_small(2) [OF assms(2)] by (simp add: small_def)
  with assms(1) show ?thesis
    by (auto simp: release_prior_def and_then_eq_Ok Let_def dest: within
        split: option.splits if_splits)
qed

lemma activate_override_no_panic:
  assumes "configured s" "early e" "stake_bounded r"
    and "small (get_points_balance s (cl_wallet c))" "small (get_total_staked s)"
  shows "no_panic (activate_override H e r c s)"
  unfolding activate_override_def Let_def
  by (intro no_panic_rules activation_no_panic) (auto simp: assms add_u32_eq_Ok)

lemma execution_no_panic:
  assumes "configured s" "totals_bounded s" "records_bounded s" "early e" "0 < ov_entitlement req"
  shows "no_panic (execute_override H e k req s)"
proof -
  have alloc: "\<bar>get_total_allocated s1\<bar> \<le> 2 ^ 57"
    and same: "configured s1" "get_stake s1 = get_stake s" "get_total_staked s1 = get_total_staked s"
      "get_points_balance s1 = get_points_balance s"
    if "release_prior (get_claim s k) s = Ok (streamed, s1)" for streamed s1
    using after_release [OF that assms(2,3)] assms(1) by auto
  have ent: "in_i128 (get_total_allocated s1 + ov_entitlement req)"
    if "release_prior (get_claim s k) s = Ok (streamed, s1)" "get_stake s w = Some r"
      "tier_cap (sr_amount r) tier = Ok cap" "\<not> cap < ov_entitlement req"
    for streamed s1 w r tier cap
    using tier_cap_bound [OF that(3) stake_boundedI [OF that(2) assms(3)]] that(4) assms(5)
      alloc [OF that(1)]
    unfolding in_i128_def i128_min_def i128_max_def by auto
  have r: "stake_bounded r" "in_i128 (get_total_staked s + sr_amount r)"
    if "get_stake s w = Some r" for w r
    using stake_boundedI [OF that assms(3)] totals_small(1) [OF assms(2)]
    by (auto simp: stake_bounded_def intro: in_i128_sums)
  show ?thesis
    unfolding execute_override_def Let_def
    by (intro no_panic_rules no_panic_pair activate_override_no_panic)
      (auto simp: assms same dest: r ent)
qed

lemma override_no_panic:
  assumes "configured s" "totals_bounded s" "records_bounded s" "early e"
  shows "no_panic (approve_override H e caller wallet tx ent tier s)"
  unfolding approve_override_def Let_def
  by (intro no_panic_rules execution_no_panic) (auto simp: assms record_approval_def Let_def)

section \<open>The vault\<close>

lemma holdings_bound:
  assumes "holdings_bounded H s"
  shows "liquid_balance H s = Ok l \<Longrightarrow> small l" "get_vault s = Some v \<Longrightarrow> small (vault_shares H v s)"
  using assms
  by (auto simp: holdings_bounded_def holdings_small_def liquid_balance_eq_Ok vault_shares_def get_vault_def)

lemma deposit_answered:
  assumes "holdings_bounded H s" "get_vault s = Some v" "vault_deposit H au v [a] [a] s = Ok s'"
  shows "\<exists>w. s' = s\<lparr>st_world := w\<rparr> \<and> small (vault_shares H v (s\<lparr>st_world := w\<rparr>))"
proof -
  from assms(3) obtain w where "h_vault_deposit H au (st_world s) v [a] [a] (h_self H) True = Some w"
    and s': "s' = s\<lparr>st_world := w\<rparr>"
    by (auto simp: vault_deposit_eq_Ok)
  with assms(2) have "vault_answer H s w" by (auto simp: vault_answer_def get_vault_def)
  with assms(1,2) s' show ?thesis
    by (auto simp: holdings_bounded_def holdings_small_def vault_shares_def get_vault_def)
qed

lemma withdrawal_answered:
  assumes "holdings_bounded H s" "get_vault s = Some v" "\<not> shares \<le> 0"
    and "\<not> get_total_deployed_shares s < shares" "vault_withdraw H au v shares [mn] s = Ok s'"
  shows "\<exists>w. s' = s\<lparr>st_world := w\<rparr> \<and> (\<forall>l. liquid_balance H (s\<lparr>st_world := w\<rparr>) = Ok l \<longrightarrow> small l)"
proof -
  from assms(5) obtain w where "h_vault_withdraw H au (st_world s) v shares [mn] (h_self H) = Some w"
    and s': "s' = s\<lparr>st_world := w\<rparr>"
    by (auto simp: vault_withdraw_eq_Ok)
  with assms(2-4) have "vault_answer H s w"
    unfolding vault_answer_def get_vault_def not_le not_less by blast
  with assms(1) s' show ?thesis
    by (auto simp: holdings_bounded_def holdings_small_def liquid_balance_eq_Ok)
qed

lemma vault_found [dest!]: "ok_or (get_vault s) err = Ok v \<Longrightarrow> get_vault s = Some v"
  by (simp add: ok_or_eq_Ok)

lemma deposit_authority_no_panic [simp]:
  "configured s \<Longrightarrow> no_panic (authorize_deposit H v desired mins amount s)"
  unfolding authorize_deposit_def Let_def by (intro no_panic_rules) simp

lemma ceiling_no_panic [simp]:
  assumes "totals_bounded s"
  shows "no_panic (deploy_ceiling s)"
proof -
  from assms have "\<bar>get_deploy_bps s\<bar> \<le> 10000" unfolding totals_bounded_def by auto
  from no_panic_mul_div [OF smallD [OF totals_small(1) [OF assms]] this, of 10000]
  show ?thesis by (simp add: deploy_ceiling_def DEPLOY_BPS_DENOMINATOR_def)
qed

lemma ceiling_small:
  assumes "deploy_ceiling s = Ok c" "totals_bounded s"
  shows "small c"
proof -
  from assms(1) have "mul_div_i128 (get_total_staked s) (get_deploy_bps s) 10000 = Ok c"
    by (simp add: deploy_ceiling_def DEPLOY_BPS_DENOMINATOR_def)
  moreover have "0 \<le> get_deploy_bps s" "get_deploy_bps s \<le> 10000"
    using assms(2) unfolding totals_bounded_def by auto
  ultimately have "\<bar>c\<bar> \<le> \<bar>get_total_staked s\<bar>" by (rule mul_div_part) simp
  with smallD [OF totals_small(1) [OF assms(2)]] show ?thesis unfolding small_def by linarith
qed

lemma double_sums:
  assumes "small a" "small b" "small c"
  shows "in_i128 (a + (b - c))" "in_i128 (a + b)" "in_i128 (a - b)"
  using assms unfolding small_def in_i128_def i128_min_def i128_max_def by auto

lemma deployment_no_panic:
  assumes "configured s" "totals_bounded s" "holdings_bounded H s"
  shows "no_panic (deploy_to_vault H e amount mn s)"
proof -
  have amount: "small amount" if "liquid_balance H s = Ok l" "\<not> l < amount" "\<not> amount \<le> 0" for l
    using holdings_bound(1) [OF assms(3) that(1)] that(2,3) by (simp add: small_def)
  show ?thesis
  proof (cases "get_vault s")
    case None
    then show ?thesis
      unfolding deploy_to_vault_def Let_def
      by (intro no_panic_rules) (auto simp: assms intro: in_i128_sums dest: amount)
  next
    case (Some v)
    note answer = deposit_answered [OF assms(3) Some]
    show ?thesis
      unfolding deploy_to_vault_def Let_def
      by (intro no_panic_rules)
        (auto simp: assms Some sub_i128_eq_Ok holdings_bound(2) [OF assms(3) Some]
          intro: double_sums dest: amount holdings_bound(1) [OF assms(3)] dest!: answer)
  qed
qed

lemma principal_small:
  assumes "mul_div_i128 (get_total_deployed_xlm s) shares d = Ok p" "\<not> shares \<le> 0" "\<not> d < shares"
    and "totals_bounded s"
  shows "small p"
proof -
  from assms(2,3) have "\<bar>p\<bar> \<le> \<bar>get_total_deployed_xlm s\<bar>" by (intro mul_div_part [OF assms(1)]) auto
  with smallD [OF totals_small(3) [OF assms(4)]] show ?thesis unfolding small_def by linarith
qed

lemma redemption_no_panic:
  assumes "configured s" "totals_bounded s" "holdings_bounded H s" "get_vault s = Some v"
  shows "no_panic (redeem H v shares mn s)"
proof -
  note part = principal_small [OF _ _ _ assms(2)]
  have product: "no_panic (mul_div_i128 (get_total_deployed_xlm s) shares (get_total_deployed_shares s))"
    if "\<not> shares \<le> 0" "\<not> get_total_deployed_shares s < shares"
  proof -
    have "\<bar>shares\<bar> \<le> 2 ^ 55" using that smallD [OF totals_small(4) [OF assms(2)]] by linarith
    from no_panic_mul_div [OF smallD [OF totals_small(3) [OF assms(2)]] this] that show ?thesis by simp
  qed
  have shares: "small shares" if "\<not> shares \<le> 0" "\<not> get_total_deployed_shares s < shares"
    using that smallD [OF totals_small(4) [OF assms(2)]] unfolding small_def by linarith
  have gap: "in_i128 (p - (a - b))" if "small p" "small a" "small b" for p a b
    using that unfolding small_def in_i128_def i128_min_def i128_max_def by auto
  show ?thesis
  proof (cases "shares \<le> 0 \<or> get_total_deployed_shares s < shares")
    case True
    then show ?thesis by (auto simp: redeem_def Let_def)
  next
    case False
    then have in_range: "\<not> shares \<le> 0" "\<not> get_total_deployed_shares s < shares" by simp_all
    show ?thesis
      unfolding redeem_def Let_def
      by (intro no_panic_rules product)
        (auto simp: assms sub_i128_eq_Ok intro: double_sums gap shares [OF in_range]
          dest: part [OF _ in_range] holdings_bound(1) [OF assms(3)]
          dest!: withdrawal_answered [OF assms(3,4) in_range])
  qed
qed

lemma redemption_bound:
  assumes "redeem H v shares mn s = Ok ((x, p), s')"
    and "configured s" "totals_bounded s" "holdings_bounded H s" "get_vault s = Some v"
  shows "\<bar>x\<bar> \<le> 2 ^ 56 \<and> small p \<and> configured s' \<and>
    get_total_extracted_yield s' = get_total_extracted_yield s"
proof -
  have within: "\<bar>a - b\<bar> \<le> 2 ^ 56" if "small a" "small b" for a b
    using that unfolding small_def by auto
  have in_range: "\<not> shares \<le> 0" "\<not> get_total_deployed_shares s < shares"
    using assms(1) by (auto simp: redeem_def Let_def split: if_splits)
  show ?thesis
    using assms(1)
    by (auto simp: redeem_def and_then_eq_Ok Let_def sub_i128_eq_Ok assms(2) split: if_splits
        intro: within [simplified]
        dest: holdings_bound(1) [OF assms(4)] principal_small [OF _ in_range assms(3)]
        dest!: withdrawal_answered [OF assms(4,5) in_range])
qed

lemma withdrawal_from_vault_no_panic:
  assumes "configured s" "totals_bounded s" "holdings_bounded H s"
  shows "no_panic (provide_liquidity H e shares mn s)" "no_panic (extract_yield H e shares mn s)"
proof -
  show "no_panic (provide_liquidity H e shares mn s)"
    unfolding provide_liquidity_def
    by (intro no_panic_rules no_panic_pair redemption_no_panic) (auto simp: assms)
  have gain: "in_i128 (x - p)" if "\<bar>x\<bar> \<le> 2 ^ 56" "small p" for x p
    using that unfolding small_def in_i128_def i128_min_def i128_max_def by auto
  have total: "in_i128 (get_total_extracted_yield s + g)"
    if "(if p < x then sub_i128 x p else Ok 0) = Ok g" "\<bar>x\<bar> \<le> 2 ^ 56" "small p" for x p g
    using that totals_small(5) [OF assms(2)]
    unfolding small_def in_i128_def i128_min_def i128_max_def
    by (auto simp: sub_i128_eq_Ok split: if_splits)
  have booked: "configured t'"
    if "and_then m (\<lambda>tot. Ok (set_total_extracted_yield tot t)) = Ok t'" "configured t"
    for m and t t' :: "'a state"
    using that by (auto simp: and_then_eq_Ok)
  show "no_panic (extract_yield H e shares mn s)"
    unfolding extract_yield_def Let_def
    by (intro no_panic_rules no_panic_pair no_panic_nested_pair redemption_no_panic)
      (auto simp: assms intro: gain [simplified] total [simplified] dest: booked dest!: redemption_bound [OF _ assms])
qed

lemma yield_no_panic:
  assumes "configured s" "totals_bounded s" "holdings_bounded H s"
  shows "no_panic (yield_balance H s)" "no_panic (withdraw_yield H e amount s)"
proof -
  have tot: "in_i128 (a + b - (c + d))" if "small a" "small b" "small c" "small d" for a b c d
    using that unfolding small_def in_i128_def i128_min_def i128_max_def by auto
  show yield: "no_panic (yield_balance H s)"
    unfolding yield_balance_def
    by (intro no_panic_rules) (auto simp: assms add_i128_eq_Ok intro: in_i128_sums tot
        dest: holdings_bound(1) [OF assms(3)])
  have amount: "small amount" if "liquid_balance H s = Ok l" "\<not> l < amount" "\<not> amount \<le> 0" for l
    using holdings_bound(1) [OF assms(3) that(1)] that(2,3) by (simp add: small_def)
  show "no_panic (withdraw_yield H e amount s)"
    unfolding withdraw_yield_def Let_def
    by (intro no_panic_rules yield) (auto simp: assms intro: in_i128_sums dest: amount)
qed

subsection \<open>The public rebalancers\<close>

lemma shortfall_no_panic:
  assumes "configured s" "totals_bounded s" "holdings_bounded H s"
  shows "no_panic (liquidity_shortfall H s)"
  unfolding liquidity_shortfall_def Let_def
  by (intro no_panic_rules)
    (auto simp: assms intro: in_i128_sums dest: holdings_bound(1) [OF assms(3)]
      ceiling_small [OF _ assms(2)])

lemma shortfall_bound:
  assumes "liquidity_shortfall H s = Ok x" "totals_bounded s" "holdings_bounded H s"
  shows "0 \<le> x \<and> x \<le> 2 ^ 56"
proof -
  from assms(1) obtain l c where l: "liquid_balance H s = Ok l" and c: "deploy_ceiling s = Ok c"
    and x: "x = max (max (get_total_allocated s - l) 0) (max (get_total_deployed_xlm s - c) 0)"
    by (auto simp: liquidity_shortfall_def and_then_eq_Ok sub_i128_eq_Ok Let_def)
  from holdings_bound(1) [OF assms(3) l] ceiling_small [OF c assms(2)]
    totals_small(2,3) [OF assms(2)]
  show ?thesis unfolding x small_def by auto
qed

lemma ensure_no_panic:
  assumes "configured s" "totals_bounded s" "holdings_bounded H s"
  shows "no_panic (ensure_liquidity H e s)"
proof -
  let ?shares = "get_total_deployed_shares s" and ?xlm = "get_total_deployed_xlm s"
  have shares: "\<bar>?shares\<bar> \<le> 2 ^ 55" and xlm: "\<bar>?xlm\<bar> \<le> 2 ^ 55"
    using totals_small(3,4) [OF assms(2)] by (simp_all add: small_def)
  have wanted: "no_panic (mul_div_i128 x ?shares ?xlm)"
    if "liquidity_shortfall H s = Ok x" "\<not> (?shares \<le> 0 \<or> ?xlm \<le> 0)" for x
  proof -
    from shortfall_bound [OF that(1) assms(2,3)] have "\<bar>x\<bar> \<le> 2 ^ 56" by auto
    from no_panic_mul_div [OF this shares] that(2) show ?thesis by simp
  qed
  have needed: "\<bar>min m ?shares\<bar> \<le> 2 ^ 55"
    if "mul_div_i128 x ?shares ?xlm = Ok m" "liquidity_shortfall H s = Ok x"
      "\<not> (?shares \<le> 0 \<or> ?xlm \<le> 0)" for x m
  proof -
    have "0 \<le> x" using shortfall_bound [OF that(2) assms(2,3)] by simp
    with that(1,3) have "0 \<le> m"
      by (auto simp: mul_div_i128_eq_Ok sdiv_nonneg_eq pos_imp_zdiv_nonneg_iff not_le)
    with that(3) shares show ?thesis by auto
  qed
  have expected: "no_panic (mul_div_i128 ?xlm (min n ?shares) ?shares)"
    if "mul_div_i128 x ?shares ?xlm = Ok n" "liquidity_shortfall H s = Ok x"
      "\<not> (?shares \<le> 0 \<or> ?xlm \<le> 0)" for x n
    using no_panic_mul_div [OF xlm needed [OF that]] that(3) by simp
  have slippage: "no_panic (mul_div_i128 m (BPS_DENOMINATOR - MAX_REBALANCE_SLIPPAGE_BPS) BPS_DENOMINATOR)"
    if "mul_div_i128 ?xlm (min n ?shares) ?shares = Ok m" "mul_div_i128 x ?shares ?xlm = Ok n"
      "liquidity_shortfall H s = Ok x" "\<not> (?shares \<le> 0 \<or> ?xlm \<le> 0)" for x m n
  proof -
    from mul_div_bound [OF that(1) xlm needed [OF that(2-4)]] have "\<bar>m\<bar> \<le> 2 ^ 110" by simp
    from no_panic_mul_div [OF this, of 9500 9500 10000] show ?thesis by (simp add: bps_defs)
  qed
  show ?thesis
    unfolding ensure_liquidity_def Let_def
    by (intro no_panic_rules no_panic_pair no_panic_nested_pair redemption_no_panic wanted expected
        slippage shortfall_no_panic) (assumption | rule assms no_panic_option | erule vault_found)+
qed

lemma auto_deploy_no_panic:
  assumes "configured s" "totals_bounded s" "holdings_bounded H s"
  shows "no_panic (auto_deploy_liquidity H e s)"
proof -
  let ?shares = "get_total_deployed_shares s" and ?xlm = "get_total_deployed_xlm s"
  have shares: "\<bar>?shares\<bar> \<le> 2 ^ 55" using totals_small(4) [OF assms(2)] by (simp add: small_def)
  have amount: "\<bar>min (l - get_total_allocated s) (c - ?xlm)\<bar> \<le> 72057594037927936"
    "in_i128 (l - min (l - get_total_allocated s) (c - ?xlm))"
    "in_i128 (?xlm + min (l - get_total_allocated s) (c - ?xlm))"
    if "liquid_balance H s = Ok l" "deploy_ceiling s = Ok c" for l c
    using holdings_bound(1) [OF assms(3) that(1)] ceiling_small [OF that(2) assms(2)]
      totals_small(2,3) [OF assms(2)]
    unfolding small_def in_i128_def i128_min_def i128_max_def by (auto simp: min_def)
  have idle: "in_i128 (l - get_total_allocated s)" if "liquid_balance H s = Ok l" for l
    by (rule in_i128_sums(2) [OF holdings_bound(1) [OF assms(3) that] totals_small(2) [OF assms(2)]])
  have room: "in_i128 (c - ?xlm)" if "deploy_ceiling s = Ok c" for c
    by (rule in_i128_sums(2) [OF ceiling_small [OF that assms(2)] totals_small(3) [OF assms(2)]])
  have expected: "no_panic (mul_div_i128 a ?shares ?xlm)"
    if "\<bar>a\<bar> \<le> 2 ^ 56" "\<not> (?shares \<le> 0 \<or> ?xlm \<le> 0)" for a
    using no_panic_mul_div [OF that(1) shares] that(2) by simp
  have slippage: "no_panic (mul_div_i128 m (BPS_DENOMINATOR - MAX_REBALANCE_SLIPPAGE_BPS) BPS_DENOMINATOR)"
    if "mul_div_i128 a ?shares ?xlm = Ok m" "\<bar>a\<bar> \<le> 2 ^ 56" for a m
  proof -
    from mul_div_bound [OF that(1,2) shares] have "\<bar>m\<bar> \<le> 2 ^ 111" by simp
    from no_panic_mul_div [OF this, of 9500 9500 10000] show ?thesis by (simp add: bps_defs)
  qed
  show ?thesis
  proof (cases "get_vault s")
    case None
    then show ?thesis
      unfolding auto_deploy_liquidity_def Let_def
      by (intro no_panic_rules) (auto simp: assms room idle)
  next
    case (Some v)
    note answer = deposit_answered [OF assms(3) Some]
    have gained: "in_i128 (a - vault_shares H v s)" "in_i128 (?shares + (a - vault_shares H v s))"
      if "small a" for a
      using in_i128_sums(2) [OF that holdings_bound(2) [OF assms(3) Some]]
        double_sums(1) [OF totals_small(4) [OF assms(2)] that holdings_bound(2) [OF assms(3) Some]] by auto
    show ?thesis
      unfolding auto_deploy_liquidity_def Let_def
      by (intro no_panic_rules expected slippage)
        (simp_all (no_asm) add: assms, auto simp: Some sub_i128_eq_Ok room idle
          intro: amount amount(1) [THEN abs_le_D1] gained dest!: answer)
  qed
qed

section \<open>Every call\<close>

lemmas ops_no_panic =
  stake_no_panic set_beneficiary_no_panic withdraw_no_panic emergency_exit_no_panic
  administration_no_panic unsuspend_no_panic submission_no_panic release_no_panic unlock_no_panic
  expiry_no_panic approval_no_panic revocation_no_panic stream_no_panic cancellation_no_panic
  override_no_panic deployment_no_panic auto_deploy_no_panic withdrawal_from_vault_no_panic
  ensure_no_panic yield_no_panic

text \<open>
  C18. No call panics. Take a configured pool whose stored figures stay within \<open>2^55\<close> stroops, and so do
  its holdings of the token and of the vault's shares, now and after whatever the vault answers to the
  one deposit or redemption a call makes. Then, at any ledger of the next centuries, every entry point
  with any arguments whatsoever returns a value, returns a typed error, or stops because a signature is
  missing or wrong or another contract failed: no arithmetic overflow, no division by zero and no
  unwrapping of a missing entry is reachable, in particular none of the products of the caps, the vesting
  schedule, the points formula and the share conversions leaves \<open>i128\<close>.
\<close>

theorem calls_never_panic:
  assumes "configured s" "totals_bounded s" "records_bounded s" "holdings_bounded H s" "early e"
  shows "no_panic (exec H e c s)"
  using assms by (cases c) (simp_all add: ops_no_panic)

text \<open>
  Every answer the mock vault can give to the pool keeps the pool's holdings bounded: a deposit takes what
  the pool has, a redemption what the vault has.
\<close>

lemma mock_vault_holdings:
  assumes "st_xlm_token s = Some token" "st_vault s = Some v" "v \<noteq> h_self ref_host"
    and "mw_rate_bps (st_world s) = 10000" "mw_deposit_rate_bps (st_world s) = 10000"
    and "\<bar>mock_balance (mw_balances (st_world s)) (h_self ref_host)\<bar> \<le> 2 ^ 40"
    and "\<bar>mock_balance (mw_balances (st_world s)) v\<bar> \<le> 2 ^ 40"
    and "\<bar>mock_balance (mw_shares (st_world s)) (h_self ref_host)\<bar> \<le> 2 ^ 40"
    and "get_total_deployed_shares s \<le> 2 ^ 40"
  shows "holdings_bounded ref_host s"
proof -
  have one: "(x * 10000) sdiv 10000 = (x::int)" for x
    by (cases "x < 0") (simp_all add: sdiv_neg_eq sdiv_nonneg_eq)
  have "holdings_small ref_host s (st_world s)"
    using assms by (simp add: holdings_small_def small_def)
  moreover have "holdings_small ref_host s w" if "vault_answer ref_host s w" for w
    using that assms
    by (auto simp: vault_answer_def holdings_small_def small_def ref_vault_deposit_def
        ref_vault_withdraw_def mock_transfer_call_Some mock_transfer_TokenOk mock_balance_def one Let_def
        split: if_splits option.splits)
  ultimately show ?thesis by (simp add: holdings_bounded_def)
qed

lemma after_staked_run:
  "st_stakes (after staked_run) =
     [11 \<mapsto> fresh_stake_record ref_host (on_day 1 [11]) 10000 21,
      12 \<mapsto> fresh_stake_record ref_host (on_day 1 [12]) 10000 22]"
  "st_claims (after staked_run) = Map.empty" "st_points (after staked_run) = Map.empty"
proof -
  let ?s0 = "state_of deployment"
  have "deployment = Ok (result_of deployment, ?s0)" by (rule is_ok_result [OF deployment_ok])
  then have "st_stakes ?s0 = Map.empty \<and> st_claims ?s0 = Map.empty \<and> st_points ?s0 = Map.empty"
    unfolding deployment_def by (auto dest!: initialize_Ok simp: empty_state_def)
  moreover from is_ok_result [OF staked_run_ok] obtain s1 where
    "stake ref_host (on_day 1 [11]) 11 10000 21 ?s0 = Ok ((), s1)"
    "stake ref_host (on_day 1 [12]) 12 10000 22 s1 = Ok ((), after staked_run)"
    by (auto simp: staked_run_def after_def and_then_eq_Ok returns_eq_Ok)
  ultimately show "st_stakes (after staked_run) =
     [11 \<mapsto> fresh_stake_record ref_host (on_day 1 [11]) 10000 21,
      12 \<mapsto> fresh_stake_record ref_host (on_day 1 [12]) 10000 22]"
    "st_claims (after staked_run) = Map.empty" "st_points (after staked_run) = Map.empty"
    by (auto dest!: stake_Ok)
qed

lemma deployment_keeps_records:
  assumes "run H [(e1, SetVault v), (e2, SetTreasury t), (e3, SetDeployBps b), (e4, DeployToVault a m)] s
      = Ok (u, s')"
  shows "st_stakes s' = st_stakes s \<and> st_claims s' = st_claims s \<and> st_points s' = st_points s"
proof -
  from assms obtain s1 s2 s3 x where "set_vault H e1 v s = Ok ((), s1)" "set_treasury H e2 t s1 = Ok ((), s2)"
    "set_deploy_bps H e3 b s2 = Ok ((), s3)" "deploy_to_vault H e4 a m s3 = Ok (x, s')"
    by (auto simp: and_then_eq_Ok returns_eq_Ok)
  then show ?thesis
    by (auto dest!: set_vault_Ok set_treasury_Ok set_deploy_bps_Ok deploy_to_vault_Ok)
qed

lemma after_deployed_run:
  "st_stakes (after deployed_run) = st_stakes (after staked_run) \<and>
   st_claims (after deployed_run) = st_claims (after staked_run) \<and>
   st_points (after deployed_run) = st_points (after staked_run)"
proof -
  obtain u where staked: "run ref_host staked_run (state_of deployment) = Ok (u, after staked_run)"
    using is_ok_result [OF staked_run_ok] unfolding after_def by blast
  obtain v where "run ref_host deployed_run (state_of deployment) = Ok (v, after deployed_run)"
    using is_ok_result [OF deployed_run_ok] unfolding after_def by blast
  then show ?thesis
    by (simp only: deployed_run_def run_append staked and_then.simps prod.case)
      (rule deployment_keeps_records)
qed

lemma deployed_records_bounded: "records_bounded (after deployed_run)"
  by (auto simp: records_bounded_def get_stake_def get_claim_def after_deployed_run after_staked_run
      stake_bounded_def small_def fresh_stake_record_def time_defs split: if_splits)

definition bounded_position :: "mock_world state \<Rightarrow> bool" where
  "bounded_position s \<longleftrightarrow>
     configured s \<and> totals_bounded s \<and> st_xlm_token s = Some 50 \<and> st_vault s = Some 60 \<and>
     mw_rate_bps (st_world s) = 10000 \<and> mw_deposit_rate_bps (st_world s) = 10000 \<and>
     mock_balance (mw_balances (st_world s)) 100 = 12000 \<and>
     mock_balance (mw_balances (st_world s)) 60 = 8000 \<and>
     mock_balance (mw_shares (st_world s)) 100 = 8000 \<and> get_total_deployed_shares s = 8000"

text \<open>With 8000 of 20000 in the mock vault, whatever the admin asks to be redeemed.\<close>

theorem calls_never_panic_witness:
  "no_panic (exec ref_host (on_day 9 [1]) (ProvideLiquidity 3000 0) (after deployed_run))"
proof (rule calls_never_panic)
  have pos: "bounded_position (after deployed_run)" by code_simp
  then show "configured (after deployed_run)" "totals_bounded (after deployed_run)"
    by (simp_all add: bounded_position_def)
  show "records_bounded (after deployed_run)" by (rule deployed_records_bounded)
  show "holdings_bounded ref_host (after deployed_run)"
    using pos by (intro mock_vault_holdings [where token = 50 and v = 60]) (simp_all add: bounded_position_def)
  show "early (on_day 9 [1])" by (simp add: early_def time_defs)
qed

section \<open>What a huge cap does\<close>

text \<open>
  The bound on the cap is needed: \<open>set_pool_cap\<close> and the constructor accept any positive cap, and
  above \<open>i128::MAX / 125\<close> the stake limits overflow, so that neither a stake nor a withdrawal of an
  active stake can succeed any more (an emergency exit still can).
\<close>

theorem huge_cap_traps:
  assumes "st_pool_cap s = Some cap" "i128_max < cap * 125"
  shows "\<not> is_ok (stake H e staker amount b s) \<and> \<not> is_ok (withdraw H e staker b s)"
proof -
  have none: "max_stake s \<noteq> Ok mx" for mx
    using assms by (auto simp: max_stake_def get_pool_cap_def mul_div_i128_eq_Ok bps_defs in_i128_def)
  then have "\<not> is_ok (stake H e staker amount b s)"
    by (auto simp: is_ok_iff stake_def and_then_eq_Ok Let_def)
  moreover have "compute_points_for_record e r s \<noteq> Ok p" if "active_stake r" for r p
    using that none by (auto simp: compute_points_for_record_def active_stake_def and_then_eq_Ok Let_def)
  then have "\<not> is_ok (withdraw H e staker b s)"
    by (auto simp: is_ok_iff dest!: withdraw_Ok)
  ultimately show ?thesis by blast
qed

theorem huge_cap_traps_witness:
  "\<not> is_ok (withdraw ref_host (on_day 9 [11]) 11 21 ((after staked_run)\<lparr>st_pool_cap := Some (2 ^ 121)\<rparr>))"
  using huge_cap_traps [of "(after staked_run)\<lparr>st_pool_cap := Some (2 ^ 121)\<rparr>" "2 ^ 121"]
  by (simp add: i128_max_def)

end
