(* ===== verification/Claim_Termination.thy ===== *)
theory Claim_Termination
  imports Claim_Ledger
begin

text \<open>
  Every claim comes to an end: a measure on claims that each accepted handler call decreases and
  that no other call raises, the override apart, which opens a claim anew by design. The number
  of calls that can handle one claim is bounded by its measure.
\<close>

section \<open>The measure\<close>

definition owed :: "claim \<Rightarrow> int" where
  "owed c = max 0 (cl_entitlement c - cl_streamed c)"

definition life :: "claim \<Rightarrow> int" where
  "life c =
     (case cl_status c of Reserved \<Rightarrow> owed c + 4 | PendingTime \<Rightarrow> owed c + 3
      | AwaitingApproval \<Rightarrow> owed c + 2 | Active \<Rightarrow> owed c + 1 | _ \<Rightarrow> 0)"

definition life_at :: "(bytes \<rightharpoonup> claim) \<Rightarrow> bytes \<Rightarrow> int" where
  "life_at m k = (case m k of None \<Rightarrow> 0 | Some c \<Rightarrow> life c)"

definition known :: "'w state \<Rightarrow> bytes \<Rightarrow> bool" where
  "known s k \<longleftrightarrow> (\<exists>c. st_claims s k = Some c \<and> cl_status c \<noteq> Unused)"

text \<open>The calls that handle the claim \<open>k\<close>, and the one call that may open a claim anew.\<close>

fun handles :: "bytes \<Rightarrow> pool_call \<Rightarrow> bool" where
  "handles k (TryReleaseQueuedClaim j) \<longleftrightarrow> j = k"
| "handles k (ExpireQueuedClaim j) \<longleftrightarrow> j = k"
| "handles k (UnlockPendingClaim j) \<longleftrightarrow> j = k"
| "handles k (ApproveClaim j) \<longleftrightarrow> j = k"
| "handles k (ExpirePendingApproval j) \<longleftrightarrow> j = k"
| "handles k (ExpireStaleClaim j) \<longleftrightarrow> j = k"
| "handles k (ClaimStream j _) \<longleftrightarrow> j = k"
| "handles k (CancelClaim j) \<longleftrightarrow> j = k"
| "handles _ _ \<longleftrightarrow> False"

fun overrides :: "pool_call \<Rightarrow> bool" where
  "overrides (ApproveOverride _ _ _ _ _) \<longleftrightarrow> True"
| "overrides _ \<longleftrightarrow> False"

section \<open>One call\<close>

text \<open>A handler call replaces one record by one of a smaller measure.\<close>

definition consumes :: "'w state \<Rightarrow> 'w state \<Rightarrow> bytes \<Rightarrow> bool" where
  "consumes s s' j \<longleftrightarrow>
     (\<exists>c c'. st_claims s j = Some c \<and> st_claims s' = (st_claims s)(j \<mapsto> c') \<and>
        cl_status c' \<noteq> Unused \<and> life c' + 1 \<le> life c)"

lemma consumesI:
  "st_claims s j = Some c \<Longrightarrow> st_claims s' = (st_claims s)(j \<mapsto> c') \<Longrightarrow> cl_status c' \<noteq> Unused \<Longrightarrow>
   life c' + 1 \<le> life c \<Longrightarrow> consumes s s' j"
  by (auto simp: consumes_def)

lemma consumesD:
  assumes "consumes s s' j" "known s k"
  shows "known s' k \<and> life_at (st_claims s') k + (if j = k then 1 else 0) \<le> life_at (st_claims s) k"
  using assms by (auto simp: consumes_def known_def life_at_def)

lemma release_consumes:
  assumes "try_release_queued_claim H e k s = Ok (u, s')" "pool_ledger_ok s"
  shows "consumes s s' k"
proof -
  from try_release_queued_claim_Ok [OF assms(1)] obtain c r lu ev where c: "st_claims s k = Some c"
    "cl_status c = Reserved"
    and s': "s' = (admitted e k (admitted_claim e (cl_wallet c) (cl_tx_hash c) (cl_entitlement c)
        (cl_tier c) (cl_hack_timestamp c) r) r 0 s)\<lparr>st_live_until := lu, st_events := ev\<rparr>"
    by blast
  have "claim_ok c"
    using assms(2) c(1) ledger_ok_claim [of "ledger_of s" k c] by (simp add: pool_ledger_ok_def)
  with c s' show ?thesis
    by (intro consumesI [OF c(1)]) (auto simp: admitted_def claim_ok_def life_def owed_def split: if_splits)
qed

lemma handlers_consume:
  "expire_queued_claim H e k s = Ok (u, s') \<Longrightarrow> consumes s s' k"
  "unlock_pending_claim H e k s = Ok (u, s') \<Longrightarrow> consumes s s' k"
  "approve_claim H e k s = Ok (u, s') \<Longrightarrow> consumes s s' k"
  "expire_pending_approval H e k s = Ok (u, s') \<Longrightarrow> consumes s s' k"
  "expire_stale_claim H e k s = Ok (u, s') \<Longrightarrow> consumes s s' k"
  by (auto dest!: expire_queued_claim_Ok unlock_pending_claim_Ok approve_claim_Ok
      expire_pending_approval_Ok expire_stale_claim_Ok
      simp: activated_def forfeited_def released_def life_def owed_def intro!: consumesI)

lemma cancel_consumes:
  assumes "cancel_claim H e k s = Ok (u, s')"
  shows "consumes s s' k"
  using cancel_claim_Ok [OF assms]
  by (auto simp: cancelled_def released_def life_def owed_def intro!: consumesI)

lemma stream_consumes:
  assumes "claim_stream H e k b s = Ok (x, s')"
  shows "consumes s s' k"
proof -
  from claim_stream_Ok [OF assms] obtain c w lu ev where c: "st_claims s k = Some c"
    "cl_status c = Active" "cl_streamed c < cl_entitlement c" "0 < x"
    and s': "s' = (streamed_to e k c x s)\<lparr>st_live_until := lu, st_events := ev, st_world := w\<rparr>"
    by blast
  then show ?thesis
    by (intro consumesI [OF c(1)]) (auto simp: streamed_to_def life_def owed_def split: if_splits)
qed

text \<open>The other calls keep what they find, except that unsuspending restarts a clock.\<close>

lemma submit_keeps:
  assumes "submit_claim H e cl wallet tx ent tier hack dl sig s = Ok (j, s')" "known s k"
  shows "st_claims s' k = st_claims s k"
proof -
  from submit_claim_Ok [OF assms(1)] obtain c where
    new: "\<forall>c0. st_claims s j = Some c0 \<longrightarrow> cl_status c0 = Unused"
    and s': "st_claims s' = (st_claims s)(j \<mapsto> c)"
    by (elim exE conjE) (simp add: queued_def admitted_def split: if_splits)
  from new assms(2) have "j \<noteq> k" by (auto simp: known_def)
  with s' show ?thesis by simp
qed

lemma owed_clock_reset [simp]: "owed (clock_reset e c) = owed c"
  by (simp add: owed_def)

lemma life_clock_reset [simp]: "life (clock_reset e c) = life c"
  by (cases "cl_status c") (simp_all add: life_def)

lemma unsuspend_keeps:
  assumes "unsuspend_stake H e wallet j s = Ok (u, s')" "known s k"
  shows "known s' k \<and> life_at (st_claims s') k = life_at (st_claims s) k"
  using unsuspend_stake_Ok [OF assms(1)] assms(2)
  by (auto simp: known_def life_at_def)

lemma others_keep:
  assumes "exec H e c s = Ok (r, s')" "\<not> overrides c" "\<not> handles k c" "\<forall>j. \<not> handles j c"
    and "\<forall>w j. c \<noteq> UnsuspendStake w j" "known s k"
  shows "st_claims s' k = st_claims s k"
  using assms
  by (cases c)
    (auto simp: returns_eq_Ok after_redeem_def exited_def
      dest!: stake_Ok set_beneficiary_Ok withdraw_Ok emergency_exit_Ok suspend_stake_Ok
        deploy_to_vault_Ok auto_deploy_liquidity_Ok provide_liquidity_Ok ensure_liquidity_Ok
        extract_yield_Ok withdraw_yield_Ok cancel_pending_override_Ok revoke_approval_Ok
        transfer_admin_Ok pause_Ok unpause_Ok set_pool_cap_Ok set_oracle_Ok set_oracle_pubkey_Ok
        set_oracle_identity_Ok set_co_signer_Ok set_vault_Ok set_treasury_Ok set_deploy_bps_Ok
      dest: submit_keeps)

lemma exec_consumes:
  assumes "exec H e c s = Ok (r, s')" "handles j c" "pool_ledger_ok s"
  shows "consumes s s' j"
  using assms
  by (cases c) (auto simp: returns_eq_Ok intro: release_consumes handlers_consume cancel_consumes
      stream_consumes)

lemma exec_life:
  assumes "exec H e c s = Ok (r, s')" "\<not> overrides c" "pool_ledger_ok s" "known s k"
  shows "known s' k \<and>
    life_at (st_claims s') k + (if handles k c then 1 else 0) \<le> life_at (st_claims s) k"
proof (cases "\<exists>j. handles j c")
  case True
  then obtain j where j: "handles j c" by blast
  have "handles k c \<longleftrightarrow> j = k" using j by (cases c) auto
  with consumesD [OF exec_consumes [OF assms(1) j assms(3)] assms(4)] show ?thesis by simp
next
  case none: False
  show ?thesis
  proof (cases "\<exists>w j. c = UnsuspendStake w j")
    case True
    with assms(1,4) show ?thesis by (fastforce simp: returns_eq_Ok dest: unsuspend_keeps)
  next
    case False
    with others_keep [OF assms(1,2), of k] none assms(4) show ?thesis
      by (auto simp: known_def life_at_def)
  qed
qed

section \<open>A sequence of calls\<close>

definition handlings :: "bytes \<Rightarrow> (env \<times> pool_call) list \<Rightarrow> int" where
  "handlings k cs = int (length (filter (\<lambda>(_, c). handles k c) cs))"

lemma run_life:
  assumes "run H cs s = Ok (u, s')" "pool_ledger_ok s" "known s k"
    and "\<forall>(e, c) \<in> set cs. env_ok e \<and> \<not> overrides c"
  shows "known s' k \<and> life_at (st_claims s') k + handlings k cs \<le> life_at (st_claims s) k"
  using assms
proof (induction cs arbitrary: s)
  case (Cons x cs)
  obtain e c where x: "x = (e, c)" by (cases x)
  with Cons.prems(1) obtain r s1 where ok: "exec H e c s = Ok (r, s1)"
    and rest: "run H cs s1 = Ok (u, s')"
    by (auto simp: and_then_eq_Ok)
  from Cons.prems(4) x have call: "env_ok e" "\<not> overrides c" by auto
  note one = exec_life [OF ok call(2) Cons.prems(2,3)]
  have "pool_ledger_ok s1" by (rule reserves.after_call [OF call(1) ok Cons.prems(2)])
  with Cons.IH [OF rest] one Cons.prems(4)
  have "known s' k \<and> life_at (st_claims s') k + handlings k cs \<le> life_at (st_claims s1) k"
    by simp
  with one x show ?case by (auto simp: handlings_def split: if_splits)
qed (simp add: handlings_def)

lemma life_bounds: "0 \<le> life c" "life c \<le> owed c + 4"
  by (cases "cl_status c"; simp add: life_def owed_def)+

text \<open>
  C17. Every claim comes to an end: unless an override opens it anew, a claim is handled (released,
  unlocked, approved, collected, swept or cancelled) only finitely often. In any sequence of
  accepted calls, of whatever kind and by whomever, at most as many handle it as its measure
  says, which is no more than the stroops still owed plus four; and when that many have, the
  claim is completed, cancelled or expired.
\<close>

theorem claims_come_to_an_end:
  assumes "reachable H s" "st_claims s k = Some c" "cl_status c \<noteq> Unused"
    and "run H cs s = Ok (u, s')" "\<forall>(e, c) \<in> set cs. env_ok e \<and> \<not> overrides c"
  shows "handlings k cs \<le> life c \<and>
    life c \<le> max 0 (cl_entitlement c - cl_streamed c) + 4 \<and>
    (handlings k cs = life c \<longrightarrow>
       (\<exists>c'. st_claims s' k = Some c' \<and> cl_status c' \<in> {Completed, Cancelled, Expired}))"
proof -
  have "pool_ledger_ok s" by (rule reserves.in_every_reachable_state [OF assms(1)])
  moreover have "known s k" using assms(2,3) by (auto simp: known_def)
  ultimately have r: "known s' k" "life_at (st_claims s') k + handlings k cs \<le> life_at (st_claims s) k"
    using run_life [OF assms(4) _ _ assms(5)] by blast+
  from r(1) obtain c' where c': "st_claims s' k = Some c'" "cl_status c' \<noteq> Unused"
    by (auto simp: known_def)
  have "life c' = 0 \<longrightarrow> cl_status c' \<in> {Completed, Cancelled, Expired}"
    using c'(2) by (cases "cl_status c'") (simp_all add: life_def owed_def)
  with r(2) c' assms(2) life_bounds [of c'] life_bounds [of c] show ?thesis
    by (auto simp: life_at_def owed_def)
qed

definition approve_and_collect :: "(env \<times> pool_call) list" where
  "approve_and_collect =
     [(on_day 101 [11], ApproveClaim [1, 11, 9]), (on_day 130 [11], ClaimStream [1, 11, 9] 21)]"

definition awaiting_sample :: "mock_world state \<Rightarrow> bool" where
  "awaiting_sample s \<longleftrightarrow>
     claim_at [1, 11, 9] (\<lambda>c. cl_status c = AwaitingApproval \<and> cl_entitlement c = 4000 \<and>
       cl_streamed c = 0) s \<and> is_ok (run ref_host approve_and_collect s)"

lemma awaiting_sample_reached: "ends_in awaiting_run awaiting_sample"
  by code_simp

theorem claims_come_to_an_end_witness:
  "handlings [1, 11, 9] approve_and_collect = 2 \<and>
   (\<exists>c. st_claims (after awaiting_run) [1, 11, 9] = Some c \<and> life c = 4002 \<and>
      handlings [1, 11, 9] approve_and_collect \<le> life c)"
proof -
  have sample: "claim_at [1, 11, 9] (\<lambda>c. cl_status c = AwaitingApproval \<and> cl_entitlement c = 4000 \<and>
      cl_streamed c = 0) (after awaiting_run)"
    "is_ok (run ref_host approve_and_collect (after awaiting_run))"
    using ends_inD(2) [OF awaiting_sample_reached] by (simp_all add: awaiting_sample_def)
  from claim_atD [OF sample(1)] obtain c where c: "st_claims (after awaiting_run) [1, 11, 9] = Some c"
    "cl_status c = AwaitingApproval" "cl_entitlement c = 4000" "cl_streamed c = 0"
    by blast
  have "handlings [1, 11, 9] approve_and_collect \<le> life c"
    by (rule claims_come_to_an_end [THEN conjunct1,
          OF after_reachable [OF awaiting_run_ok awaiting_run_envs] c(1) _ is_ok_result [OF sample(2)]])
      (simp_all add: c approve_and_collect_def env_ok_on_day)
  with c show ?thesis
    by (simp add: life_def owed_def handlings_def approve_and_collect_def)
qed

end
