(* ===== verification/Machine_Types.thy ===== *)
theory Machine_Types
  imports Sample_Runs Storage_Writes
begin

text \<open>
  The Rust types of the model. Integers of the source are \<open>int\<close> here, with the range written out
  at every operation; this theory closes the gap: every integer the contract stores or returns
  is a value of the Rust type it has in \<^verbatim>\<open>types.rs\<close> and \<^verbatim>\<open>storage.rs\<close>, after every
  call with arguments of their types. The proof goes through the operations as they are defined,
  with the setters of the storage folded (\<open>typed_writes\<close>).
\<close>

section \<open>Types of values, records and the state\<close>

definition in_u32 :: "int \<Rightarrow> bool" where
  "in_u32 x \<longleftrightarrow> 0 \<le> x \<and> x \<le> u32_max"

definition in_u64 :: "int \<Rightarrow> bool" where
  "in_u64 x \<longleftrightarrow> 0 \<le> x \<and> x \<le> u64_max"

definition stake_typed :: "stake_record \<Rightarrow> bool" where
  "stake_typed r \<longleftrightarrow>
     in_i128 (sr_amount r) \<and> in_u32 (sr_staked_at_ledger r) \<and> in_u64 (sr_staked_at_timestamp r) \<and>
     in_u32 (sr_penalty_locked_until_ledger r)"

definition claim_typed :: "claim \<Rightarrow> bool" where
  "claim_typed c \<longleftrightarrow>
     in_u64 (cl_hack_timestamp c) \<and> in_i128 (cl_entitlement c) \<and> in_i128 (cl_streamed c) \<and>
     in_i128 (cl_stake c) \<and> in_u32 (cl_cooldown_ends_ledger c) \<and> in_u32 (cl_vesting_ends_ledger c) \<and>
     in_i128 (cl_total_staked_snapshot c) \<and> in_u32 (cl_tier c) \<and>
     in_u32 (cl_approve_deadline_ledger c) \<and> in_u32 (cl_last_collected_ledger c)"

definition request_typed :: "override_request \<Rightarrow> bool" where
  "request_typed req \<longleftrightarrow> in_i128 (ov_entitlement req) \<and> in_u32 (ov_tier req)"

definition globals_typed :: "'w state \<Rightarrow> bool" where
  "globals_typed s \<longleftrightarrow>
     pred_option in_i128 (st_pool_cap s) \<and> pred_option in_i128 (st_total_staked s) \<and>
     pred_option in_i128 (st_total_allocated s) \<and> pred_option in_u32 (st_total_stakers s) \<and>
     pred_option in_i128 (st_daily_outflow s) \<and> pred_option in_u32 (st_last_outflow_day s) \<and>
     pred_option in_i128 (st_daily_entitlement_total s) \<and>
     pred_option in_u32 (st_last_entitlement_day s) \<and> pred_option in_u32 (st_daily_claim_count s) \<and>
     pred_option in_i128 (st_deploy_bps s) \<and> pred_option in_i128 (st_total_deployed_shares s) \<and>
     pred_option in_i128 (st_total_deployed_xlm s) \<and>
     pred_option in_i128 (st_total_extracted_yield s)"

definition records_typed :: "'w state \<Rightarrow> bool" where
  "records_typed s \<longleftrightarrow>
     (\<forall>r \<in> ran (st_stakes s). stake_typed r) \<and> (\<forall>c \<in> ran (st_claims s). claim_typed c) \<and>
     (\<forall>req \<in> ran (st_overrides s). request_typed req) \<and> (\<forall>v \<in> ran (st_points s). in_i128 v)"

definition state_typed :: "'w state \<Rightarrow> bool" where
  "state_typed s \<longleftrightarrow> globals_typed s \<and> records_typed s"

text \<open>The arguments of a call, as the Soroban host decodes them before the contract runs.\<close>

fun call_typed :: "pool_call \<Rightarrow> bool" where
  "call_typed (Stake _ amount _) = in_i128 amount"
| "call_typed (SetPoolCap cap) = in_i128 cap"
| "call_typed (SubmitClaim _ _ _ ent tier hack deadline _) =
     (in_i128 ent \<and> in_u32 tier \<and> in_u64 hack \<and> in_u64 deadline)"
| "call_typed (ApproveOverride _ _ _ ent tier) = (in_i128 ent \<and> in_u32 tier)"
| "call_typed (RevokeApproval _ _ _ ent tier hack deadline) =
     (in_i128 ent \<and> in_u32 tier \<and> in_u64 hack \<and> in_u64 deadline)"
| "call_typed (SetDeployBps bps) = in_i128 bps"
| "call_typed (DeployToVault amount mn) = (in_i128 amount \<and> in_i128 mn)"
| "call_typed (ProvideLiquidity shares mn) = (in_i128 shares \<and> in_i128 mn)"
| "call_typed (ExtractYield shares mn) = (in_i128 shares \<and> in_i128 mn)"
| "call_typed (WithdrawYield amount) = in_i128 amount"
| "call_typed _ = True"

fun ret_typed :: "ret \<Rightarrow> bool" where
  "ret_typed (RInt x) = in_i128 x"
| "ret_typed _ = True"

section \<open>Values\<close>

named_theorems typed_writes \<open>a write of a typed value keeps the state typed\<close>
named_theorems typed_lookups \<open>a record found in a typed state is typed\<close>
named_theorems typed_reads \<open>what a typed state holds is typed\<close>

lemma in_i128_0 [simp, typed_reads]: "in_i128 0"
  by (simp add: in_i128_def i128_min_def i128_max_def)

lemma in_u32_0 [simp, typed_reads]: "in_u32 0"
  by (simp add: in_u32_def u32_max_def)

lemma in_u32_env [typed_reads]: "env_ok e \<Longrightarrow> in_u32 (e_seq e)"
  by (simp add: env_ok_def in_u32_def)

lemma in_u64_env [typed_reads]: "env_ok e \<Longrightarrow> in_u64 (e_time e)"
  by (simp add: env_ok_def in_u64_def)

lemma in_u32_day [typed_reads]: "in_u32 (current_day e)"
  by (simp add: current_day_def in_u32_def u32_max_def zle_diff1_eq)

lemma in_u32_saturating_sub [typed_reads]:
  "in_u32 a \<Longrightarrow> 0 \<le> b \<Longrightarrow> in_u32 (saturating_sub_u32 a b)"
  by (simp add: in_u32_def saturating_sub_u32_def)

lemma in_i128_min [typed_reads]: "in_i128 a \<Longrightarrow> in_i128 b \<Longrightarrow> in_i128 (min a b)"
  by (simp add: min_def)

lemmas [typed_reads] = in_i128_saturating_sub

lemma points_in_i128 [typed_lookups]: "compute_points_for_record e r s = Ok p \<Longrightarrow> in_i128 p"
  by (auto simp: compute_points_for_record_def ok_simps Let_def split: if_splits)

section \<open>Reads\<close>

lemma typed_get_stake [typed_lookups]:
  "get_stake s k = Some r \<Longrightarrow> state_typed s \<Longrightarrow> stake_typed r"
  by (auto simp: state_typed_def records_typed_def get_stake_def intro: ranI)

lemma typed_get_claim [typed_lookups]:
  "get_claim s k = Some c \<Longrightarrow> state_typed s \<Longrightarrow> claim_typed c"
  by (auto simp: state_typed_def records_typed_def get_claim_def intro: ranI)

lemma typed_get_override [typed_lookups]:
  "get_override s k = Some req \<Longrightarrow> state_typed s \<Longrightarrow> request_typed req"
  by (auto simp: state_typed_def records_typed_def get_override_def intro: ranI)

lemma typed_total_staked [typed_reads]: "state_typed s \<Longrightarrow> in_i128 (get_total_staked s)"
  by (cases "st_total_staked s") (simp_all add: state_typed_def globals_typed_def get_total_staked_def)

lemma typed_deployed_shares [typed_reads]:
  "state_typed s \<Longrightarrow> in_i128 (get_total_deployed_shares s)"
  by (cases "st_total_deployed_shares s")
    (simp_all add: state_typed_def globals_typed_def get_total_deployed_shares_def)

lemma typed_total_stakers [typed_reads]: "state_typed s \<Longrightarrow> in_u32 (get_total_stakers s)"
  by (cases "st_total_stakers s") (simp_all add: state_typed_def globals_typed_def get_total_stakers_def)

section \<open>Writes\<close>

lemma typed_set_stake [typed_writes]:
  "state_typed s \<Longrightarrow> stake_typed r \<Longrightarrow> state_typed (set_stake H e k r s)"
  by (auto simp: state_typed_def globals_typed_def records_typed_def set_stake_def touch_def ran_def)

lemma typed_set_claim [typed_writes]:
  "state_typed s \<Longrightarrow> claim_typed c \<Longrightarrow> state_typed (set_claim H e k c s)"
  by (auto simp: state_typed_def globals_typed_def records_typed_def set_claim_def touch_def ran_def)

lemma typed_set_override [typed_writes]:
  "state_typed s \<Longrightarrow> request_typed req \<Longrightarrow> state_typed (set_override H e k req s)"
  by (auto simp: state_typed_def globals_typed_def records_typed_def set_override_def touch_def ran_def)

lemma typed_remove_override [typed_writes]: "state_typed s \<Longrightarrow> state_typed (remove_override k s)"
  by (auto simp: state_typed_def globals_typed_def records_typed_def remove_override_def ran_def)

lemma typed_set_points [typed_writes]:
  "state_typed s \<Longrightarrow> in_i128 v \<Longrightarrow> state_typed (set_points_balance H e k v s)"
  by (auto simp: state_typed_def globals_typed_def records_typed_def set_points_balance_def touch_def
      ran_def)

lemmas globals_simps = state_typed_def globals_typed_def records_typed_def write_defs

lemma typed_set_daily_outflow [typed_writes]:
  "state_typed s \<Longrightarrow> in_u32 day \<Longrightarrow> in_i128 v \<Longrightarrow> state_typed (set_daily_outflow day v s)"
  by (simp add: globals_simps)

lemma typed_set_daily_entitlement [typed_writes]:
  "state_typed s \<Longrightarrow> in_u32 day \<Longrightarrow> in_i128 v \<Longrightarrow> in_u32 n \<Longrightarrow>
   state_typed (set_daily_entitlement day v n s)"
  by (simp add: globals_simps)

lemma typed_set_totals [typed_writes]:
  "state_typed s \<Longrightarrow> in_i128 v \<Longrightarrow> state_typed (set_total_staked v s)"
  "state_typed s \<Longrightarrow> in_i128 v \<Longrightarrow> state_typed (set_total_allocated v s)"
  "state_typed s \<Longrightarrow> in_u32 n \<Longrightarrow> state_typed (set_total_stakers n s)"
  "state_typed s \<Longrightarrow> in_i128 v \<Longrightarrow> state_typed (set_pool_cap_value v s)"
  by (simp_all add: globals_simps)

lemma typed_set_deployed [typed_writes]:
  "state_typed s \<Longrightarrow> in_i128 v \<Longrightarrow> state_typed (set_deploy_bps_value v s)"
  "state_typed s \<Longrightarrow> in_i128 v \<Longrightarrow> state_typed (set_total_deployed_shares v s)"
  "state_typed s \<Longrightarrow> in_i128 v \<Longrightarrow> state_typed (set_total_deployed_xlm v s)"
  "state_typed s \<Longrightarrow> in_i128 v \<Longrightarrow> state_typed (set_total_extracted_yield v s)"
  by (simp_all add: globals_simps)

lemma typed_untyped_writes [simp]:
  "state_typed (publish ev s) = state_typed s" "state_typed (bump_instance_ttl H e s) = state_typed s"
  "state_typed (set_admin a s) = state_typed s" "state_typed (set_oracle_address a s) = state_typed s"
  "state_typed (set_oracle_key pk s) = state_typed s"
  "state_typed (set_co_signer_address a s) = state_typed s"
  "state_typed (set_xlm_token a s) = state_typed s" "state_typed (set_paused b s) = state_typed s"
  "state_typed (set_vault_address a s) = state_typed s"
  "state_typed (set_treasury_address a s) = state_typed s"
  "state_typed (set_approval_revoked H e h s) = state_typed s"
  "state_typed (s\<lparr>st_world := w\<rparr>) = state_typed s"
  by (simp_all add: globals_simps)

section \<open>The operations\<close>

text \<open>
  The operations are taken apart by their control flow only: the result of a checked operation
  is used through its type, not through its value.
\<close>

lemma typed_results [dest!]:
  "add_i128 a b = Ok x \<Longrightarrow> in_i128 x" "sub_i128 a b = Ok x \<Longrightarrow> in_i128 x"
  "mul_div_i128 a b c = Ok x \<Longrightarrow> in_i128 x" "add_u32 a b = Ok n \<Longrightarrow> in_u32 n"
  by (simp_all add: ok_simps in_u32_def)

lemma typed_fresh_stake [typed_writes]:
  "env_ok e \<Longrightarrow> in_i128 amount \<Longrightarrow> stake_typed (fresh_stake_record H e amount b)"
  by (simp add: stake_typed_def fresh_stake_record_def typed_reads)

lemma stake_typed_updates [simp]:
  "stake_typed (r\<lparr>sr_withdrawn := w\<rparr>) = stake_typed r"
  "stake_typed (r\<lparr>sr_suspended := w\<rparr>) = stake_typed r"
  "stake_typed (r\<lparr>sr_beneficiary_hash := h\<rparr>) = stake_typed r"
  "stake_typed (r\<lparr>sr_active_claim_id := k\<rparr>) = stake_typed r"
  "stake_typed (r\<lparr>sr_reserved_claim_id := k\<rparr>) = stake_typed r"
  by (simp_all add: stake_typed_def)

lemma stake_typed_fields [typed_writes]:
  "stake_typed r \<Longrightarrow> in_i128 v \<Longrightarrow> stake_typed (r\<lparr>sr_amount := v\<rparr>)"
  "stake_typed r \<Longrightarrow> in_u32 n \<Longrightarrow> stake_typed (r\<lparr>sr_penalty_locked_until_ledger := n\<rparr>)"
  by (simp_all add: stake_typed_def)

lemma claim_typed_status [simp]: "claim_typed (c\<lparr>cl_status := st\<rparr>) = claim_typed c"
  by (simp add: claim_typed_def)

lemma claim_typed_fields [typed_writes]:
  "claim_typed c \<Longrightarrow> in_i128 v \<Longrightarrow> claim_typed (c\<lparr>cl_streamed := v\<rparr>)"
  "claim_typed c \<Longrightarrow> in_i128 v \<Longrightarrow> claim_typed (c\<lparr>cl_stake := v\<rparr>)"
  "claim_typed c \<Longrightarrow> in_i128 v \<Longrightarrow> claim_typed (c\<lparr>cl_total_staked_snapshot := v\<rparr>)"
  "claim_typed c \<Longrightarrow> in_u32 n \<Longrightarrow> claim_typed (c\<lparr>cl_cooldown_ends_ledger := n\<rparr>)"
  "claim_typed c \<Longrightarrow> in_u32 n \<Longrightarrow> claim_typed (c\<lparr>cl_vesting_ends_ledger := n\<rparr>)"
  "claim_typed c \<Longrightarrow> in_u32 n \<Longrightarrow> claim_typed (c\<lparr>cl_approve_deadline_ledger := n\<rparr>)"
  "claim_typed c \<Longrightarrow> in_u32 n \<Longrightarrow> claim_typed (c\<lparr>cl_last_collected_ledger := n\<rparr>)"
  by (simp_all add: claim_typed_def)

lemma stake_typedD: "stake_typed r \<Longrightarrow> in_i128 (sr_amount r)"
  by (simp add: stake_typed_def)

lemma claim_typedD:
  "claim_typed c \<Longrightarrow> in_i128 (cl_entitlement c)" "claim_typed c \<Longrightarrow> in_i128 (cl_streamed c)"
  "claim_typed c \<Longrightarrow> in_u32 (cl_tier c)" "claim_typed c \<Longrightarrow> in_u64 (cl_hack_timestamp c)"
  by (simp_all add: claim_typed_def)

lemma initialize_typed:
  "initialize H e admin orc pk cos token cap s = Ok (u, s') \<Longrightarrow> in_i128 cap \<Longrightarrow> state_typed s \<Longrightarrow>
   state_typed s'"
  by (auto simp: initialize_def control_simps intro!: typed_writes)

lemma stake_op_typed:
  "stake H e staker amount b s = Ok (u, s') \<Longrightarrow> env_ok e \<Longrightarrow> in_i128 amount \<Longrightarrow> state_typed s \<Longrightarrow>
   state_typed s'"
  by (auto simp: stake_def control_simps intro!: typed_writes split: option.splits)

lemma bank_points_typed [typed_lookups]:
  "bank_points H e k p s = Ok s' \<Longrightarrow> state_typed s \<Longrightarrow> state_typed s'"
  by (auto simp: bank_points_def control_simps intro!: typed_writes split: if_splits)

lemma withdraw_typed:
  "withdraw H e staker b s = Ok (u, s') \<Longrightarrow> state_typed s \<Longrightarrow> state_typed s'"
  by (auto simp: withdraw_def control_simps intro!: typed_writes typed_reads elim!: typed_lookups)

lemma emergency_exit_typed:
  "emergency_exit H e staker s = Ok (u, s') \<Longrightarrow> state_typed s \<Longrightarrow> state_typed s'"
  by (auto simp: emergency_exit_def control_simps intro!: typed_writes typed_reads
      elim!: typed_lookups)

lemma set_beneficiary_typed:
  "set_beneficiary H e staker b s = Ok (u, s') \<Longrightarrow> state_typed s \<Longrightarrow> state_typed s'"
  by (auto simp: set_beneficiary_def control_simps intro!: typed_writes typed_reads
      elim!: typed_lookups)

subsection \<open>Administration and the yield layer\<close>

lemmas admin_op_defs =
  transfer_admin_def pause_def unpause_def suspend_stake_def set_pool_cap_def set_oracle_def
  set_oracle_pubkey_def set_oracle_identity_def set_co_signer_def

lemma admin_ops_typed:
  "transfer_admin H e a s = Ok (u, s') \<Longrightarrow> state_typed s \<Longrightarrow> state_typed s'"
  "pause e s = Ok (u, s') \<Longrightarrow> state_typed s \<Longrightarrow> state_typed s'"
  "unpause e s = Ok (u, s') \<Longrightarrow> state_typed s \<Longrightarrow> state_typed s'"
  "suspend_stake H e k s = Ok (u, s') \<Longrightarrow> state_typed s \<Longrightarrow> state_typed s'"
  "set_pool_cap H e cap s = Ok (u, s') \<Longrightarrow> in_i128 cap \<Longrightarrow> state_typed s \<Longrightarrow> state_typed s'"
  "set_oracle H e a s = Ok (u, s') \<Longrightarrow> state_typed s \<Longrightarrow> state_typed s'"
  "set_oracle_pubkey H e pk s = Ok (u, s') \<Longrightarrow> state_typed s \<Longrightarrow> state_typed s'"
  "set_oracle_identity H e a pk s = Ok (u, s') \<Longrightarrow> state_typed s \<Longrightarrow> state_typed s'"
  "set_co_signer H e a s = Ok (u, s') \<Longrightarrow> state_typed s \<Longrightarrow> state_typed s'"
  by (auto simp: admin_op_defs control_simps intro!: typed_writes elim!: typed_lookups)

lemma get_claim_set_stake [simp]: "get_claim (set_stake H e k r s) = get_claim s"
  by (simp add: fun_eq_iff get_claim_def set_stake_def touch_def)

lemma unsuspend_stake_typed:
  assumes "unsuspend_stake H e k cid s = Ok (u, s')" "env_ok e" "state_typed s"
  shows "state_typed s'"
proof (cases "\<exists>j c. cid = Some j \<and> get_claim s j = Some c \<and> cl_wallet c = k")
  case True
  then obtain j c where "cid = Some j" and c: "get_claim s j = Some c" "cl_wallet c = k"
    by blast
  moreover have "claim_typed c" by (rule typed_get_claim [OF c(1) assms(3)])
  ultimately show ?thesis
    using assms
    by (cases "cl_status c")
      (auto simp: unsuspend_stake_def control_simps intro!: typed_writes typed_reads
        elim!: typed_lookups)
next
  case False
  with assms show ?thesis
    by (cases cid; cases "get_claim s (the cid)")
      (auto simp: unsuspend_stake_def control_simps intro!: typed_writes elim!: typed_lookups)
qed

lemmas vault_config_defs = set_vault_def set_treasury_def set_deploy_bps_def

lemma vault_config_typed:
  "set_vault H e a s = Ok (u, s') \<Longrightarrow> state_typed s \<Longrightarrow> state_typed s'"
  "set_treasury H e a s = Ok (u, s') \<Longrightarrow> state_typed s \<Longrightarrow> state_typed s'"
  "set_deploy_bps H e bps s = Ok (u, s') \<Longrightarrow> in_i128 bps \<Longrightarrow> state_typed s \<Longrightarrow> state_typed s'"
  by (auto simp: vault_config_defs control_simps intro!: typed_writes)

lemma deploy_to_vault_typed:
  "deploy_to_vault H e amount mn s = Ok (x, s') \<Longrightarrow> state_typed s \<Longrightarrow> state_typed s' \<and> in_i128 x"
  by (auto simp: deploy_to_vault_def control_simps intro!: typed_writes)

lemma auto_deploy_liquidity_typed:
  "auto_deploy_liquidity H e s = Ok (x, s') \<Longrightarrow> state_typed s \<Longrightarrow> state_typed s' \<and> in_i128 x"
  by (auto simp: auto_deploy_liquidity_def control_simps intro!: typed_writes split: if_splits)

lemma redeem_typed:
  "redeem H v shares mn s = Ok ((x, p), s') \<Longrightarrow> state_typed s \<Longrightarrow>
   state_typed s' \<and> in_i128 x \<and> in_i128 p"
  by (auto simp: redeem_def control_simps intro!: typed_writes typed_reads split: if_splits)

lemma provide_liquidity_typed:
  "provide_liquidity H e shares mn s = Ok (x, s') \<Longrightarrow> state_typed s \<Longrightarrow> state_typed s' \<and> in_i128 x"
  by (auto simp: provide_liquidity_def control_simps dest: redeem_typed)

lemma ensure_liquidity_typed:
  "ensure_liquidity H e s = Ok (x, s') \<Longrightarrow> state_typed s \<Longrightarrow> state_typed s' \<and> in_i128 x"
  by (auto simp: ensure_liquidity_def control_simps dest: redeem_typed split: if_splits)

lemma extract_yield_typed:
  "extract_yield H e shares mn s = Ok (x, s') \<Longrightarrow> state_typed s \<Longrightarrow> state_typed s' \<and> in_i128 x"
  by (auto simp: extract_yield_def control_simps intro!: typed_writes
      dest: redeem_typed split: if_splits)

lemma withdraw_yield_typed:
  "withdraw_yield H e amount s = Ok (u, s') \<Longrightarrow> state_typed s \<Longrightarrow> state_typed s'"
  by (auto simp: withdraw_yield_def control_simps intro!: typed_writes)

subsection \<open>Claims\<close>

lemma typed_new_claim [typed_writes]:
  "in_u64 hack \<Longrightarrow> in_i128 ent \<Longrightarrow> in_i128 amount \<Longrightarrow> in_u32 tier \<Longrightarrow>
   claim_typed (new_claim wallet tx hack ent amount tier st)"
  by (simp add: new_claim_def claim_typed_def)

lemma admit_claim_typed:
  "admit_claim H e wallet tx k ent tier hack r counted s = Ok s' \<Longrightarrow> env_ok e \<Longrightarrow> stake_typed r \<Longrightarrow>
   in_i128 ent \<Longrightarrow> in_u32 tier \<Longrightarrow> in_u64 hack \<Longrightarrow> state_typed s \<Longrightarrow> state_typed s'"
  by (auto simp: admit_claim_def control_simps intro!: typed_writes typed_reads stake_typedD
      split: prod.splits if_splits)

lemma submit_checks_stake: "submit_checks H e caller wallet tx ent tier hack dl sig s = Ok r \<Longrightarrow>
   get_stake s wallet = Some r"
  by (auto simp: submit_checks_def control_simps)

lemma queue_claim_typed [typed_writes]:
  "stake_typed r \<Longrightarrow> in_i128 ent \<Longrightarrow> in_u32 tier \<Longrightarrow> in_u64 hack \<Longrightarrow> state_typed s \<Longrightarrow>
   state_typed (queue_claim H e wallet tx k ent tier hack r s)"
  by (auto simp: queue_claim_def Let_def intro!: typed_writes stake_typedD)

lemma submit_claim_typed:
  assumes "submit_claim H e caller wallet tx ent tier hack dl sig s = Ok (k, s')"
    and "env_ok e" "in_i128 ent" "in_u32 tier" "in_u64 hack" "state_typed s"
  shows "state_typed s'"
proof -
  from assms(1) obtain r where r: "submit_checks H e caller wallet tx ent tier hack dl sig s = Ok r"
    by (auto simp: submit_claim_def control_simps)
  have "stake_typed r"
    by (rule typed_get_stake [OF submit_checks_stake [OF r] assms(6)])
  with assms r show ?thesis
    by (auto simp: submit_claim_def control_simps intro!: typed_writes elim!: admit_claim_typed
        split: if_splits option.splits)
qed

lemma try_release_queued_claim_typed:
  assumes "try_release_queued_claim H e k s = Ok (u, s')" "env_ok e" "state_typed s"
  shows "state_typed s'"
  using assms
  by (cases "get_daily_entitlement (current_day e) s")
    (auto simp: try_release_queued_claim_def control_simps intro!: typed_writes claim_typedD
      elim!: admit_claim_typed typed_lookups)

lemma queue_ops_typed:
  "expire_queued_claim H e k s = Ok (u, s') \<Longrightarrow> state_typed s \<Longrightarrow> state_typed s'"
  "revoke_approval H e caller wallet tx ent tier hack dl s = Ok (u, s') \<Longrightarrow> state_typed s \<Longrightarrow>
   state_typed s'"
  by (auto simp: expire_queued_claim_def revoke_approval_def control_simps intro!: typed_writes
      elim!: typed_lookups)

lemma activate_claim_typed:
  "activate_claim H e r c s = Ok ((p, r', c'), s') \<Longrightarrow> env_ok e \<Longrightarrow> stake_typed r \<Longrightarrow> claim_typed c \<Longrightarrow>
   state_typed s \<Longrightarrow> stake_typed r' \<and> claim_typed c' \<and> state_typed s'"
  by (auto simp: activate_claim_def control_simps intro!: typed_writes typed_reads stake_typedD)

lemma approve_claim_typed:
  assumes "approve_claim H e k s = Ok (u, s')" "env_ok e" "state_typed s"
  shows "state_typed s'"
proof -
  from assms(1) obtain c r p r' c' s1 where c: "get_claim s k = Some c"
    and r: "get_stake s (cl_wallet c) = Some r"
    and act: "activate_claim H e r c s = Ok ((p, r', c'), s1)"
    and s': "s' = publish (EvClaimApproved (cl_wallet c) k p) (bump_instance_ttl H e
      (set_claim H e k c' (set_stake H e (cl_wallet c) r' s1)))"
    by (auto simp: approve_claim_def control_simps)
  have "stake_typed r' \<and> claim_typed c' \<and> state_typed s1"
    by (rule activate_claim_typed [OF act assms(2) typed_get_stake [OF r assms(3)]
          typed_get_claim [OF c assms(3)] assms(3)])
  then show ?thesis by (simp add: s' typed_writes)
qed

lemma claim_clock_ops_typed:
  "unlock_pending_claim H e k s = Ok (u, s') \<Longrightarrow> env_ok e \<Longrightarrow> state_typed s \<Longrightarrow> state_typed s'"
  "expire_pending_approval H e k s = Ok (u, s') \<Longrightarrow> state_typed s \<Longrightarrow> state_typed s'"
  "expire_stale_claim H e k s = Ok (u, s') \<Longrightarrow> state_typed s \<Longrightarrow> state_typed s'"
  by (auto simp: unlock_pending_claim_def expire_pending_approval_def expire_stale_claim_def
      control_simps intro!: typed_writes typed_reads elim!: typed_lookups)

lemma typed_collected [typed_writes]:
  "claim_typed c \<Longrightarrow> in_i128 v \<Longrightarrow> env_ok e \<Longrightarrow> claim_typed (collected e v c)"
  by (auto simp: collected_def Let_def intro!: typed_writes typed_reads)

lemma pay_stream_typed:
  "pay_stream H e k c b amount s = Ok (x, s') \<Longrightarrow> env_ok e \<Longrightarrow> claim_typed c \<Longrightarrow> state_typed s \<Longrightarrow>
   state_typed s' \<and> x = amount"
  by (auto simp: pay_stream_def control_simps intro!: typed_writes typed_reads)

lemma available_today_typed: "available_today e c s = Ok x \<Longrightarrow> in_i128 x"
  by (auto simp: available_today_def control_simps intro!: typed_reads)

lemma claim_stream_typed:
  "claim_stream H e k b s = Ok (x, s') \<Longrightarrow> env_ok e \<Longrightarrow> state_typed s \<Longrightarrow> state_typed s' \<and> in_i128 x"
  by (auto simp: claim_stream_def control_simps intro!: typed_reads
      dest!: pay_stream_typed available_today_typed elim!: typed_lookups)

lemma cancel_claim_typed:
  assumes "cancel_claim H e k s = Ok (u, s')" "env_ok e" "state_typed s"
  shows "state_typed s'"
proof -
  from assms(1) obtain c where c: "get_claim s k = Some c" by (auto simp: cancel_claim_def control_simps)
  have "claim_typed c" by (rule typed_get_claim [OF c assms(3)])
  with c assms show ?thesis
    by (cases "cl_status c = Active")
      (auto simp: cancel_claim_def control_simps intro!: typed_writes typed_reads
        elim!: typed_lookups)
qed

subsection \<open>The override\<close>

lemma get_stake_set_allocated [simp]: "get_stake (set_total_allocated v s) = get_stake s"
  by (simp add: fun_eq_iff get_stake_def set_total_allocated_def)

lemma release_prior_typed:
  "release_prior (get_claim s k) s = Ok (x, s') \<Longrightarrow> state_typed s \<Longrightarrow>
   state_typed s' \<and> in_i128 x \<and> get_stake s' = get_stake s"
  by (cases "get_claim s k")
    (auto simp: release_prior_def control_simps
      intro!: typed_reads claim_typedD typed_writes elim!: typed_lookups split: if_splits)

lemma activate_override_typed:
  "activate_override H e r c s = Ok ((p, r', c'), s') \<Longrightarrow> env_ok e \<Longrightarrow> stake_typed r \<Longrightarrow> claim_typed c \<Longrightarrow>
   state_typed s \<Longrightarrow> stake_typed r' \<and> claim_typed c' \<and> state_typed s'"
  by (cases "sr_withdrawn r")
    (auto simp: activate_override_def control_simps intro!: typed_writes typed_reads
      dest: activate_claim_typed)

lemma typed_override_claim [typed_writes]:
  "env_ok e \<Longrightarrow> request_typed req \<Longrightarrow> in_i128 x \<Longrightarrow> in_i128 amount \<Longrightarrow>
   claim_typed (override_claim e req x amount)"
  by (auto simp: override_claim_def request_typed_def intro!: typed_writes typed_reads)

lemma execute_override_typed:
  assumes "execute_override H e k req s = Ok s'" "env_ok e" "request_typed req" "state_typed s"
  shows "state_typed s'"
proof -
  from assms(1) obtain x s1 r allocated p r' c' s3 where
    prior: "release_prior (get_claim s k) s = Ok (x, s1)" and
    r: "get_stake s1 (ov_wallet req) = Some r" and
    a: "in_i128 allocated" and
    act: "activate_override H e r (override_claim e req x (sr_amount r))
        (set_total_allocated allocated s1) = Ok ((p, r', c'), s3)" and
    s': "s' = publish (EvOverrideExecuted (ov_wallet req) k p) (bump_instance_ttl H e
          (set_claim H e k c' (set_stake H e (ov_wallet req)
            (if sr_reserved_claim_id r' = Some k
             then r'\<lparr>sr_active_claim_id := Some k, sr_reserved_claim_id := None\<rparr>
             else r'\<lparr>sr_active_claim_id := Some k\<rparr>) s3)))"
    unfolding execute_override_def
    by (auto simp: and_then_eq_Ok ok_or_eq_Ok if_Err_eq_Ok Let_def split: prod.splits)
  from release_prior_typed [OF prior assms(4)]
  have s1: "state_typed s1" "in_i128 x" by simp_all
  have rt: "stake_typed r" by (rule typed_get_stake [OF r s1(1)])
  from a have "stake_typed r' \<and> claim_typed c' \<and> state_typed s3"
    by (intro activate_override_typed [OF act assms(2) rt] typed_writes assms s1 stake_typedD rt)
  then show ?thesis by (simp add: s' typed_writes)
qed

lemma approve_override_typed:
  assumes "approve_override H e caller wallet tx ent tier s = Ok (u, s')"
    and "env_ok e" "in_i128 ent" "in_u32 tier" "state_typed s"
  shows "state_typed s'"
proof -
  have req: "request_typed (record_approval caller a b req)" if "ov_entitlement req = ent"
    "ov_tier req = tier" for a b req
    using that assms by (simp add: record_approval_def request_typed_def Let_def)
  show ?thesis
    using assms(1,2,5)
    by (auto simp: approve_override_def control_simps intro!: typed_writes req
        elim!: execute_override_typed split: if_splits)
qed

lemma cancel_pending_override_typed:
  "cancel_pending_override H e caller wallet tx s = Ok (u, s') \<Longrightarrow> state_typed s \<Longrightarrow> state_typed s'"
  by (auto simp: cancel_pending_override_def control_simps intro!: typed_writes)

section \<open>Every entry point\<close>

lemmas unit_ops_typed =
  stake_op_typed set_beneficiary_typed withdraw_typed emergency_exit_typed admin_ops_typed
  unsuspend_stake_typed vault_config_typed withdraw_yield_typed queue_ops_typed
  try_release_queued_claim_typed approve_claim_typed claim_clock_ops_typed cancel_claim_typed
  approve_override_typed cancel_pending_override_typed

lemmas int_ops_typed =
  claim_stream_typed deploy_to_vault_typed auto_deploy_liquidity_typed provide_liquidity_typed
  ensure_liquidity_typed extract_yield_typed

lemma exec_typed:
  assumes "exec H e c s = Ok (r, s')" "env_ok e" "call_typed c" "state_typed s"
  shows "state_typed s' \<and> ret_typed r"
  using assms
  by (cases c)
    (auto simp: returns_eq_Ok dest: int_ops_typed elim!: unit_ops_typed elim: submit_claim_typed)

lemma empty_state_typed: "state_typed (empty_state w)"
  by (simp add: state_typed_def globals_typed_def records_typed_def empty_state_def)

lemma run_typed:
  assumes "run H cs s = Ok (u, s')" "\<forall>(e, c) \<in> set cs. env_ok e \<and> call_typed c" "state_typed s"
  shows "state_typed s'"
  using assms
  by (induction H cs s rule: run.induct) (auto simp: and_then_eq_Ok dest: exec_typed)

lemma deployment_typed: "state_typed (state_of deployment)"
proof -
  have "deployment = Ok (result_of deployment, state_of deployment)"
    by (rule is_ok_result [OF deployment_ok])
  then show ?thesis
    unfolding deployment_def
    by (rule initialize_typed) (simp_all add: in_i128_def i128_min_def i128_max_def empty_state_typed)
qed

text \<open>
  The typing invariant at work: the state of a run of typed calls is typed, and stays so under the
  next typed call.
\<close>

lemma active_run_typed: "state_typed (after active_run)"
proof -
  have "run ref_host active_run (state_of deployment) =
      Ok (result_of (run ref_host active_run (state_of deployment)), after active_run)"
    unfolding after_def by (rule is_ok_result [OF active_run_ok])
  then show ?thesis
    by (rule run_typed [OF _ _ deployment_typed])
      (simp add: active_run_def awaiting_run_def staked_run_def env_ok_on_day in_i128_def i128_min_def
        i128_max_def in_u32_def u32_max_def in_u64_def u64_max_def)
qed

end
