(* ===== verification/Views.thy ===== *)
theory Views
  imports Entrypoints
begin

text \<open>
  The read-only entry points of \<^verbatim>\<open>contracts/protection-pool/src/lib.rs\<close>: each is a
  constructor of \<open>view\<close>, and \<open>query\<close> answers it from the state without a new one. A view that
  computes can trap on overflow, one that only reads cannot. The lemmas say what an answer lets
  the caller conclude about the calls that follow.
\<close>

section \<open>The views\<close>

datatype (plugins only: code) view =
    GetStake address
  | GetClaim bytes
  | GetPointsBalance address
  | IsEligible address
  | IsClaimEligible address
  | GetLiquidBalance
  | GetTotalDeployedXlm
  | GetTotalDeployedShares
  | GetYieldBalance
  | GetTotalExtractedYield
  | GetDeployBps
  | GetVault
  | GetDeploymentRatioBps
  | GetTotalStaked
  | GetTotalAllocated
  | GetTotalStakers
  | IsPaused

datatype (plugins only: code) answer = AStake "stake_record option" | AClaim "claim option"
  | AAddress "address option" | AInt int | ABool bool

definition answers :: "('a \<Rightarrow> answer) \<Rightarrow> 'a outcome \<Rightarrow> answer outcome" where
  "answers f m = and_then m (\<lambda>x. Ok (f x))"

text \<open>The views over the pool's figures and the yield layer.\<close>

fun query_pool :: "'w host \<Rightarrow> view \<Rightarrow> 'w state \<Rightarrow> answer outcome" where
  "query_pool H GetLiquidBalance s = answers AInt (liquid_balance H s)"
| "query_pool H GetTotalDeployedXlm s = Ok (AInt (get_total_deployed_xlm s))"
| "query_pool H GetTotalDeployedShares s = Ok (AInt (get_total_deployed_shares s))"
| "query_pool H GetYieldBalance s = answers AInt (yield_balance H s)"
| "query_pool H GetTotalExtractedYield s = Ok (AInt (get_total_extracted_yield s))"
| "query_pool H GetDeployBps s = Ok (AInt (get_deploy_bps s))"
| "query_pool H GetVault s = Ok (AAddress (get_vault s))"
| "query_pool H GetDeploymentRatioBps s = answers AInt (deployment_ratio_bps s)"
| "query_pool H GetTotalStaked s = Ok (AInt (get_total_staked s))"
| "query_pool H GetTotalAllocated s = Ok (AInt (get_total_allocated s))"
| "query_pool H GetTotalStakers s = Ok (AInt (get_total_stakers s))"
| "query_pool H _ s = Ok (ABool (is_paused s))"

fun query :: "'w host \<Rightarrow> env \<Rightarrow> view \<Rightarrow> 'w state \<Rightarrow> answer outcome" where
  "query H e (GetStake wallet) s = Ok (AStake (get_stake s wallet))"
| "query H e (GetClaim k) s = Ok (AClaim (get_claim s k))"
| "query H e (GetPointsBalance wallet) s = answers AInt (points_view e wallet s)"
| "query H e (IsEligible wallet) s = Ok (ABool (is_eligible wallet s))"
| "query H e (IsClaimEligible wallet) s = Ok (ABool (is_claim_eligible e wallet s))"
| "query H e v s = query_pool H v s"

lemma answers_eq_Ok [ok_simps]: "answers f m = Ok a \<longleftrightarrow> (\<exists>x. m = Ok x \<and> a = f x)"
  by (auto simp: answers_def ok_simps)

section \<open>What an answer is good for\<close>

text \<open>Only a wallet that the view calls eligible has its claim accepted.\<close>

lemma submission_needs_eligibility:
  assumes "submit_claim H e caller wallet tx ent tier hack dl sig s = Ok (k, s')"
  shows "query H e (IsEligible wallet) s = Ok (ABool True)"
  using assms
  by (auto simp: submit_claim_def submit_checks_def ok_simps Let_def is_eligible_def
      split: option.splits if_splits)

text \<open>A withdrawal of yield is within the view's figure, and within the liquid balance.\<close>

lemma yield_view_bounds_withdrawal:
  assumes "withdraw_yield H e amount s = Ok (u, s')"
  shows "\<exists>y l. query H e GetYieldBalance s = Ok (AInt y) \<and> query H e GetLiquidBalance s = Ok (AInt l) \<and>
    0 < amount \<and> amount \<le> y \<and> amount \<le> l"
  using assms
  by (fastforce simp: withdraw_yield_def and_then_eq_Ok ok_or_eq_Ok if_Err_eq_Ok answers_def)

text \<open>Before a withdrawal the points view shows what the withdrawal then banks.\<close>

lemma points_view_before_withdrawal:
  assumes "withdraw H e staker b s = Ok (u, s')"
    and "query H e (GetPointsBalance staker) s = Ok (AInt p)" "0 < p"
  shows "query H e (GetPointsBalance staker) s' = Ok (AInt (get_points_balance s staker + p))"
proof -
  from withdraw_Ok [OF assms(1)] obtain r token w points lu ev where
    r: "st_stakes s staker = Some r" "active_stake r" "compute_points_for_record e r s = Ok points"
    and s': "s' = (exited staker r s)\<lparr>st_points := banked staker points (st_points s),
      st_live_until := lu, st_events := ev, st_world := w\<rparr>"
    by blast
  from r assms(2) have "points = p"
    by (simp add: points_view_def get_stake_def active_stake_def answers_def)
  with s' assms(3) show ?thesis
    by (simp add: points_view_def get_stake_def get_points_balance_def exited_def banked_def
        answers_def)
qed

end

