(* ===== verification/Fuzz_Targets.thy ===== *)
theory Fuzz_Targets
  imports Staking_Properties Claim_Ledger
begin

text \<open>
  The two fuzz targets of \<^verbatim>\<open>contracts/protection-pool/fuzz/fuzz_targets\<close>: their operations, the
  interpretation of each operation as a call of the contract with every authorization mocked, and
  the assertions they evaluate after every operation. What the SDK's test utilities generate
  (addresses, the token, the oracle's signing key) is the \<open>rig\<close>, a parameter.
\<close>

section \<open>The rig and the state of a run\<close>

record rig =
  rg_wallets :: "address list"
  rg_beneficiaries :: "address list"
  rg_admins :: "address list"
  rg_co_signers :: "address list"
  rg_oracle :: address
  rg_pubkey :: bytes
  rg_sign :: "bytes \<Rightarrow> bytes"
  rg_token :: address

record 'w fuzz_state =
  fz_pool :: "'w state"
  fz_seq :: int
  fz_time :: int
  fz_claims :: "(bytes \<times> address) list"
  fz_current_admin :: address

definition FUZZ_POOL_CAP :: int where "FUZZ_POOL_CAP = 100000000000"

text \<open>\<open>env.mock_all_auths()\<close>.\<close>

definition mocked_env :: "'w fuzz_state \<Rightarrow> env" where
  "mocked_env z = \<lparr>e_seq = fz_seq z, e_time = fz_time z, e_auth = (\<lambda>_. True)\<rparr>"

text \<open>Registration of the contract and of the accounts; \<open>None\<close> when the constructor fails.\<close>

definition fuzz_setup :: "'w host \<Rightarrow> rig \<Rightarrow> 'w \<Rightarrow> 'w fuzz_state option" where
  "fuzz_setup H rg w =
     (case initialize H \<lparr>e_seq = 1000000, e_time = 1700000000, e_auth = (\<lambda>_. True)\<rparr>
             (rg_admins rg ! 0) (rg_oracle rg) (rg_pubkey rg) (rg_co_signers rg ! 0) (rg_token rg)
             FUZZ_POOL_CAP (empty_state w) of
        Ok (_, s) \<Rightarrow>
          Some \<lparr>fz_pool = s, fz_seq = 1000000, fz_time = 1700000000, fz_claims = [],
            fz_current_admin = rg_admins rg ! 0\<rparr>
      | _ \<Rightarrow> None)"

text \<open>
  Both targets fund their wallets first, through the \<open>mint\<close> of the SDK's asset client; the
  override target tracks the admin from there on.
\<close>

definition fund_wallets :: "(address \<Rightarrow> address \<Rightarrow> int \<Rightarrow> 'w \<Rightarrow> 'w) \<Rightarrow> rig \<Rightarrow> 'w \<Rightarrow> 'w" where
  "fund_wallets mint rg w = fold (\<lambda>a. mint (rg_token rg) a FUZZ_POOL_CAP) (rg_wallets rg) w"

definition override_setup ::
  "(address \<Rightarrow> address \<Rightarrow> int \<Rightarrow> 'w \<Rightarrow> 'w) \<Rightarrow> 'w host \<Rightarrow> rig \<Rightarrow> 'w \<Rightarrow> 'w fuzz_state option" where
  "override_setup mint H rg w = fuzz_setup H rg (fund_wallets mint rg w)"

section \<open>Operations\<close>

text \<open>A \<open>try_\<close> call whose result is dropped.\<close>

definition try_call :: "'w host \<Rightarrow> pool_call \<Rightarrow> 'w fuzz_state \<Rightarrow> 'w fuzz_state" where
  "try_call H c z = z\<lparr>fz_pool := invoke H (mocked_env z) c (fz_pool z)\<rparr>"

definition pick :: "'a list \<Rightarrow> nat \<Rightarrow> 'a" where
  "pick xs i = xs ! (i mod length xs)"

text \<open>
  A submission signed by the oracle's key; the claim id is kept when it is accepted. \<open>None\<close> is the
  overflow panic of \<open>now + 3_600\<close>.
\<close>

definition signed_submit ::
  "'w host \<Rightarrow> rig \<Rightarrow> nat \<Rightarrow> bytes \<Rightarrow> int \<Rightarrow> nat \<Rightarrow> 'w fuzz_state \<Rightarrow> 'w fuzz_state option" where
  "signed_submit H rg wallet hash entitlement tier z =
     (let now = fz_time z;
          a = pick (rg_wallets rg) wallet;
          tier_val = 1 + int (tier mod 3) in
      case add_u64 now 3600 of
        Ok deadline \<Rightarrow>
          let payload = build_approval_payload H a hash entitlement tier_val now deadline;
              sig = rg_sign rg payload in
          Some (case submit_claim H (mocked_env z) (rg_oracle rg) a hash entitlement tier_val now
                       deadline sig (fz_pool z) of
                  Ok (k, s') \<Rightarrow>
                    z\<lparr>fz_pool := s',
                      fz_claims := fz_claims z @ [(k, pick (rg_beneficiaries rg) wallet)]\<rparr>
                | _ \<Rightarrow> z)
      | _ \<Rightarrow> None)"

definition stream_any :: "'w host \<Rightarrow> nat \<Rightarrow> 'w fuzz_state \<Rightarrow> 'w fuzz_state" where
  "stream_any H claim_idx z =
     (if fz_claims z = [] then z
      else let (k, ben) = pick (fz_claims z) claim_idx in try_call H (ClaimStream k ben) z)"

definition cancel_any :: "'w host \<Rightarrow> nat \<Rightarrow> 'w fuzz_state \<Rightarrow> 'w fuzz_state" where
  "cancel_any H claim_idx z =
     (if fz_claims z = [] then z
      else try_call H (CancelClaim (fst (pick (fz_claims z) claim_idx))) z)"

definition advance_days :: "nat \<Rightarrow> 'w fuzz_state \<Rightarrow> 'w fuzz_state option" where
  "advance_days days z =
     (let d = 1 + int (days mod 100) in
      case (add_u32 (fz_seq z) (d * 17280), add_u64 (fz_time z) (d * 86400)) of
        (Ok q, Ok t) \<Rightarrow> Some (z\<lparr>fz_seq := q, fz_time := t\<rparr>)
      | _ \<Rightarrow> None)"

text \<open>\<^verbatim>\<open>fuzz_solvency.rs\<close>.\<close>

datatype solvency_op =
    OpStake nat int
  | OpWithdraw nat
  | OpSubmitClaim nat int nat
  | OpClaimStream nat
  | OpCancelClaim nat
  | OpAdvanceDays nat

fun apply_solvency :: "'w host \<Rightarrow> rig \<Rightarrow> solvency_op \<Rightarrow> 'w fuzz_state \<Rightarrow> 'w fuzz_state option" where
  "apply_solvency H rg (OpStake wallet amount) z =
     Some (try_call H (Stake (pick (rg_wallets rg) wallet) amount (pick (rg_beneficiaries rg) wallet)) z)"
| "apply_solvency H rg (OpWithdraw wallet) z =
     Some (try_call H (Withdraw (pick (rg_wallets rg) wallet) (pick (rg_beneficiaries rg) wallet)) z)"
| "apply_solvency H rg (OpSubmitClaim wallet entitlement tier) z =
     signed_submit H rg wallet (replicate 32 (of_nat (length (fz_claims z)))) entitlement tier z"
| "apply_solvency H rg (OpClaimStream claim_idx) z = Some (stream_any H claim_idx z)"
| "apply_solvency H rg (OpCancelClaim claim_idx) z = Some (cancel_any H claim_idx z)"
| "apply_solvency H rg (OpAdvanceDays days) z = advance_days days z"

text \<open>\<^verbatim>\<open>fuzz_override.rs\<close>.\<close>

datatype override_op =
    OvStake nat int
  | OvSubmitClaim nat nat int nat
  | OvApproveOverride bool nat nat nat int nat
  | OvCancelPendingOverride nat nat
  | OvTransferAdmin nat
  | OvSetCoSigner nat
  | OvClaimStream nat
  | OvCancelClaim nat
  | OvAdvanceDays nat

definition tx_hashes :: "bytes list" where
  "tx_hashes = map (\<lambda>i. replicate 32 (of_nat i)) [0..<3]"

fun apply_override :: "'w host \<Rightarrow> rig \<Rightarrow> override_op \<Rightarrow> 'w fuzz_state \<Rightarrow> 'w fuzz_state option" where
  "apply_override H rg (OvStake wallet amount) z =
     Some (try_call H (Stake (pick (rg_wallets rg) wallet) amount (pick (rg_beneficiaries rg) wallet)) z)"
| "apply_override H rg (OvSubmitClaim wallet tx entitlement tier) z =
     signed_submit H rg wallet (pick tx_hashes tx) entitlement tier z"
| "apply_override H rg (OvApproveOverride caller_is_admin_slot actor wallet tx entitlement tier) z =
     (let caller = (if caller_is_admin_slot then pick (rg_admins rg) actor
                    else pick (rg_co_signers rg) actor) in
      Some (try_call H (ApproveOverride caller (pick (rg_wallets rg) wallet) (pick tx_hashes tx)
              entitlement (1 + int (tier mod 3))) z))"
| "apply_override H rg (OvCancelPendingOverride wallet tx) z =
     Some (try_call H (CancelPendingOverride (fz_current_admin z) (pick (rg_wallets rg) wallet)
             (pick tx_hashes tx)) z)"
| "apply_override H rg (OvTransferAdmin new_admin) z =
     (let new = pick (rg_admins rg) new_admin in
      Some (case transfer_admin H (mocked_env z) new (fz_pool z) of
              Ok (_, s') \<Rightarrow> z\<lparr>fz_pool := s', fz_current_admin := new\<rparr>
            | _ \<Rightarrow> z))"
| "apply_override H rg (OvSetCoSigner new_co_signer) z =
     Some (try_call H (SetCoSigner (pick (rg_co_signers rg) new_co_signer)) z)"
| "apply_override H rg (OvClaimStream claim_idx) z = Some (stream_any H claim_idx z)"
| "apply_override H rg (OvCancelClaim claim_idx) z = Some (cancel_any H claim_idx z)"
| "apply_override H rg (OvAdvanceDays days) z = advance_days days z"

section \<open>Runs and their assertions\<close>

definition allocated_within_staked :: "'w fuzz_state \<Rightarrow> bool" where
  "allocated_within_staked z \<longleftrightarrow> get_total_allocated (fz_pool z) \<le> get_total_staked (fz_pool z)"

definition totals_non_negative :: "'w fuzz_state \<Rightarrow> bool" where
  "totals_non_negative z \<longleftrightarrow>
     0 \<le> get_total_allocated (fz_pool z) \<and> 0 \<le> get_total_staked (fz_pool z)"

datatype 'w verdict = Clean "'w fuzz_state" | Panicked | Violated "'w fuzz_state"

fun fuzz_run ::
  "('op \<Rightarrow> 'w fuzz_state \<Rightarrow> 'w fuzz_state option) \<Rightarrow> 'op list \<Rightarrow> 'w fuzz_state \<Rightarrow> 'w verdict" where
  "fuzz_run apply_op [] z = Clean z"
| "fuzz_run apply_op (op # ops) z =
     (case apply_op op z of
        None \<Rightarrow> Panicked
      | Some z' \<Rightarrow>
          if allocated_within_staked z' \<and> totals_non_negative z' then fuzz_run apply_op ops z'
          else Violated z')"

text \<open>A property of the states of a run that every operation preserves.\<close>

lemma fuzz_run_invariant:
  assumes "\<And>op z z'. P z \<Longrightarrow> apply_op op z = Some z' \<Longrightarrow> P z'" "P z"
    and "fuzz_run apply_op ops z = Clean y \<or> fuzz_run apply_op ops z = Violated y"
  shows "P y"
  using assms(2,3)
proof (induction ops arbitrary: z)
  case (Cons op ops)
  then show ?case
    by (auto split: option.splits if_splits dest: assms(1))
qed simp

section \<open>What the solvency target can reach\<close>

text \<open>No claim is past its approval: the target has no operation that approves one.\<close>

definition unconfirmed :: "'w state \<Rightarrow> bool" where
  "unconfirmed s \<longleftrightarrow> (\<forall>k c. st_claims s k = Some c \<longrightarrow> cl_status c \<noteq> Active \<and> cl_status c \<noteq> Completed)"

definition settled :: "'w state \<Rightarrow> bool" where
  "settled s \<longleftrightarrow> pool_ledger_ok s \<and> books_balanced s \<and> unconfirmed s"

lemma unconfirmed_no_stream: "unconfirmed s \<Longrightarrow> claim_stream H e k b s \<noteq> Ok (x, s')"
  by (auto dest!: claim_stream_Ok simp: unconfirmed_def)

lemma unconfirmed_calls:
  "stake H e st a b s = Ok (u, s') \<Longrightarrow> unconfirmed s \<Longrightarrow> unconfirmed s'"
  "withdraw H e st b s = Ok (u, s') \<Longrightarrow> unconfirmed s \<Longrightarrow> unconfirmed s'"
  "submit_claim H e cl wallet tx ent tier hack dl sig s = Ok (k, s') \<Longrightarrow> unconfirmed s \<Longrightarrow> unconfirmed s'"
  "cancel_claim H e k s = Ok (u, s') \<Longrightarrow> unconfirmed s \<Longrightarrow> unconfirmed s'"
  by (auto dest!: stake_Ok withdraw_Ok submit_claim_Ok cancel_claim_Ok
      simp: unconfirmed_def exited_def queued_def admitted_def admitted_claim_def cancelled_def
        released_def split: if_splits)

lemma ledger_kept: "exec H e c s = Ok (r, s') \<Longrightarrow> pool_ledger_ok s \<Longrightarrow> pool_ledger_ok s'"
  using ledger_step_ok [OF exec_refines] by (auto simp: pool_ledger_ok_def)

lemma settled_calls:
  "exec H e (Stake st a b) s = Ok (r, s') \<Longrightarrow> settled s \<Longrightarrow> settled s'"
  "exec H e (Withdraw st b) s = Ok (r, s') \<Longrightarrow> settled s \<Longrightarrow> settled s'"
  "exec H e (SubmitClaim cl wallet tx ent tier hack dl sig) s = Ok (r, s') \<Longrightarrow> settled s \<Longrightarrow> settled s'"
  "exec H e (CancelClaim k) s = Ok (r, s') \<Longrightarrow> settled s \<Longrightarrow> settled s'"
  "exec H e (ClaimStream k b) s = Ok (r, s') \<Longrightarrow> settled s \<Longrightarrow> settled s'"
proof -
  assume ok: "exec H e (Stake st a b) s = Ok (r, s')" and s: "settled s"
  from ok have "stake H e st a b s = Ok ((), s')" by (auto simp: returns_eq_Ok)
  with ledger_kept [OF ok] s show "settled s'"
    by (auto simp: settled_def intro: stake_keeps_books unconfirmed_calls)
next
  assume ok: "exec H e (Withdraw st b) s = Ok (r, s')" and s: "settled s"
  from ok have "withdraw H e st b s = Ok ((), s')" by (auto simp: returns_eq_Ok)
  with ledger_kept [OF ok] s show "settled s'"
    by (auto simp: settled_def intro: withdraw_keeps_books unconfirmed_calls)
next
  assume ok: "exec H e (SubmitClaim cl wallet tx ent tier hack dl sig) s = Ok (r, s')" and s: "settled s"
  from ok obtain k where "submit_claim H e cl wallet tx ent tier hack dl sig s = Ok (k, s')"
    by (auto simp: returns_eq_Ok)
  with ledger_kept [OF ok] s show "settled s'"
    by (auto simp: settled_def intro: submit_claim_keeps_books unconfirmed_calls)
next
  assume ok: "exec H e (CancelClaim k) s = Ok (r, s')" and s: "settled s"
  from ok have c: "cancel_claim H e k s = Ok ((), s')" by (auto simp: returns_eq_Ok)
  have "books_safe (CancelClaim k) s" using s by (auto simp: settled_def unconfirmed_def books_safe_def)
  with c ledger_kept [OF ok] s show "settled s'"
    by (auto simp: settled_def intro: cancel_claim_keeps_books unconfirmed_calls)
next
  assume "exec H e (ClaimStream k b) s = Ok (r, s')" "settled s"
  then show "settled s'" by (auto simp: returns_eq_Ok settled_def unconfirmed_no_stream)
qed

lemma try_call_settled:
  assumes "\<And>r s'. exec H (mocked_env z) c (fz_pool z) = Ok (r, s') \<Longrightarrow> settled s'" "settled (fz_pool z)"
  shows "settled (fz_pool (try_call H c z))"
  using assms by (auto simp: try_call_def invoke_def split: outcome.splits)

lemma signed_submit_settled:
  assumes "signed_submit H rg wallet hash ent tier z = Some z'" "settled (fz_pool z)"
  shows "settled (fz_pool z')"
proof -
  have "settled s'" if "submit_claim H (mocked_env z) cl a hash ent t now dl sig (fz_pool z) = Ok (k, s')"
    for cl a t now dl sig k s'
  proof -
    from that have "exec H (mocked_env z) (SubmitClaim cl a hash ent t now dl sig) (fz_pool z) = Ok (RBytes k, s')"
      by (simp add: returns_eq_Ok)
    from settled_calls(3) [OF this assms(2)] show ?thesis .
  qed
  with assms show ?thesis
    by (auto simp: signed_submit_def Let_def split: outcome.splits)
qed

lemma apply_solvency_settled:
  assumes "settled (fz_pool z)" "apply_solvency H rg op z = Some z'"
  shows "settled (fz_pool z')"
proof (cases op)
  case (OpSubmitClaim wallet ent tier)
  with assms show ?thesis by (auto intro: signed_submit_settled)
next
  case (OpAdvanceDays days)
  with assms show ?thesis by (auto simp: advance_days_def Let_def split: outcome.splits)
qed (use assms settled_calls in \<open>auto simp: stream_any_def cancel_any_def split: prod.splits if_splits
    intro!: try_call_settled\<close>)

lemma fuzz_setup_settled:
  assumes "fuzz_setup H rg w = Some z"
  shows "settled (fz_pool z)"
proof -
  from assms obtain e admin orc pk cos token s where
    ok: "initialize H e admin orc pk cos token FUZZ_POOL_CAP (empty_state w) = Ok ((), s)" and z: "fz_pool z = s"
    by (auto simp: fuzz_setup_def split: outcome.splits)
  have "pool_ledger_ok s" by (rule reserves.after_deploy [OF ok])
  moreover from initialize_Ok [OF ok] have "books_balanced s \<and> unconfirmed s"
    by (auto simp: books_balanced_def unconfirmed_def empty_state_def get_total_staked_def
        get_total_stakers_def)
  ultimately show ?thesis using z by (simp add: settled_def)
qed

text \<open>
  C37. What the solvency fuzz target really exercises: whatever operations are drawn, no run ever
  reaches a claim that can be streamed, because the target never approves one, and the two
  assertions that the totals stay non-negative hold in every state of every run.
\<close>

theorem fuzz_solvency_never_streams:
  assumes "fuzz_setup H rg w = Some z0"
    and "fuzz_run (apply_solvency H rg) ops z0 = Clean z \<or> fuzz_run (apply_solvency H rg) ops z0 = Violated z"
  shows "\<not> is_ok (claim_stream H e k b (fz_pool z)) \<and> totals_non_negative z"
proof -
  have ok: "settled (fz_pool z)"
    by (rule fuzz_run_invariant [where P = "\<lambda>z. settled (fz_pool z)", OF _ fuzz_setup_settled [OF assms(1)] assms(2)])
      (rule apply_solvency_settled)
  then have "0 \<le> get_total_staked (fz_pool z)"
    by (auto simp: settled_def books_balanced_def active_amount_def active_stake_def intro!: sum_map_nonneg)
  moreover have "0 \<le> get_total_allocated (fz_pool z)"
    using ok sum_map_nonneg [of "st_claims (fz_pool z)" reserve]
    by (auto simp: settled_def pool_ledger_ok_def ledger_ok_def reserve_nonneg)
  ultimately show ?thesis
    using ok by (auto simp: settled_def totals_non_negative_def is_ok_iff unconfirmed_no_stream)
qed

definition sample_rig :: rig where
  "sample_rig =
     \<lparr>rg_wallets = [11, 12, 13, 14], rg_beneficiaries = [21, 22, 23, 24], rg_admins = [1, 4],
      rg_co_signers = [3, 6], rg_oracle = 2, rg_pubkey = [5], rg_sign = (\<lambda>m. 5 # m), rg_token = 50\<rparr>"

definition funded_world :: mock_world where
  "funded_world =
     \<lparr>mw_balances = [11 \<mapsto> FUZZ_POOL_CAP, 12 \<mapsto> FUZZ_POOL_CAP, 13 \<mapsto> FUZZ_POOL_CAP, 14 \<mapsto> FUZZ_POOL_CAP],
      mw_shares = Map.empty, mw_rate_bps = 10000, mw_deposit_rate_bps = 10000\<rparr>"

definition fuzz_start :: "mock_world fuzz_state" where
  "fuzz_start = the (fuzz_setup ref_host sample_rig funded_world)"

lemma fuzz_start_set_up: "fuzz_setup ref_host sample_rig funded_world = Some fuzz_start"
proof -
  have "fuzz_setup ref_host sample_rig funded_world \<noteq> None" by code_simp
  then show ?thesis by (auto simp: fuzz_start_def)
qed

text \<open>A small stake with the claim its tier allows, next to a large stake that then leaves.\<close>

definition draining_ops :: "solvency_op list" where
  "draining_ops = [OpStake 0 20000000, OpStake 1 1250000000, OpSubmitClaim 0 300000000 0, OpWithdraw 1]"

definition verdict_of :: "mock_world verdict \<Rightarrow> (int \<times> int) option" where
  "verdict_of v =
     (case v of Violated z \<Rightarrow> Some (get_total_allocated (fz_pool z), get_total_staked (fz_pool z)) | _ \<Rightarrow> None)"

lemma draining_verdict:
  "verdict_of (fuzz_run (apply_solvency ref_host sample_rig) draining_ops fuzz_start)
     = Some (300000000, 20000000)"
  by code_simp

theorem fuzz_solvency_never_streams_witness:
  "\<exists>z. fuzz_run (apply_solvency ref_host sample_rig) draining_ops fuzz_start = Violated z \<and>
     \<not> is_ok (claim_stream ref_host (on_day 20000 [11]) [1, 11, 0] 21 (fz_pool z)) \<and> totals_non_negative z"
proof -
  from draining_verdict obtain z where
    z: "fuzz_run (apply_solvency ref_host sample_rig) draining_ops fuzz_start = Violated z"
    by (auto simp: verdict_of_def split: verdict.splits)
  from fuzz_solvency_never_streams [OF fuzz_start_set_up disjI2 [OF z]] z show ?thesis by blast
qed

text \<open>
  So the assertion of the solvency target does not hold: an admitted claim stays reserved while another
  staker withdraws the principal it was checked against.
\<close>

section \<open>The override target\<close>

definition admin_tracked :: "'w fuzz_state \<Rightarrow> bool" where
  "admin_tracked z \<longleftrightarrow> st_admin (fz_pool z) = Some (fz_current_admin z) \<and> roles_separated (fz_pool z)"

lemma exec_keeps_admin:
  assumes "exec H e c s = Ok (r, s')" "\<And>a. c \<noteq> TransferAdmin a"
  shows "st_admin s' = st_admin s"
proof -
  have "cfg_admin (config_of s') = cfg_admin (config_of s)"
  proof (cases "reconfigures c")
    case True
    with admin_call_config [OF assms(1) True] assms(2) show ?thesis
      by (cases c) (auto simp: reconfigures_def reconfigured_def)
  next
    case False
    with other_call_config [OF assms(1) False] show ?thesis by simp
  qed
  then show ?thesis by (simp add: config_of_def)
qed

lemma try_call_tracked:
  assumes "\<And>a. c \<noteq> TransferAdmin a" "admin_tracked z"
  shows "admin_tracked (try_call H c z)"
  using assms exec_keeps_admin [of H "mocked_env z" c "fz_pool z"]
    exec_keeps_roles [of H "mocked_env z" c "fz_pool z"]
  by (auto simp: admin_tracked_def try_call_def invoke_def split: outcome.splits)

lemma signed_submit_tracked:
  assumes "signed_submit H rg wallet hash ent tier z = Some z'" "admin_tracked z"
  shows "admin_tracked z'"
proof -
  have "st_admin s' = st_admin (fz_pool z) \<and> roles_separated s'"
    if "submit_claim H (mocked_env z) cl a hash ent t now dl sig (fz_pool z) = Ok (k, s')"
    for cl a t now dl sig k s'
  proof -
    from that have "exec H (mocked_env z) (SubmitClaim cl a hash ent t now dl sig) (fz_pool z) = Ok (RBytes k, s')"
      by (simp add: returns_eq_Ok)
    from exec_keeps_admin [OF this] exec_keeps_roles [OF this] assms(2) show ?thesis
      by (simp add: admin_tracked_def)
  qed
  with assms show ?thesis
    by (auto simp: signed_submit_def Let_def admin_tracked_def split: outcome.splits)
qed

lemma transfer_tracked:
  assumes "transfer_admin H e a s = Ok (u, s')" "roles_separated s"
  shows "st_admin s' = Some a \<and> roles_separated s'"
proof -
  from assms(1) have "exec H e (TransferAdmin a) s = Ok (RUnit, s')" by (simp add: returns_eq_Ok)
  from exec_keeps_roles [OF this assms(2)] transfer_admin_Ok [OF assms(1)] show ?thesis by auto
qed

lemma apply_override_tracked:
  assumes "admin_tracked z" "apply_override H rg op z = Some z'"
  shows "admin_tracked z'"
proof (cases op)
  case (OvSubmitClaim wallet tx ent tier)
  with assms show ?thesis by (auto intro: signed_submit_tracked)
next
  case (OvTransferAdmin a)
  with assms transfer_tracked [of H "mocked_env z" "pick (rg_admins rg) a" "fz_pool z"] show ?thesis
    by (auto simp: Let_def admin_tracked_def split: outcome.splits)
next
  case (OvAdvanceDays days)
  with assms show ?thesis by (auto simp: advance_days_def Let_def admin_tracked_def split: outcome.splits)
qed (use assms in \<open>auto simp: stream_any_def cancel_any_def Let_def split: prod.splits if_splits
    intro!: try_call_tracked\<close>)

text \<open>The admin may cancel exactly what is pending.\<close>

lemma admin_cancels_pending:
  assumes "st_admin s = Some admin" "e_auth e admin"
  shows "is_ok (cancel_pending_override H e admin wallet tx s) \<longleftrightarrow>
    st_overrides s (compute_claim_id H wallet tx) \<noteq> None"
  using assms
  by (auto simp: is_ok_iff cancel_pending_override_def ok_simps Let_def get_admin_def get_override_def
      require_auth_def)

text \<open>
  C38. The override fuzz target follows the contract's admin correctly, which the contract has no view
  for. In every state of every run, from its own set-up on and whatever operations are drawn, the admin
  it tracks is the one the contract stores, however the rotations interleave with the approvals; so each
  cancellation it issues is accepted exactly when an override is pending, and is never refused for its
  caller. Nor does any rotation it draws make the co-signer coincide with the admin or the oracle.
\<close>

theorem fuzz_override_tracks_admin:
  assumes "override_setup mint H rg w = Some z0"
    and "fuzz_run (apply_override H rg) ops z0 = Clean z \<or> fuzz_run (apply_override H rg) ops z0 = Violated z"
  shows "st_admin (fz_pool z) = Some (fz_current_admin z) \<and> roles_separated (fz_pool z) \<and>
    (is_ok (cancel_pending_override H (mocked_env z) (fz_current_admin z) wallet tx (fz_pool z)) \<longleftrightarrow>
       st_overrides (fz_pool z) (compute_claim_id H wallet tx) \<noteq> None)"
proof -
  from assms(1) obtain e orc pk cos token s where
    ok: "initialize H e (rg_admins rg ! 0) orc pk cos token FUZZ_POOL_CAP (empty_state (fund_wallets mint rg w))
      = Ok ((), s)"
    and z0: "fz_pool z0 = s" "fz_current_admin z0 = rg_admins rg ! 0"
    by (auto simp: override_setup_def fuzz_setup_def split: outcome.splits)
  from initialize_Ok [OF ok] roles.after_deploy [OF ok] z0 have "admin_tracked z0"
    by (auto simp: admin_tracked_def)
  from fuzz_run_invariant [where P = admin_tracked, OF apply_override_tracked this assms(2)]
  have "admin_tracked z" .
  then show ?thesis
    using admin_cancels_pending [of "fz_pool z" "fz_current_admin z" "mocked_env z" H wallet tx]
    by (simp add: admin_tracked_def mocked_env_def)
qed

text \<open>The target's own rig: three wallets, funded by the mock token's \<open>mint\<close>.\<close>

definition override_rig :: rig where
  "override_rig = sample_rig\<lparr>rg_wallets := [11, 12, 13], rg_beneficiaries := [21, 22, 23]\<rparr>"

definition ref_mint :: "address \<Rightarrow> address \<Rightarrow> int \<Rightarrow> mock_world \<Rightarrow> mock_world" where
  "ref_mint token to amount w =
     (case mock_mint to amount (mw_balances w) of TokenOk m \<Rightarrow> w\<lparr>mw_balances := m\<rparr> | _ \<Rightarrow> w)"

definition override_start :: "mock_world fuzz_state" where
  "override_start =
     the (override_setup ref_mint ref_host override_rig (funded_world\<lparr>mw_balances := Map.empty\<rparr>))"

lemma override_start_set_up:
  "override_setup ref_mint ref_host override_rig (funded_world\<lparr>mw_balances := Map.empty\<rparr>) = Some override_start"
proof -
  have "override_setup ref_mint ref_host override_rig (funded_world\<lparr>mw_balances := Map.empty\<rparr>) \<noteq> None"
    by code_simp
  then show ?thesis by (auto simp: override_start_def)
qed

text \<open>
  An approval by the admin, a rotation to the other candidate, which makes it stale, and the approval of
  the co-signer, which therefore does not execute: the request is pending and the new admin may cancel it.
\<close>

definition rotating_ops :: "override_op list" where
  "rotating_ops =
     [OvStake 0 1250000000, OvStake 1 1250000000, OvApproveOverride True 0 0 0 300000000 2, OvTransferAdmin 1,
      OvApproveOverride False 0 0 0 300000000 2]"

definition ends_clean :: "mock_world verdict \<Rightarrow> bool" where
  "ends_clean v \<longleftrightarrow> (case v of Clean z \<Rightarrow> fz_current_admin z = 4 \<and>
     (case st_overrides (fz_pool z) (compute_claim_id ref_host 11 (replicate 32 0)) of None \<Rightarrow> False | Some _ \<Rightarrow> True)
     | _ \<Rightarrow> False)"

theorem fuzz_override_tracks_admin_witness:
  "\<exists>z. fuzz_run (apply_override ref_host override_rig) rotating_ops override_start = Clean z \<and>
     fz_current_admin z = 4 \<and> st_admin (fz_pool z) = Some 4 \<and>
     is_ok (cancel_pending_override ref_host (mocked_env z) 4 11 (replicate 32 0) (fz_pool z))"
proof -
  have "ends_clean (fuzz_run (apply_override ref_host override_rig) rotating_ops override_start)" by code_simp
  then obtain z where z: "fuzz_run (apply_override ref_host override_rig) rotating_ops override_start = Clean z"
    and a: "fz_current_admin z = 4"
    and pending: "st_overrides (fz_pool z) (compute_claim_id ref_host 11 (replicate 32 0)) \<noteq> None"
    by (auto simp: ends_clean_def split: verdict.splits option.splits)
  from fuzz_override_tracks_admin [OF override_start_set_up disjI1 [OF z], of 11 "replicate 32 0"] z a pending
  show ?thesis by auto
qed

text \<open>
  The assertion of this target fails too, with one staker and an override of the whole pool: it is
  checked against a total that still counts the stake its activation forfeits.
\<close>

definition forfeiting_ops :: "override_op list" where
  "forfeiting_ops =
     [OvStake 0 1250000000, OvApproveOverride True 0 0 0 1250000000 2,
      OvApproveOverride False 0 0 0 1250000000 2]"

lemma forfeiting_verdict:
  "verdict_of (fuzz_run (apply_override ref_host override_rig) forfeiting_ops override_start)
     = Some (1250000000, 0)"
  by code_simp

end
