(* ===== verification/Komet_Harness.thy ===== *)
theory Komet_Harness
  imports Staking Administration Reference_Host
begin

text \<open>
  The Komet verification harness: the deployable stand-in \<^verbatim>\<open>contracts/komet-harness\<close>, whose
  entry points delegate to the pool's own modules, and the property contract
  \<^verbatim>\<open>contracts/test-protection-pool\<close> with its bindings to Komet, its set-up and its three
  properties. Komet's host functions, which deploy a contract and build an address, are
  parameters; the world is the balance table of the mock token.
\<close>

section \<open>The harness contract\<close>

definition komet_init ::
  "'w host \<Rightarrow> env \<Rightarrow> address \<Rightarrow> address \<Rightarrow> bytes \<Rightarrow> address \<Rightarrow> address \<Rightarrow> int \<Rightarrow> 'w state \<Rightarrow>
    (unit \<times> 'w state) outcome" where
  "komet_init H e admin_addr oracle oracle_pubkey co_signer xlm_token pool_cap s =
     initialize H e admin_addr oracle oracle_pubkey co_signer xlm_token pool_cap s"

definition harness_stake ::
  "'w host \<Rightarrow> env \<Rightarrow> address \<Rightarrow> int \<Rightarrow> address \<Rightarrow> 'w state \<Rightarrow> (unit \<times> 'w state) outcome" where
  "harness_stake H e staker amount beneficiary s = stake H e staker amount beneficiary s"

definition harness_withdraw ::
  "'w host \<Rightarrow> env \<Rightarrow> address \<Rightarrow> address \<Rightarrow> 'w state \<Rightarrow> (unit \<times> 'w state) outcome" where
  "harness_withdraw H e staker beneficiary s = withdraw H e staker beneficiary s"

definition harness_total_staked :: "'w state \<Rightarrow> int" where
  "harness_total_staked s = get_total_staked s"

definition harness_total_allocated :: "'w state \<Rightarrow> int" where
  "harness_total_allocated s = get_total_allocated s"

definition harness_total_stakers :: "'w state \<Rightarrow> int" where
  "harness_total_stakers s = get_total_stakers s"

section \<open>The bindings to Komet\<close>

text \<open>
  \<^verbatim>\<open>komet.rs\<close>. The two cheat functions work on 64-bit object handles; \<open>kh_object\<close> is the handle
  of a \<open>Bytes\<close> object, \<open>kh_to_address\<close> the conversion of a handle to an address (\<open>None\<close> where
  \<open>from_val\<close> panics), \<open>kh_deploy\<close> the SDK's deployer under \<^verbatim>\<open>cargo test\<close>.
\<close>

record komet_host =
  kasmer_create_contract :: "64 word \<Rightarrow> 64 word \<Rightarrow> 64 word"
  kasmer_address_from_bytes :: "64 word \<Rightarrow> 64 word \<Rightarrow> 64 word"
  kh_object :: "bytes \<Rightarrow> 64 word"
  kh_to_address :: "64 word \<Rightarrow> address option"
  kh_deploy :: "bytes \<Rightarrow> bytes \<Rightarrow> address option"

definition create_contract :: "komet_host \<Rightarrow> bytes \<Rightarrow> bytes \<Rightarrow> address outcome" where
  "create_contract K addr hash =
     (let res = kasmer_create_contract K (kh_object K addr) (kh_object K hash)
      in unwrap (kh_to_address K res))"

definition address_from_bytes :: "komet_host \<Rightarrow> bytes \<Rightarrow> bool \<Rightarrow> address outcome" where
  "address_from_bytes K addr is_contract =
     (let res = kasmer_address_from_bytes K (kh_object K addr) (if is_contract then 1 else 0)
      in unwrap (kh_to_address K res))"

text \<open>The variants compiled under \<^verbatim>\<open>cfg(test)\<close>, which first convert to \<open>BytesN<32>\<close>.\<close>

definition try_into_32 :: "bytes \<Rightarrow> bytes option" where
  "try_into_32 b = (if length b = 32 then Some b else None)"

definition create_contract_native :: "komet_host \<Rightarrow> bytes \<Rightarrow> bytes \<Rightarrow> address outcome" where
  "create_contract_native K addr hash =
     and_then (unwrap (try_into_32 addr)) (\<lambda>addr.
     and_then (unwrap (try_into_32 hash)) (\<lambda>hash.
     case kh_deploy K addr hash of None \<Rightarrow> Trap CalleeFailed | Some a \<Rightarrow> Ok a))"

definition address_from_bytes_native :: "komet_host \<Rightarrow> bytes \<Rightarrow> bool \<Rightarrow> address outcome" where
  "address_from_bytes_native K addr is_contract =
     and_then (unwrap (try_into_32 addr)) (\<lambda>addr. unwrap (kh_to_address K (kh_object K addr)))"

text \<open>A name of any other length than 32 bytes is refused under \<^verbatim>\<open>cargo test\<close> only.\<close>

lemma native_needs_32_bytes:
  "is_ok (create_contract_native K addr hash) \<Longrightarrow> length addr = 32 \<and> length hash = 32"
  "is_ok (address_from_bytes_native K addr c) \<Longrightarrow> length addr = 32"
  by (auto simp: is_ok_iff create_contract_native_def address_from_bytes_native_def try_into_32_def
      and_then_eq_Ok unwrap_eq_Ok split: if_splits)

section \<open>The property contract\<close>

record test_state =
  ts_pool_addr :: "address option"
  ts_token_addr :: "address option"
  ts_pool :: "balances state"

definition POOL_ADDR :: string where "POOL_ADDR = ''protection_pool_________________''"

definition TOKEN_ADDR :: string where "TOKEN_ADDR = ''mock_xlm_token__________________''"

definition STAKER_ADDR :: string where "STAKER_ADDR = ''staker_one______________________''"

definition ADMIN_ADDR :: string where "ADMIN_ADDR = ''admin___________________________''"

definition ORACLE_ADDR :: string where "ORACLE_ADDR = ''oracle__________________________''"

definition COSIGNER_ADDR :: string where "COSIGNER_ADDR = ''co_signer_______________________''"

definition POOL_CAP :: int where "POOL_CAP = 6000000000000"

definition STAKER_FUNDING :: int where "STAKER_FUNDING = 100000000000000"

text \<open>\<open>Bytes::from_array\<close> of a byte string.\<close>

definition raw_bytes :: "string \<Rightarrow> bytes" where
  "raw_bytes = map of_char"

definition test_addr :: "komet_host \<Rightarrow> string \<Rightarrow> address outcome" where
  "test_addr K raw = address_from_bytes K (raw_bytes raw) False"

definition test_pool :: "test_state \<Rightarrow> address outcome" where
  "test_pool t = unwrap (ts_pool_addr t)"

text \<open>A cross-contract call that is not a \<open>try_\<close> call: the callee's failure is the caller's trap.\<close>

definition must_succeed :: "'a outcome \<Rightarrow> 'a outcome" where
  "must_succeed m = (case m of Ok x \<Rightarrow> Ok x | _ \<Rightarrow> Trap CalleeFailed)"

definition token_call :: "'a token_result \<Rightarrow> 'a outcome" where
  "token_call m = (case m of TokenOk w \<Rightarrow> Ok w | _ \<Rightarrow> Trap CalleeFailed)"

lemma token_call_eq_Ok: "token_call m = Ok w \<longleftrightarrow> m = TokenOk w"
  by (cases m) (simp_all add: token_call_def)

lemma must_succeed_eq_Ok: "must_succeed m = Ok x \<longleftrightarrow> m = Ok x"
  by (cases m) (simp_all add: must_succeed_def)

definition test_init ::
  "komet_host \<Rightarrow> balances host \<Rightarrow> env \<Rightarrow> bytes \<Rightarrow> bytes \<Rightarrow> balances \<Rightarrow> test_state outcome" where
  "test_init K H e pool_hash token_hash w =
     and_then (create_contract K (raw_bytes POOL_ADDR) pool_hash) (\<lambda>pool_addr.
     and_then (create_contract K (raw_bytes TOKEN_ADDR) token_hash) (\<lambda>token_addr.
     and_then (test_addr K STAKER_ADDR) (\<lambda>staker.
     and_then (token_call (mock_mint staker STAKER_FUNDING w)) (\<lambda>w1.
     and_then (test_addr K ADMIN_ADDR) (\<lambda>admin.
     and_then (test_addr K ORACLE_ADDR) (\<lambda>oracle.
     and_then (test_addr K COSIGNER_ADDR) (\<lambda>co_signer.
     and_then (must_succeed (komet_init H e admin oracle (replicate 32 7) co_signer token_addr
         POOL_CAP (empty_state w1))) (\<lambda>(_, s).
     Ok \<lparr>ts_pool_addr = Some pool_addr, ts_token_addr = Some token_addr, ts_pool = s\<rparr>))))))))"

text \<open>\<open>client.try_stake\<close>: whether it succeeded, and the state, rolled back if it did not.\<close>

definition try_stake ::
  "balances host \<Rightarrow> env \<Rightarrow> address \<Rightarrow> int \<Rightarrow> address \<Rightarrow> test_state \<Rightarrow> bool \<times> test_state" where
  "try_stake H e staker amount beneficiary t =
     (case harness_stake H e staker amount beneficiary (ts_pool t) of
        Ok (_, s') \<Rightarrow> (True, t\<lparr>ts_pool := s'\<rparr>)
      | _ \<Rightarrow> (False, t))"

definition test_solvency_invariant ::
  "komet_host \<Rightarrow> balances host \<Rightarrow> env \<Rightarrow> int \<Rightarrow> test_state \<Rightarrow> (bool \<times> test_state) outcome" where
  "test_solvency_invariant K H e amount t =
     and_then (test_pool t) (\<lambda>_.
     and_then (test_addr K STAKER_ADDR) (\<lambda>staker.
     if amount \<le> 0 then Ok (True, t)
     else let (_, t') = try_stake H e staker amount staker t in
       Ok (harness_total_allocated (ts_pool t') \<le> harness_total_staked (ts_pool t'), t')))"

definition test_stake_accounting_is_exact ::
  "komet_host \<Rightarrow> balances host \<Rightarrow> env \<Rightarrow> int \<Rightarrow> test_state \<Rightarrow> (bool \<times> test_state) outcome" where
  "test_stake_accounting_is_exact K H e amount t =
     and_then (test_pool t) (\<lambda>_.
     and_then (test_addr K STAKER_ADDR) (\<lambda>staker.
     if amount \<le> 0 then Ok (True, t)
     else
       let before = harness_total_staked (ts_pool t);
           (succeeded, t') = try_stake H e staker amount staker t in
       if \<not> succeeded then Ok (harness_total_staked (ts_pool t') = before, t')
       else and_then (add_i128 before amount) (\<lambda>expected.
         Ok (harness_total_staked (ts_pool t') = expected, t'))))"

definition test_totals_never_negative ::
  "komet_host \<Rightarrow> balances host \<Rightarrow> env \<Rightarrow> int \<Rightarrow> test_state \<Rightarrow> (bool \<times> test_state) outcome" where
  "test_totals_never_negative K H e amount t =
     and_then (test_pool t) (\<lambda>_.
     and_then (if amount > 0
               then and_then (test_addr K STAKER_ADDR) (\<lambda>staker.
                 Ok (snd (try_stake H e staker amount staker t)))
               else Ok t) (\<lambda>t'.
     Ok (0 \<le> harness_total_staked (ts_pool t') \<and> 0 \<le> harness_total_allocated (ts_pool t'), t')))"

section \<open>What the properties show\<close>

text \<open>The pool never accepts a stake whose beneficiary is the staker.\<close>

lemma own_beneficiary_refused: "\<not> is_ok (harness_stake H e staker amount staker s)"
  by (auto simp: harness_stake_def is_ok_iff dest: stake_Ok)

lemma try_own_stake: "try_stake H e staker amount staker t = (False, t)"
  using own_beneficiary_refused [of H e staker amount "ts_pool t"]
  by (auto simp: try_stake_def is_ok_iff split: outcome.splits)

text \<open>
  C39. The three Komet properties pass for every amount, and all three pass for the same reason: each
  one stakes with the staker as its own beneficiary, which the pool always refuses, so no property
  ever observes a state other than the freshly initialised one.
\<close>

theorem komet_properties_never_stake:
  assumes "test_init K H e0 pool_hash token_hash w = Ok t"
  shows "test_solvency_invariant K H e amount t = Ok (True, t) \<and>
     test_stake_accounting_is_exact K H e amount t = Ok (True, t) \<and>
     test_totals_never_negative K H e amount t = Ok (True, t) \<and>
     harness_total_staked (ts_pool t) = 0 \<and> harness_total_stakers (ts_pool t) = 0"
proof -
  from assms obtain pool staker a orc pk cos token w1 where
    addr: "ts_pool_addr t = Some pool" "test_addr K STAKER_ADDR = Ok staker"
    and ok: "initialize H e0 a orc pk cos token POOL_CAP (empty_state w1) = Ok ((), ts_pool t)"
    by (auto simp: test_init_def and_then_eq_Ok must_succeed_eq_Ok komet_init_def
        token_call_eq_Ok)
  from initialize_Ok [OF ok] have "get_total_staked (ts_pool t) = 0"
    "get_total_allocated (ts_pool t) = 0" "get_total_stakers (ts_pool t) = 0"
    by (auto simp: get_total_staked_def get_total_allocated_def get_total_stakers_def empty_state_def)
  with addr show ?thesis
    by (simp add: test_solvency_invariant_def test_stake_accounting_is_exact_def
        test_totals_never_negative_def test_pool_def try_own_stake harness_total_staked_def
        harness_total_allocated_def harness_total_stakers_def Let_def)
qed

text \<open>Addresses by first letter, and the mock token as the only other contract.\<close>

definition letter_host :: komet_host where
  "letter_host =
     \<lparr>kasmer_create_contract = (\<lambda>addr hash. addr + 132),
      kasmer_address_from_bytes = (\<lambda>addr is_contract. addr),
      kh_object = (\<lambda>b. ucast (hd b)), kh_to_address = (\<lambda>v. Some (unat v)),
      kh_deploy = (\<lambda>addr hash. Some (unat (hd addr)))\<rparr>"

definition mock_token_host :: "balances host" where
  "mock_token_host =
     \<lparr>h_vault_deposit = (\<lambda>_ _ _ _ _ _ _. None), h_vault_withdraw = (\<lambda>_ _ _ _ _ _. None),
      h_vault_balance = (\<lambda>_ _ _. 0), h_self = 244, h_network_id = [7], h_sha256 = (\<lambda>b. b), h_to_xdr = ref_xdr,
      h_ed25519_verify = (\<lambda>pk msg sig. sig = pk @ msg), h_min_persistent_ttl = 4096,
      h_min_temporary_ttl = 16, h_token_balance = (\<lambda>w _ a. mock_balance w a),
      h_token_transfer = (\<lambda>w _ from to amount. mock_transfer_call from to amount w)\<rparr>"

definition komet_env :: env where
  "komet_env = \<lparr>e_seq = 1, e_time = 5, e_auth = (\<lambda>_. True)\<rparr>"

theorem komet_properties_never_stake_witness:
  "\<exists>t. test_init letter_host mock_token_host komet_env [1] [2] Map.empty = Ok t \<and>
     test_solvency_invariant letter_host mock_token_host komet_env 10000000000 t = Ok (True, t)"
proof -
  have "is_ok (test_init letter_host mock_token_host komet_env [1] [2] Map.empty)" by code_simp
  then obtain t where "test_init letter_host mock_token_host komet_env [1] [2] Map.empty = Ok t"
    by (auto simp: is_ok_iff)
  from komet_properties_never_stake [OF this] this show ?thesis by blast
qed

end
