(* ===== verification/Scenario_Runs.thy ===== *)
theory Scenario_Runs
  imports Staking_Properties Claim_Ledger
begin

text \<open>
  Runs on the reference host that show behaviour the comments and documents of the repository do
  not expect, each a sequence of accepted calls with the figures it ends in.
\<close>

section \<open>An evaluation form of cancellation\<close>

definition reinstate :: "env \<Rightarrow> claim \<Rightarrow> stake_record \<Rightarrow> 'w state \<Rightarrow> (stake_record \<times> 'w state) outcome" where
  "reinstate e claim stake_record s =
     (if cl_status claim = Active
      then and_then (add_u32 (e_seq e) PENALTY_LOCK_LEDGERS) (\<lambda>lock.
           and_then (add_i128 (get_total_staked s) (cl_stake claim)) (\<lambda>staked.
           and_then (add_u32 (get_total_stakers s) 1) (\<lambda>stakers.
           Ok (stake_record\<lparr>sr_withdrawn := False, sr_penalty_locked_until_ledger := lock\<rparr>,
               set_total_stakers stakers (set_total_staked staked s)))))
      else Ok (stake_record, s))"

definition close_cancelled ::
  "'w host \<Rightarrow> env \<Rightarrow> bytes \<Rightarrow> claim \<Rightarrow> stake_record \<Rightarrow> 'w state \<Rightarrow> (unit \<times> 'w state) outcome" where
  "close_cancelled H e claim_id claim stake_record s =
     (let s3 = set_stake H e (cl_wallet claim) (stake_record\<lparr>sr_active_claim_id := None\<rparr>) s;
          s4 = set_claim H e claim_id (claim\<lparr>cl_status := Cancelled\<rparr>) s3;
          s5 = bump_instance_ttl H e s4
      in Ok ((), publish (EvClaimCancelled (cl_wallet claim) claim_id) s5))"

definition cancel_released ::
  "'w host \<Rightarrow> env \<Rightarrow> bytes \<Rightarrow> claim \<Rightarrow> 'w state \<Rightarrow> (unit \<times> 'w state) outcome" where
  "cancel_released H e claim_id claim s =
     and_then (ok_or (get_stake s (cl_wallet claim)) NoStake) (\<lambda>stake_record.
     and_then (reinstate e claim stake_record s) (\<lambda>(stake_record1, s2).
     close_cancelled H e claim_id claim stake_record1 s2))"

lemma cancel_claim_code [code]:
  "cancel_claim H e claim_id s =
     and_then (get_admin s) (\<lambda>admin.
     and_then (require_auth e admin) (\<lambda>_.
     and_then (ok_or (get_claim s claim_id) NoSuchClaim) (\<lambda>claim.
     if cl_status claim \<noteq> Active \<and> cl_status claim \<noteq> PendingTime \<and>
        cl_status claim \<noteq> AwaitingApproval
     then Err ClaimNotCancellable
     else and_then (sub_i128 (cl_entitlement claim) (cl_streamed claim)) (\<lambda>unstreamed.
       cancel_released H e claim_id claim
         (set_total_allocated (saturating_sub_i128 (get_total_allocated s) unstreamed) s)))))"
  unfolding cancel_claim_def reinstate_def cancel_released_def close_cancelled_def Let_def
  by (rule refl)

text \<open>The same for the execution of an override.\<close>

definition release_active :: "claim \<Rightarrow> 'w state \<Rightarrow> (int \<times> 'w state) outcome" where
  "release_active c s =
     and_then
       (if live_status (cl_status c)
        then and_then (sub_i128 (cl_entitlement c) (cl_streamed c)) (\<lambda>unstreamed.
             Ok (set_total_allocated
                   (saturating_sub_i128 (get_total_allocated s) unstreamed) s))
        else Ok s) (\<lambda>s1.
     let carried_streamed = (if cl_status c = Active then cl_streamed c else 0)
     in Ok (carried_streamed, s1))"

lemma release_prior_code [code]:
  "release_prior None s = Ok (0, s)"
  "release_prior (Some c) s =
     (if cl_status c = Completed then Err ClaimAlreadyCompleted else release_active c s)"
  by (simp_all add: release_prior_def release_active_def)

definition record_override ::
  "'w host \<Rightarrow> env \<Rightarrow> bytes \<Rightarrow> override_request \<Rightarrow> int \<Rightarrow> stake_record \<Rightarrow> claim \<Rightarrow> 'w state \<Rightarrow> 'w state outcome"
  where
  "record_override H e claim_id req points_burned stake_record1 claim1 s3 =
     (let stake_record2 = stake_record1\<lparr>sr_active_claim_id := Some claim_id\<rparr>;
          stake_record3 =
            (if sr_reserved_claim_id stake_record2 = Some claim_id
             then stake_record2\<lparr>sr_reserved_claim_id := None\<rparr> else stake_record2);
          s4 = set_stake H e (ov_wallet req) stake_record3 s3;
          s5 = set_claim H e claim_id claim1 s4;
          s6 = bump_instance_ttl H e s5
      in Ok (publish (EvOverrideExecuted (ov_wallet req) claim_id points_burned) s6))"

definition activate_overridden ::
  "'w host \<Rightarrow> env \<Rightarrow> bytes \<Rightarrow> override_request \<Rightarrow> stake_record \<Rightarrow> claim \<Rightarrow> 'w state \<Rightarrow> 'w state outcome" where
  "activate_overridden H e claim_id req stake_record claim s =
     and_then (activate_override H e stake_record claim s)
       (\<lambda>((points_burned, stake_record1, claim1), s3).
         record_override H e claim_id req points_burned stake_record1 claim1 s3)"

definition override_stake ::
  "'w host \<Rightarrow> env \<Rightarrow> bytes \<Rightarrow> override_request \<Rightarrow> int \<Rightarrow> stake_record \<Rightarrow> 'w state \<Rightarrow> 'w state outcome" where
  "override_stake H e claim_id req carried_streamed stake_record s1 =
     (if (case sr_active_claim_id stake_record of Some active_id \<Rightarrow> active_id \<noteq> claim_id
          | None \<Rightarrow> False)
      then Err WalletHasDifferentActiveClaim
      else if sr_amount stake_record \<le> 0 then Err NoStakeAmountForOverride
      else and_then (tier_cap (sr_amount stake_record) (ov_tier req)) (\<lambda>cap.
        if ov_entitlement req > cap then Err EntitlementExceedsTierCap
        else
          and_then (if sr_withdrawn stake_record
                    then add_i128 (get_total_staked s1) (sr_amount stake_record)
                    else Ok (get_total_staked s1)) (\<lambda>effective_total_staked.
          and_then (add_i128 (get_total_allocated s1) (ov_entitlement req)) (\<lambda>allocated.
          if allocated > effective_total_staked then Err Insolvent
          else activate_overridden H e claim_id req stake_record
                 (override_claim e req carried_streamed (sr_amount stake_record))
                 (set_total_allocated allocated s1)))))"

lemma execute_override_code [code]:
  "execute_override H e claim_id req s =
     and_then (release_prior (get_claim s claim_id) s) (\<lambda>(carried_streamed, s1).
     and_then (ok_or (get_stake s1 (ov_wallet req)) NoStake) (\<lambda>stake_record.
     override_stake H e claim_id req carried_streamed stake_record s1))"
  unfolding execute_override_def override_stake_def activate_overridden_def record_override_def Let_def
  by (rule refl)

section \<open>Staking again while a claim is being paid\<close>

text \<open>
  The forfeited record of an active claim counts as withdrawn, so the staker may stake again; the
  new record replaces the old one. Cancelling the claim then adds the forfeited amount to
  \<open>total_staked\<close> a second time while the record holds only the new stake.
\<close>

definition restake_and_cancel :: "(env \<times> pool_call) list" where
  "restake_and_cancel =
     [(on_day 102 [11], Stake 11 10000 23), (on_day 103 [1], CancelClaim [1, 11, 9])]"

definition stake_of :: "address \<Rightarrow> mock_world state \<Rightarrow> int" where
  "stake_of a s = (case st_stakes s a of None \<Rightarrow> 0 | Some r \<Rightarrow> if active_stake r then sr_amount r else 0)"

definition double_counted :: "mock_world state \<Rightarrow> bool" where
  "double_counted s \<longleftrightarrow> get_total_staked s = 30000 \<and> get_total_stakers s = 3 \<and>
     stake_of 11 s = 10000 \<and> stake_of 12 s = 10000"

text \<open>The new record carries neither the suspension nor the claim of the old one.\<close>

definition restake_while_suspended :: "(env \<times> pool_call) list" where
  "restake_while_suspended =
     [(on_day 102 [1], SuspendStake 11), (on_day 102 [11], Stake 11 10000 23),
      (on_day 200 [11], ClaimStream [1, 11, 9] 23)]"

section \<open>A queued claim outlives the stake\<close>

text \<open>
  Staker 12 queues a claim, withdraws the whole principal, and is still admitted and activated: from
  then on the pool owes 2000 to a wallet with no stake, and two stakers have left the count.
\<close>

definition stakeless_run :: "(env \<times> pool_call) list" where
  "stakeless_run = staked_run @
     [(on_day 100 [2], SubmitClaim 2 11 [9] 500 3 (99 * 86400) (100 * 86400)
         (5 # build_approval_payload ref_host 11 [9] 500 3 (99 * 86400) (100 * 86400))),
      (on_day 100 [2], SubmitClaim 2 12 [8] 2000 3 (99 * 86400) (100 * 86400)
         (5 # build_approval_payload ref_host 12 [8] 2000 3 (99 * 86400) (100 * 86400))),
      (on_day 101 [12], Withdraw 12 22), (on_day 102 [], TryReleaseQueuedClaim [1, 12, 8]),
      (on_day 103 [12], ApproveClaim [1, 12, 8])]"

definition owed_without_stake :: "mock_world state \<Rightarrow> bool" where
  "owed_without_stake s \<longleftrightarrow> stake_of 12 s = 0 \<and> get_total_stakers s = 0 \<and> stake_of 11 s = 10000 \<and>
     claim_at [1, 12, 8] (\<lambda>c. cl_status c = Active \<and> cl_entitlement c = 2000) s"

lemma queued_claim_outlives_stake:
  "ends_in stakeless_run owed_without_stake"
  by code_simp

section \<open>Overrides of a claim that has paid\<close>

text \<open>A re-execution reserves the full entitlement again although part of it has been paid.\<close>

definition reexecution :: "(env \<times> pool_call) list" where
  "reexecution =
     [(on_day 153 [11], ClaimStream [1, 11, 9] 21),
      (on_day 154 [1], ApproveOverride 1 11 [9] 4000 3), (on_day 154 [3], ApproveOverride 3 11 [9] 4000 3)]"

definition over_reserved :: "mock_world state \<Rightarrow> bool" where
  "over_reserved s \<longleftrightarrow> get_total_allocated s = 4000 \<and>
     claim_at [1, 11, 9] (\<lambda>c. cl_status c = Active \<and> cl_entitlement c = 4000 \<and> cl_streamed c = 600) s"

text \<open>An override after a cancellation forgets what the cancelled claim had paid.\<close>

definition cancel_and_override :: "(env \<times> pool_call) list" where
  "cancel_and_override =
     [(on_day 153 [11], ClaimStream [1, 11, 9] 21), (on_day 154 [1], CancelClaim [1, 11, 9]),
      (on_day 154 [1], ApproveOverride 1 11 [9] 4000 3), (on_day 154 [3], ApproveOverride 3 11 [9] 4000 3)]"

definition payout_forgotten :: "mock_world state \<Rightarrow> bool" where
  "payout_forgotten s \<longleftrightarrow> mock_balance (mw_balances (st_world s)) 21 = 600 \<and>
     claim_at [1, 11, 9] (\<lambda>c. cl_status c = Active \<and> cl_entitlement c = 4000 \<and> cl_streamed c = 0) s"

text \<open>
  An override may set an entitlement below what the claim has already streamed; cancelling it then
  subtracts a negative remainder, so \<open>total_allocated\<close> rises although no claim is left.
\<close>

definition lower_and_cancel :: "(env \<times> pool_call) list" where
  "lower_and_cancel =
     [(on_day 153 [11], ClaimStream [1, 11, 9] 21),
      (on_day 154 [1], ApproveOverride 1 11 [9] 500 3), (on_day 154 [3], ApproveOverride 3 11 [9] 500 3),
      (on_day 155 [1], CancelClaim [1, 11, 9])]"

definition reserve_without_claim :: "mock_world state \<Rightarrow> bool" where
  "reserve_without_claim s \<longleftrightarrow> get_total_allocated s = 600 \<and>
     claim_at [1, 11, 9] (\<lambda>c. cl_status c = Cancelled) s"

section \<open>Cancellation and exit\<close>

text \<open>The restored stake is not checked against the pool cap.\<close>

definition lower_cap_and_cancel :: "(env \<times> pool_call) list" where
  "lower_cap_and_cancel =
     [(on_day 102 [1], SetPoolCap 10000), (on_day 103 [1], CancelClaim [1, 11, 9])]"

definition over_cap :: "mock_world state \<Rightarrow> bool" where
  "over_cap s \<longleftrightarrow> get_total_staked s = 20000 \<and> get_pool_cap s = Ok 10000"

text \<open>The penalty lock of a cancelled claim stops \<open>withdraw\<close> but not \<open>emergency_exit\<close>, paused or not.\<close>

definition cancellation :: "(env \<times> pool_call) list" where
  "cancellation = [(on_day 103 [1], CancelClaim [1, 11, 9])]"

definition lock_bypassed :: "mock_world state \<Rightarrow> bool" where
  "lock_bypassed s \<longleftrightarrow> \<not> is_paused s \<and>
     (case withdraw ref_host (on_day 104 [11]) 11 21 s of Err x \<Rightarrow> x = PenaltyLockActive | _ \<Rightarrow> False) \<and>
     is_ok (emergency_exit ref_host (on_day 104 [11]) 11 s)"

text \<open>
  The runs above continue one and the same run, at the end of which the claim of staker 11 is active;
  they are evaluated from that state together.
\<close>

definition goes_on :: "(env \<times> pool_call) list \<Rightarrow> (mock_world state \<Rightarrow> bool) \<Rightarrow> mock_world state \<Rightarrow> bool" where
  "goes_on cs P s \<longleftrightarrow> (case run ref_host cs s of Ok (_, s') \<Rightarrow> P s' | _ \<Rightarrow> False)"

lemma ends_in_append: "ends_in (xs @ ys) P \<longleftrightarrow> ends_in xs (goes_on ys P)"
  by (cases "run ref_host xs (state_of deployment)")
    (auto simp: ends_in_def goes_on_def run_append split: outcome.splits)

lemma ends_in_mono: "ends_in cs P \<Longrightarrow> (\<And>s. P s \<Longrightarrow> Q s) \<Longrightarrow> ends_in cs Q"
  by (auto simp: ends_in_def split: outcome.splits)

definition continuations :: "mock_world state \<Rightarrow> bool" where
  "continuations s \<longleftrightarrow>
     goes_on restake_and_cancel double_counted s \<and>
     goes_on restake_while_suspended (\<lambda>_. True) s \<and>
     goes_on reexecution over_reserved s \<and>
     goes_on cancel_and_override payout_forgotten s \<and>
     goes_on lower_and_cancel reserve_without_claim s \<and>
     goes_on lower_cap_and_cancel over_cap s \<and>
     goes_on cancellation lock_bypassed s"

lemma active_run_continues: "ends_in active_run continuations"
  by code_simp

lemma continuation:
  "(\<And>s. continuations s \<Longrightarrow> goes_on cs P s) \<Longrightarrow> ends_in (active_run @ cs) P"
  unfolding ends_in_append by (rule ends_in_mono [OF active_run_continues])

lemma restake_then_cancel_double_counts: "ends_in (active_run @ restake_and_cancel) double_counted"
  by (rule continuation) (simp add: continuations_def)

lemma restake_lifts_suspension: "ends_in (active_run @ restake_while_suspended) (\<lambda>_. True)"
  by (rule continuation) (simp add: continuations_def)

lemma reexecution_over_reserves: "ends_in (active_run @ reexecution) over_reserved"
  by (rule continuation) (simp add: continuations_def)

lemma override_after_cancel_forgets_payout: "ends_in (active_run @ cancel_and_override) payout_forgotten"
  by (rule continuation) (simp add: continuations_def)

lemma lowered_override_leaves_reserve: "ends_in (active_run @ lower_and_cancel) reserve_without_claim"
  by (rule continuation) (simp add: continuations_def)

lemma cancellation_exceeds_cap: "ends_in (active_run @ lower_cap_and_cancel) over_cap"
  by (rule continuation) (simp add: continuations_def)

lemma emergency_exit_bypasses_lock: "ends_in (active_run @ cancellation) lock_bypassed"
  by (rule continuation) (simp add: continuations_def)

text \<open>A completed claim stays the active claim of its stake record.\<close>

definition still_marked :: "mock_world state \<Rightarrow> bool" where
  "still_marked s \<longleftrightarrow> claim_at [1, 11, 9] (\<lambda>c. cl_status c = Completed) s \<and>
     (case st_stakes s 11 of Some r \<Rightarrow> sr_active_claim_id r = Some [1, 11, 9] | None \<Rightarrow> False)"

lemma completed_claim_stays_marked: "ends_in completed_run still_marked"
  by (rule ends_in_mono [OF completed_run_ends]) (simp add: completed_sample_def still_marked_def)

section \<open>Liquidity and the mock token\<close>

text \<open>
  One share of the vault is worth more than the shortfall: the number of shares to redeem rounds to
  zero and the call fails instead of covering the shortfall.
\<close>

definition thin_position :: "mock_world state" where
  "thin_position = (after staked_run)\<lparr>st_vault := Some 60, st_deploy_bps := Some 5000,
     st_total_allocated := Some 20000, st_total_deployed_xlm := Some 8000,
     st_total_deployed_shares := Some 80,
     st_world := \<lparr>mw_balances = [100 \<mapsto> 19950, 60 \<mapsto> 8000], mw_shares = [100 \<mapsto> 80], mw_rate_bps = 10000,
       mw_deposit_rate_bps = 100\<rparr>\<rparr>"

definition shortfall_uncovered :: "mock_world state \<Rightarrow> bool" where
  "shortfall_uncovered s \<longleftrightarrow>
     (case liquidity_shortfall ref_host s of Ok x \<Rightarrow> x = 50 | _ \<Rightarrow> False) \<and>
     (case ensure_liquidity ref_host (on_day 3 []) s of Err x \<Rightarrow> x = AmountNotPositive | _ \<Rightarrow> False)"

lemma small_shortfall_stays: "shortfall_uncovered thin_position"
  by code_simp

text \<open>A transfer of the mock token to oneself creates tokens: the credit is written last.\<close>

lemma mock_self_transfer_mints:
  "mock_transfer a a 5 [a \<mapsto> 10] = TokenOk [a \<mapsto> 15]"
  by (simp add: mock_transfer_def mock_balance_def in_i128_def i128_min_def i128_max_def fun_eq_iff)

end
