(* ===== verification/Spec2Isabelle.thy ===== *)
theory Spec2Isabelle
  imports Approval_Properties Claim_Properties Override_Properties Payout_Properties
    Staking_Properties Stake_Custody Token_Flow Event_Log Daily_Budgets Panic_Freedom
    Claim_Termination Record_Integrity Machine_Types Views Fuzz_Targets Komet_Harness Scenario_Runs
begin

text \<open>
  A verification development for the SAFU protection pool, a Soroban contract in Rust
  (\<^verbatim>\<open>contracts/protection-pool/src\<close>). Stakers lock XLM and earn points; a staker whose wallet
  was drained files a claim that an oracle or the admin attests; an admitted claim reserves part
  of the pool, forfeits the stake, and is paid out over a vesting period under a daily cap. Idle
  XLM may be deployed to an external yield vault. A claim can be overridden by the admin and a
  co-signer acting together.

  \<^bold>\<open>The parts and the theories that model them.\<close>

  \<^item> \<^verbatim>\<open>error.rs\<close>: \<open>Pool_Errors\<close>, the error enum with its public numeric codes and its order.
  \<^item> \<open>Pool_Prelude\<close>: what a call returns (\<open>Ok\<close>, a typed error, or a host trap), and the checked,
    saturating and wrapping arithmetic of \<open>i128\<close>, \<open>u32\<close> and \<open>u64\<close> under
    \<^verbatim>\<open>overflow-checks = true\<close>. Integers are \<open>int\<close> with the bounds written out at every operation.
  \<^item> \<^verbatim>\<open>types.rs\<close>: \<open>Pool_Types\<close>, the records, the claim status and the tuning constants.
  \<^item> \<open>Soroban_Host\<close>: the record \<open>host\<close>, the parameter of the model. It holds what the contract
    calls and the repository does not contain: SHA-256, XDR serialisation, Ed25519 verification,
    the Stellar asset contract and the DeFindex vault, over an abstract world of the other
    contracts' storage (\<open>vault_interface\<close> is the trait the contract calls its vault through);
    \<open>env\<close> is one invocation's ledger number, time and authorizations.
  \<^item> \<^verbatim>\<open>storage.rs\<close>: \<open>Pool_Storage\<close>. Each storage key is a field of the record \<open>state\<close>, each
    family of keys a map; getters have the source's defaults, setters its TTL extensions. The
    locales \<open>keyed_store\<close> and \<open>deletable_store\<close> state what a family of keys promises.
    \<open>Event_Schema\<close> gives every published event its struct: name, topics and data fields.
  \<^item> \<^verbatim>\<open>vault.rs\<close>: \<open>Liquidity\<close> (the helpers the other modules call before each payment)
    and \<open>Yield_Vault\<close> (deployment, redemption, rebalancing, yield).
  \<^item> \<^verbatim>\<open>stake.rs\<close>: \<open>Staking\<close>. \<^verbatim>\<open>admin.rs\<close>: \<open>Administration\<close>.
  \<^item> \<^verbatim>\<open>claim.rs\<close>: \<open>Claim_Core\<close> (tiers, claim id, signed payload, activation, admission),
    \<open>Claim_Admission\<close> (submission, queue, revocation), \<open>Claim_Lifecycle\<close> (time gate, approval,
    streaming, sweeps, cancellation), \<open>Claim_Override\<close> (the 2-of-2 override).
  \<^item> \<^verbatim>\<open>lib.rs\<close>: \<open>Entrypoints\<close>. \<open>pool_call\<close> has one constructor per entry point that
    changes state, \<open>exec\<close> runs it, \<open>invoke\<close> discards the state unless the call returned \<open>Ok\<close>;
    \<open>step\<close> and \<open>reachable\<close> are the state machine they span, in which the other contracts may
    change their own storage between two calls. \<open>exec_claims\<close> and \<open>exec_yield\<close> are the two
    larger sections of the dispatch. \<open>Views\<close> models the read-only entry points.
  \<^item> \<^verbatim>\<open>contracts/komet-mock-token\<close>: \<open>Mock_Token\<close>, with the locale \<open>asset_ledger\<close> that it
    interprets. \<^verbatim>\<open>contracts/komet-harness\<close> and \<^verbatim>\<open>contracts/test-protection-pool\<close>, with its
    bindings to Komet (\<^verbatim>\<open>komet.rs\<close>, as compiled for Komet and under \<^verbatim>\<open>cfg(test)\<close>):
    \<open>Komet_Harness\<close>. \<^verbatim>\<open>contracts/protection-pool/fuzz\<close>: \<open>Fuzz_Targets\<close>.

  An operation of the contract is a definition of the source's name that takes the host, the
  environment, its arguments and the state, and returns its value with the new state, or the
  error it stopped at; every guard, early return and trap of the source is a branch of it.

  \<^bold>\<open>What is shown.\<close> Each operation has a lemma \<open>X_Ok\<close> that says when it succeeds and which state
  it then leaves, proved by the collection \<open>ok_simps\<close>; the properties rest on these lemmas.

  \<^item> \<open>Entrypoints\<close> gives the locale \<open>pool_invariant\<close>: a predicate kept by the constructor, by every
    entry point and by the rest of the ledger holds in every reachable state. Its instances are
    \<open>roles\<close> and \<open>bounds\<close> (\<open>Access_Control\<close>), \<open>reserves\<close> (\<open>Claim_Ledger\<close>) and \<open>records\<close>
    (\<open>Record_Integrity\<close>).
  \<^item> \<open>Storage_Writes\<close>: every entry point is a sequence of elementary storage writes, so what each write
    keeps, any sequence of calls keeps: the event log, the records, a revocation.
  \<^item> \<open>Record_Integrity\<close>: the stored claims, stake records and pending overrides are well formed and
    refer to each other consistently, in every reachable state.
  \<^item> \<open>Machine_Types\<close> checks the encoding of the integers: every stored or returned \<open>int\<close> fits the
    Rust type it has in the source, after every call with arguments of their types.
  \<^item> \<open>Panic_Freedom\<close>: no call ends in an overflow, a division by zero or an unwrapped \<open>None\<close>
    while the stored figures, the pool's token balance and what the vault answers in the given state
    (\<open>holdings_bounded\<close>) stay within \<open>2^55\<close> stroops. A predicate \<open>no_panic\<close> has one rule for
    each way the source combines outcomes; the operations are taken apart with them.
  \<^item> \<open>Claim_Ledger\<close> is the abstract specification of claims: a ledger of claims with one number,
    the allocated reserve, and the steps it may take. Every entry point refines a step; the life
    cycle of a claim and the sufficiency of the reserve are proved on the ledger.
    \<open>Claim_Termination\<close> bounds how often a claim can be handled.
  \<^item> \<open>Access_Control\<close>: who may change the configuration, the separation of roles, the pause switch.
  \<^item> \<open>Staking_Properties\<close>, \<open>Claim_Properties\<close>, \<open>Payout_Properties\<close>, \<open>Override_Properties\<close>,
    \<open>Approval_Properties\<close>, \<open>Vault_Properties\<close>: the functional behaviour, bounds and error
    behaviour of the single operations, and how long a signature or a revocation counts. Where
    tokens move, \<open>transferred\<close> (\<open>Liquidity\<close>) states both balances of the transfer and that no other
    account's changed.
  \<^item> \<open>Token_Flow\<close>: one table of what each call adds to or takes from the tokens the pool controls,
    and who has to have signed for a payment. \<open>Stake_Custody\<close>: what a call that the staker has
    not signed can change about a stake. \<open>Event_Log\<close>: the published events account for the
    pool's liquid XLM, over any sequence of calls.
  \<^item> \<open>Daily_Budgets\<close>: the collections, the newly admitted entitlements and the oracle's admissions
    of one day, added up over any history from the deployment on, against the daily caps; the locale
    \<open>daily_counter\<close> holds the argument, with one interpretation for each of the three counters.
  \<^item> \<open>Fuzz_Targets\<close>, \<open>Komet_Harness\<close>: what the repository's own checks really exercise.
  \<^item> \<open>Scenario_Runs\<close>: runs of accepted calls that end in figures the repository's documents do
    not expect.

  \<^bold>\<open>Witnesses.\<close> \<open>Reference_Host\<close> instantiates the host: the repository's mock token, the mock vault
  of its vault tests, a self-delimiting serialisation and executable stand-ins for the hash and
  the signature. \<open>Sample_Runs\<close> builds states by running the contract on it; every theorem with a
  hypothesis is applied at such a state.

  \<^bold>\<open>Hypotheses about code outside the repository.\<close> A theorem that needs one names it:
  \<open>sac_law\<close> (a transfer debits and credits the amount), \<open>vault_law\<close> (a deposit pulls exactly the
  desired amount of the vault's one asset, which the pool also passes as the minimum; it is assumed
  for the token configured as the pool's XLM only, never for a second one), \<open>xdr_law\<close> (XDR is
  self-delimiting). All other theorems hold for every token, vault and hash.

  \<^bold>\<open>Bounds and fuel.\<close> The contract has no loop and no recursion, so nothing needs fuel; the only
  loops are the operation sequences of the fuzz targets, which are recursion on the list of
  operations. What could go on for ever is the handling of a claim over many calls, and
  \<open>Claim_Termination\<close> shows that it does not. \<open>Staking_Properties\<close> gives the
  day-by-day reference for the one closed formula the source uses in place of a loop.

  \<^bold>\<open>Not modelled.\<close> The host functions of the Komet tool, which its bindings call; the bodies of the external token and vault; the \<^verbatim>\<open>cfg(test)\<close> modules; ledger fees, resource
  limits and the archival of expired entries (a persistent entry whose TTL ran out is assumed
  restored before use, as the network does; a temporary entry disappears); the XDR bytes of
  published events below the level of their named fields.
\<close>

end
